theory Spec2Isabelle
  imports Main
begin

section \<open>Constants of charm.py\<close>

definition BESSD_CONTAINER_CONFIG_PATH :: string where
  "BESSD_CONTAINER_CONFIG_PATH = ''/etc/bess/conf''"

definition PFCP_AGENT_CONTAINER_CONFIG_PATH :: string where
  "PFCP_AGENT_CONTAINER_CONFIG_PATH = ''/tmp/conf''"

definition POD_SHARE_PATH :: string where
  "POD_SHARE_PATH = ''/pod-share''"

definition ACCESS_INTERFACE_NAME :: string where
  "ACCESS_INTERFACE_NAME = ''access''"

definition CORE_INTERFACE_NAME :: string where
  "CORE_INTERFACE_NAME = ''core''"

definition CONFIG_FILE_NAME :: string where
  "CONFIG_FILE_NAME = ''upf.json''"

definition BESSCTL_CONFIGURE_EXECUTED_FILE_NAME :: string where
  "BESSCTL_CONFIGURE_EXECUTED_FILE_NAME = ''bessctl_configure_executed''"

definition BESSD_PORT :: nat where
  "BESSD_PORT = 10514"

definition REQUIRED_CPU_EXTENSIONS :: "string list" where
  "REQUIRED_CPU_EXTENSIONS = [''avx2'', ''rdrand'']"

definition REQUIRED_CPU_EXTENSIONS_HUGEPAGES :: "string list" where
  "REQUIRED_CPU_EXTENSIONS_HUGEPAGES = [''pdpe1gb'']"

text \<open>The two paths of the bessd container that the charm builds with f-strings.\<close>

definition config_file_path :: string where
  "config_file_path = BESSD_CONTAINER_CONFIG_PATH @ ''/'' @ CONFIG_FILE_NAME"

definition marker_file_path :: string where
  "marker_file_path = ''/'' @ BESSCTL_CONFIGURE_EXECUTED_FILE_NAME"

section \<open>Desired state\<close>

text \<open>
  Modelled from the spec: \<^verbatim>\<open>charm_config.py\<close> (the classes \<^verbatim>\<open>UpfMode\<close> and
  \<^verbatim>\<open>CharmConfig\<close>) is not among the sources. The record holds the attributes that
  charm.py reads from \<^verbatim>\<open>self._charm_config\<close>; addresses are kept as the text that
  \<^verbatim>\<open>str(...)\<close> returns.
\<close>

datatype UpfMode = af_packet | dpdk

record CharmConfig =
  upf_mode :: UpfMode
  dnn :: string
  gnb_subnet :: string
  enable_hw_checksum :: bool
  access_ip :: string
  access_gateway_ip :: string
  core_ip :: string
  core_gateway_ip :: string

text \<open>The charm object: the identity that the f-strings read, and the loaded configuration.\<close>

record charm =
  app_name :: string
  model_name :: string
  charm_config :: CharmConfig

definition upf_hostname :: "charm \<Rightarrow> string" where
  "upf_hostname self = app_name self @ ''-external.'' @ model_name self @ ''.svc.cluster.local''"

definition get_network_ip_config :: "charm \<Rightarrow> string \<Rightarrow> string option" where
  "get_network_ip_config self interface_name =
     (if interface_name = ACCESS_INTERFACE_NAME then Some (access_ip (charm_config self))
      else if interface_name = CORE_INTERFACE_NAME then Some (core_ip (charm_config self))
      else None)"

definition get_network_gateway_ip_config :: "charm \<Rightarrow> string \<Rightarrow> string option" where
  "get_network_gateway_ip_config self interface_name =
     (if interface_name = ACCESS_INTERFACE_NAME then Some (access_gateway_ip (charm_config self))
      else if interface_name = CORE_INTERFACE_NAME then Some (core_gateway_ip (charm_config self))
      else None)"

definition hugepages_is_enabled :: "charm \<Rightarrow> bool" where
  "hugepages_is_enabled self = (upf_mode (charm_config self) = dpdk)"

text \<open>Python's \<^verbatim>\<open>str(x)\<close> of an optional string inside an f-string.\<close>

definition str_opt :: "string option \<Rightarrow> string" where
  "str_opt v = (case v of None \<Rightarrow> ''None'' | Some t \<Rightarrow> t)"

section \<open>The rendered configuration document\<close>

text \<open>
  Modelled from the spec: the template \<^verbatim>\<open>src/templates/upf.json.j2\<close> is not among the
  sources. The spec calls the document a pure function of the eight rendering inputs, a
  JSON-like structure with a \<^verbatim>\<open>hwcksum\<close> field; it is modelled as the record of the
  values handed to \<^verbatim>\<open>template.render\<close>. The field \<open>doc_hwcksum\<close> is the JSON boolean
  that the text \<^verbatim>\<open>str(enable_hw_checksum).lower()\<close> writes at the key \<^verbatim>\<open>hwcksum\<close>.
\<close>

record RenderedConfig =
  doc_upf_hostname :: string
  doc_mode :: UpfMode
  doc_access_interface_name :: string
  doc_core_interface_name :: string
  doc_core_ip_address :: string
  doc_dnn :: string
  doc_pod_share_path :: string
  doc_hwcksum :: bool

definition render_bessd_config_file ::
  "string \<Rightarrow> UpfMode \<Rightarrow> string \<Rightarrow> string \<Rightarrow> string \<Rightarrow> string \<Rightarrow> string \<Rightarrow> bool \<Rightarrow> RenderedConfig" where
  "render_bessd_config_file upf_hostname' upf_mode' access_interface_name core_interface_name
       core_ip_address dnn' pod_share_path enable_hw_checksum' =
     \<lparr>doc_upf_hostname = upf_hostname',
      doc_mode = upf_mode',
      doc_access_interface_name = access_interface_name,
      doc_core_interface_name = core_interface_name,
      doc_core_ip_address = core_ip_address,
      doc_dnn = dnn',
      doc_pod_share_path = pod_share_path,
      doc_hwcksum = enable_hw_checksum'\<rparr>"

text \<open>
  What \<^verbatim>\<open>json.loads(...).get("hwcksum")\<close> returns: Python's \<^verbatim>\<open>None\<close> for the empty
  dict that stands for a missing file, the stored boolean otherwise.
\<close>

datatype pyval = PyNone | PyBool bool

definition dict_get_hwcksum :: "RenderedConfig option \<Rightarrow> pyval" where
  "dict_get_hwcksum existing_content =
     (case existing_content of None \<Rightarrow> PyNone | Some d \<Rightarrow> PyBool (doc_hwcksum d))"

section \<open>The bessd workload container\<close>

text \<open>
  Commands the charm runs in the container. \<open>command_text\<close> is the string handed to
  \<^verbatim>\<open>_exec_command_in_bessd_workload\<close>, which splits it at white space.
\<close>

datatype cmd =
    IpRouteReplace string string "string option"
  | IptablesCheck
  | IptablesInsert
  | BessctlRun

fun command_text :: "cmd \<Rightarrow> string" where
  "command_text (IpRouteReplace dest gw None) = ''ip route replace '' @ dest @ '' via '' @ gw"
| "command_text (IpRouteReplace dest gw (Some m)) =
     ''ip route replace '' @ dest @ '' via '' @ gw @ '' metric '' @ m"
| "command_text IptablesCheck =
     ''iptables-legacy --check OUTPUT -p icmp --icmp-type port-unreachable -j DROP''"
| "command_text IptablesInsert =
     ''iptables-legacy -I OUTPUT -p icmp --icmp-type port-unreachable -j DROP''"
| "command_text BessctlRun = ''/opt/bess/bessctl/bessctl run /opt/bess/bessctl/conf/up4''"

definition icmp_rule :: string where
  "icmp_rule = ''-p icmp --icmp-type port-unreachable -j DROP''"

text \<open>Pebble services, checks and layers (\<^verbatim>\<open>ops.pebble\<close>); dicts are maps.\<close>

record Service =
  svc_override :: string
  svc_startup :: string
  svc_command :: string
  svc_environment :: "string \<rightharpoonup> string"

record Check =
  chk_override :: string
  chk_level :: string
  chk_tcp_port :: nat

record Layer =
  summary :: string
  description :: string
  services :: "string \<rightharpoonup> Service"
  checks :: "string \<rightharpoonup> Check"

text \<open>Every call the charm makes on the container gateway, in the order issued.\<close>

datatype call =
    Exists string
  | Pull string
  | Push string
  | Exec cmd bool
  | GetPlan
  | AddLayer string
  | Restart string
  | DeletePod
  | Sleep nat

text \<open>
  The observed state of a workload container. The file system is the three paths the
  charm touches: the storage directory, the configuration document and the marker.
  \<open>routes\<close> maps a destination and metric to its gateway; \<open>iptables_output\<close> is the OUTPUT
  chain. \<open>execs\<close> counts the commands run so far and \<open>clock\<close> is the reading of
  \<^verbatim>\<open>time.time()\<close>, in the time units of the retry budget. \<open>pod_deleted\<close> holds once
  the deletion of the unit's pod has been asked of the cluster.
\<close>

record cstate =
  storage_dir :: bool
  config_file :: "RenderedConfig option"
  marker_file :: "string option"
  routes :: "(string \<times> string option) \<rightharpoonup> string"
  iptables_output :: "string list"
  plan_services :: "string \<rightharpoonup> Service"
  plan_checks :: "string \<rightharpoonup> Check"
  execs :: nat
  clock :: nat
  calls :: "call list"
  pod_deleted :: bool

text \<open>
  What the charm cannot know in advance: whether the \<open>n\<close>-th command run in the
  container exits with status 0 when nothing in the observed state forbids it, and how
  long a command takes.
\<close>

record env =
  exec_ok :: "nat \<Rightarrow> cmd \<Rightarrow> bool"
  exec_time :: nat

datatype error = PathError | ExecError | TimeoutError

text \<open>A call either returns a value or raises; both leave a state behind.\<close>

datatype ('e, 'a, 's) outcome = Return 'a 's | Raise 'e 's

fun final :: "('e, 'a, 's) outcome \<Rightarrow> 's" where
  "final (Return v s) = s"
| "final (Raise err s) = s"

fun returns :: "('e, 'a, 's) outcome \<Rightarrow> bool" where
  "returns (Return v s) = True"
| "returns (Raise err s) = False"

subsection \<open>The container gateway\<close>

definition log_call :: "call \<Rightarrow> cstate \<Rightarrow> cstate" where
  "log_call c s = s\<lparr>calls := calls s @ [c]\<rparr>"

text \<open>The effect of a command that exits with status 0.\<close>

fun cmd_effect :: "cmd \<Rightarrow> cstate \<Rightarrow> cstate" where
  "cmd_effect (IpRouteReplace dest gw metric) s = s\<lparr>routes := (routes s)((dest, metric) \<mapsto> gw)\<rparr>"
| "cmd_effect IptablesCheck s = s"
| "cmd_effect IptablesInsert s = s\<lparr>iptables_output := icmp_rule # iptables_output s\<rparr>"
| "cmd_effect BessctlRun s = s"

text \<open>\<^verbatim>\<open>iptables --check\<close> exits with status 0 only when the rule is in the chain.\<close>

fun cmd_possible :: "cmd \<Rightarrow> cstate \<Rightarrow> bool" where
  "cmd_possible IptablesCheck s = (icmp_rule \<in> set (iptables_output s))"
| "cmd_possible c s = True"

definition exec_command_in_bessd_workload :: "env \<Rightarrow> cmd \<Rightarrow> cstate \<Rightarrow> (error, unit, cstate) outcome" where
  "exec_command_in_bessd_workload e command s =
     (let ok = (exec_ok e (execs s) command \<and> cmd_possible command s);
          s1 = s\<lparr>execs := Suc (execs s), clock := clock s + exec_time e,
                 calls := calls s @ [Exec command ok]\<rparr>
      in if ok then Return () (cmd_effect command s1) else Raise ExecError s1)"

definition write_bessd_config_file :: "RenderedConfig \<Rightarrow> cstate \<Rightarrow> cstate" where
  "write_bessd_config_file content s = log_call (Push config_file_path) (s\<lparr>config_file := Some content\<rparr>)"

definition bessd_config_file_is_written :: "cstate \<Rightarrow> bool \<times> cstate" where
  "bessd_config_file_is_written s = (config_file s \<noteq> None, log_call (Exists config_file_path) s)"

text \<open>\<^verbatim>\<open>Container.pull\<close> raises \<^verbatim>\<open>PathError\<close> when the file is missing.\<close>

definition pull_config_file :: "cstate \<Rightarrow> (error, RenderedConfig, cstate) outcome" where
  "pull_config_file s =
     (case config_file s of
        None \<Rightarrow> Raise PathError (log_call (Pull config_file_path) s)
      | Some d \<Rightarrow> Return d (log_call (Pull config_file_path) s))"

definition bessd_config_file_content_matches :: "RenderedConfig \<Rightarrow> cstate \<Rightarrow> (error, bool, cstate) outcome" where
  "bessd_config_file_content_matches content s =
     (case pull_config_file s of
        Raise err s1 \<Rightarrow> Raise err s1
      | Return existing_content s1 \<Rightarrow>
          if existing_content \<noteq> content then Return False s1 else Return True s1)"

text \<open>
  \<^verbatim>\<open>_hwcksum_config_matches_pod_config\<close> catches \<^verbatim>\<open>PathError\<close> and reads the key of an empty
  dictionary then. The only error \<open>pull_config_file\<close> raises is \<open>PathError\<close>, so the \<open>Raise\<close>
  branch below is that handler and the function always returns. The comparison is the
  source's \<^verbatim>\<open>!=\<close>: the result is True when the stored value differs from the configured one.
\<close>

definition hwcksum_config_matches_pod_config :: "charm \<Rightarrow> cstate \<Rightarrow> bool \<times> cstate" where
  "hwcksum_config_matches_pod_config self s =
     (case pull_config_file s of
        Raise err s1 \<Rightarrow>
          (dict_get_hwcksum None \<noteq> PyBool (enable_hw_checksum (charm_config self)), s1)
      | Return d s1 \<Rightarrow>
          (dict_get_hwcksum (Some d) \<noteq> PyBool (enable_hw_checksum (charm_config self)), s1))"

definition is_bessctl_executed :: "cstate \<Rightarrow> bool \<times> cstate" where
  "is_bessctl_executed s = (marker_file s \<noteq> None, log_call (Exists marker_file_path) s)"

definition create_bessctl_executed_validation_file :: "string \<Rightarrow> cstate \<Rightarrow> cstate" where
  "create_bessctl_executed_validation_file content s =
     log_call (Push marker_file_path) (s\<lparr>marker_file := Some content\<rparr>)"

definition create_default_route :: "env \<Rightarrow> charm \<Rightarrow> cstate \<Rightarrow> (error, unit, cstate) outcome" where
  "create_default_route e self s =
     exec_command_in_bessd_workload e
       (IpRouteReplace ''default'' (str_opt (get_network_gateway_ip_config self CORE_INTERFACE_NAME))
          (Some ''110'')) s"

definition create_ran_route :: "env \<Rightarrow> charm \<Rightarrow> cstate \<Rightarrow> (error, unit, cstate) outcome" where
  "create_ran_route e self s =
     exec_command_in_bessd_workload e
       (IpRouteReplace (gnb_subnet (charm_config self))
          (str_opt (get_network_gateway_ip_config self ACCESS_INTERFACE_NAME)) None) s"

definition ip_tables_rule_exists :: "env \<Rightarrow> cstate \<Rightarrow> bool \<times> cstate" where
  "ip_tables_rule_exists e s =
     (case exec_command_in_bessd_workload e IptablesCheck s of
        Return u s1 \<Rightarrow> (True, s1)
      | Raise err s1 \<Rightarrow> (False, s1))"

definition create_ip_tables_rule :: "env \<Rightarrow> cstate \<Rightarrow> (error, unit, cstate) outcome" where
  "create_ip_tables_rule e s = exec_command_in_bessd_workload e IptablesInsert s"

text \<open>
  \<^verbatim>\<open>delete_pod\<close> asks the cluster to delete the unit's own pod
  (\<^verbatim>\<open>client.delete(Pod, name=self._pod_name, ...)\<close>). The call returns once the request
  is accepted; the statement that follows it in \<^verbatim>\<open>_configure_bessd_workload\<close>, the
  Bootstrap Runner, still addresses the container of the pod that is being deleted. What
  the deletion destroys is given by \<open>recreate_deleted_pod\<close> below.
\<close>

definition delete_pod :: "cstate \<Rightarrow> cstate" where
  "delete_pod s = log_call DeletePod (s\<lparr>pod_deleted := True\<rparr>)"

text \<open>
  Modelled from the spec: what happens to a deleted pod is not in the sources. The spec
  has the supervising layer recreate the instance, and a fresh container instance start
  without the marker, which lies outside persistent storage (so does the docstring of
  \<^verbatim>\<open>_create_bessctl_executed_validation_file\<close>: on container restart the bessd
  configuration runs again). The container of the new pod keeps what is on the storage
  volume mounted at \<^verbatim>\<open>BESSD_CONTAINER_CONFIG_PATH\<close>, the configuration document, and
  nothing else of the old one: no marker, the routes and the OUTPUT chain of a new network
  namespace, and an empty Pebble plan. The log of calls, the command counter and the clock
  go on. With no deletion pending the state between two passes is left as it is.
\<close>

definition recreate_deleted_pod :: "cstate \<Rightarrow> cstate" where
  "recreate_deleted_pod s =
     (if pod_deleted s
      then s\<lparr>marker_file := None, routes := Map.empty, iptables_output := [],
             plan_services := Map.empty, plan_checks := Map.empty, pod_deleted := False\<rparr>
      else s)"

definition restart_service :: "string \<Rightarrow> cstate \<Rightarrow> cstate" where
  "restart_service service_name s = log_call (Restart service_name) s"

definition sleep :: "nat \<Rightarrow> cstate \<Rightarrow> cstate" where
  "sleep n s = s\<lparr>clock := clock s + n, calls := calls s @ [Sleep n]\<rparr>"

text \<open>
  \<^verbatim>\<open>add_layer(label, layer, combine=True)\<close>: the services and checks of the layer
  override those of the same name in the plan.
\<close>

definition add_layer :: "string \<Rightarrow> Layer \<Rightarrow> cstate \<Rightarrow> cstate" where
  "add_layer label layer s =
     log_call (AddLayer label)
       (s\<lparr>plan_services := plan_services s ++ services layer,
          plan_checks := plan_checks s ++ checks layer\<rparr>)"

definition get_plan :: "cstate \<Rightarrow> (string \<rightharpoonup> Service) \<times> cstate" where
  "get_plan s = (plan_services s, log_call GetPlan s)"

subsection \<open>The supervision declaration\<close>

definition bessd_environment_variables :: "string \<rightharpoonup> string" where
  "bessd_environment_variables =
     [''CONF_FILE'' \<mapsto> BESSD_CONTAINER_CONFIG_PATH @ ''/'' @ CONFIG_FILE_NAME,
      ''PYTHONPATH'' \<mapsto> ''/opt/bess'']"

definition routectl_environment_variables :: "string \<rightharpoonup> string" where
  "routectl_environment_variables =
     [''PYTHONPATH'' \<mapsto> ''/opt/bess'', ''PYTHONUNBUFFERED'' \<mapsto> ''1'']"

definition generate_bessd_startup_command :: "charm \<Rightarrow> string" where
  "generate_bessd_startup_command self =
     (let hugepages_cmd = (if \<not> hugepages_is_enabled self then ''-m 0'' else '''')
      in ''/bin/bessd -f -grpc-url=0.0.0.0:10514 '' @ hugepages_cmd)"

definition bessd_service_name :: string where
  "bessd_service_name = ''bessd''"

definition routectl_service_name :: string where
  "routectl_service_name = ''routectl''"

definition pfcp_agent_service_name :: string where
  "pfcp_agent_service_name = ''pfcp-agent''"

definition bessd_pebble_layer :: "charm \<Rightarrow> Layer" where
  "bessd_pebble_layer self =
     \<lparr>summary = ''bessd layer'',
      description = ''pebble config layer for bessd'',
      services =
        [routectl_service_name \<mapsto>
           \<lparr>svc_override = ''replace'', svc_startup = ''enabled'',
            svc_command = ''/opt/bess/bessctl/conf/route_control.py -i '' @ ACCESS_INTERFACE_NAME
                            @ '' '' @ CORE_INTERFACE_NAME,
            svc_environment = routectl_environment_variables\<rparr>,
         bessd_service_name \<mapsto>
           \<lparr>svc_override = ''replace'', svc_startup = ''enabled'',
            svc_command = generate_bessd_startup_command self,
            svc_environment = bessd_environment_variables\<rparr>],
      checks =
        [''online'' \<mapsto> \<lparr>chk_override = ''replace'', chk_level = ''ready'', chk_tcp_port = BESSD_PORT\<rparr>]\<rparr>"

definition pfcp_agent_pebble_layer :: Layer where
  "pfcp_agent_pebble_layer =
     \<lparr>summary = ''pfcp agent layer'',
      description = ''pebble config layer for pfcp agent'',
      services =
        [pfcp_agent_service_name \<mapsto>
           \<lparr>svc_override = ''replace'', svc_startup = ''enabled'',
            svc_command = ''pfcpiface -config '' @ PFCP_AGENT_CONTAINER_CONFIG_PATH @ ''/''
                            @ CONFIG_FILE_NAME,
            svc_environment = Map.empty\<rparr>],
      checks = Map.empty\<rparr>"

section \<open>The Bootstrap Runner\<close>

text \<open>
  The \<^verbatim>\<open>while\<close> loop of \<^verbatim>\<open>_run_bess_configuration\<close>. Only \<^verbatim>\<open>ExecError\<close> is caught;
  a failed attempt sleeps two time units and the loop tests the budget again.
\<close>

function run_bess_configuration_loop :: "env \<Rightarrow> nat \<Rightarrow> cstate \<Rightarrow> (error, unit, cstate) outcome" where
  "run_bess_configuration_loop e initial_time s =
     (if clock s - initial_time \<le> 300 then
        (if \<not> fst (is_bessctl_executed s) then
           (case exec_command_in_bessd_workload e BessctlRun (snd (is_bessctl_executed s)) of
              Return u s2 \<Rightarrow>
                Return () (create_bessctl_executed_validation_file ''Service `bessd` configured'' s2)
            | Raise err s2 \<Rightarrow>
                (if err = ExecError then run_bess_configuration_loop e initial_time (sleep 2 s2)
                 else Raise err s2))
         else Return () (snd (is_bessctl_executed s)))
      else Raise TimeoutError s)"
  by pat_completeness auto
termination
proof (relation "measure (\<lambda>(e, initial_time, s). initial_time + 301 - clock s)")
  show "wf (measure (\<lambda>(e, initial_time, s). initial_time + 301 - clock s))"
    by simp
next
  fix e :: env and initial_time :: nat and s s2 :: cstate and err :: error
  assume budget: "clock s - initial_time \<le> 300"
    and raised: "exec_command_in_bessd_workload e BessctlRun (snd (is_bessctl_executed s)) = Raise err s2"
  have "clock s2 = clock s + exec_time e"
    using raised
    by (auto simp: exec_command_in_bessd_workload_def is_bessctl_executed_def log_call_def Let_def
             split: if_splits)
  then show "((e, initial_time, sleep 2 s2), (e, initial_time, s))
               \<in> measure (\<lambda>(e, initial_time, s). initial_time + 301 - clock s)"
    using budget by (simp add: sleep_def)
qed

declare run_bess_configuration_loop.simps [simp del]

definition run_bess_configuration :: "env \<Rightarrow> cstate \<Rightarrow> (error, unit, cstate) outcome" where
  "run_bess_configuration e s = run_bess_configuration_loop e (clock s) s"

section \<open>The Configuration Reconciler\<close>

text \<open>
  \<^verbatim>\<open>_configure_bessd_workload\<close>, in the order of its statements. The first block
  (the rendering and the comparison with the stored document) returns the two flags
  \<open>(restart, recreate_pod)\<close>.
\<close>

definition desired_content :: "charm \<Rightarrow> RenderedConfig" where
  "desired_content self =
     (let core_ip_address = get_network_ip_config self CORE_INTERFACE_NAME
      in render_bessd_config_file
           (upf_hostname self)
           (upf_mode (charm_config self))
           ACCESS_INTERFACE_NAME
           CORE_INTERFACE_NAME
           (case core_ip_address of
              None \<Rightarrow> []
            | Some ip \<Rightarrow> if ip \<noteq> [] then takeWhile (\<lambda>c. c \<noteq> CHR ''/'') ip else [])
           (dnn (charm_config self))
           POD_SHARE_PATH
           (enable_hw_checksum (charm_config self)))"

definition update_config_file :: "charm \<Rightarrow> cstate \<Rightarrow> (error, bool \<times> bool, cstate) outcome" where
  "update_config_file self s =
     (let restart = False;
          recreate_pod = False;
          content = desired_content self;
          (written, s1) = bessd_config_file_is_written s
      in case (if \<not> written then Return True s1
               else case bessd_config_file_content_matches content s1 of
                      Raise err s2 \<Rightarrow> Raise err s2
                    | Return matches s2 \<Rightarrow> Return (\<not> matches) s2) of
           Raise err s2 \<Rightarrow> Raise err s2
         | Return differs s2 \<Rightarrow>
             if differs then
               (let (mismatch, s3) = hwcksum_config_matches_pod_config self s2;
                    recreate_pod = (if mismatch then True else recreate_pod);
                    s4 = write_bessd_config_file content s3;
                    restart = True
                in Return (restart, recreate_pod) s4)
             else Return (restart, recreate_pod) s2)"

definition ensure_routes_and_rule :: "env \<Rightarrow> charm \<Rightarrow> cstate \<Rightarrow> (error, unit, cstate) outcome" where
  "ensure_routes_and_rule e self s =
     (case create_default_route e self s of
        Raise err s1 \<Rightarrow> Raise err s1
      | Return u s1 \<Rightarrow>
          (case create_ran_route e self s1 of
             Raise err s2 \<Rightarrow> Raise err s2
           | Return u s2 \<Rightarrow>
               (let (rule_exists, s3) = ip_tables_rule_exists e s2
                in if \<not> rule_exists then create_ip_tables_rule e s3 else Return () s3)))"

definition update_pebble_layer :: "charm \<Rightarrow> bool \<Rightarrow> cstate \<Rightarrow> bool \<times> cstate" where
  "update_pebble_layer self restart s =
     (let (plan, s1) = get_plan s;
          layer = bessd_pebble_layer self
      in if plan \<noteq> services layer
         then (True, add_layer ''bessd'' (bessd_pebble_layer self) s1)
         else (restart, s1))"

definition restart_or_recreate :: "bool \<Rightarrow> bool \<Rightarrow> cstate \<Rightarrow> cstate" where
  "restart_or_recreate restart recreate_pod s =
     (if recreate_pod then delete_pod s
      else if restart then restart_service bessd_service_name (restart_service routectl_service_name s)
      else s)"

definition configure_bessd_workload :: "env \<Rightarrow> charm \<Rightarrow> cstate \<Rightarrow> (error, unit, cstate) outcome" where
  "configure_bessd_workload e self s =
     (case update_config_file self s of
        Raise err s1 \<Rightarrow> Raise err s1
      | Return (restart, recreate_pod) s1 \<Rightarrow>
          (case ensure_routes_and_rule e self s1 of
             Raise err s2 \<Rightarrow> Raise err s2
           | Return u s2 \<Rightarrow>
               (let (restart', s3) = update_pebble_layer self restart s2;
                    s4 = restart_or_recreate restart' recreate_pod s3
                in run_bess_configuration e s4)))"

section \<open>The Sidecar Configuration Reconciler\<close>

text \<open>
  \<^verbatim>\<open>_configure_pfcp_agent_workload\<close>, on the state of the pfcp-agent container (the same
  gateway, \<^verbatim>\<open>ops.Container\<close>, as the bessd container).
\<close>

definition configure_pfcp_agent_workload :: "cstate \<Rightarrow> cstate" where
  "configure_pfcp_agent_workload p =
     (let (plan, p1) = get_plan p;
          layer = pfcp_agent_pebble_layer
      in if plan \<noteq> services layer
         then restart_service pfcp_agent_service_name (add_layer ''pfcp'' pfcp_agent_pebble_layer p1)
         else p1)"

section \<open>The Status Aggregator\<close>

datatype unit_status = ActiveStatus | BlockedStatus string | WaitingStatus string

text \<open>
  What Pebble answers about a container when the status is computed: whether it can be
  reached, and for each service whether it runs (\<open>None\<close>: \<^verbatim>\<open>get_service\<close> raises
  \<^verbatim>\<open>ModelError\<close>).
\<close>

record container_view =
  can_connect :: bool
  service_running :: "string \<rightharpoonup> bool"

definition service_is_running_on_container :: "container_view \<Rightarrow> string \<Rightarrow> bool" where
  "service_is_running_on_container container service_name =
     (if \<not> can_connect container then False
      else case service_running container service_name of
             None \<Rightarrow> False
           | Some running \<Rightarrow> running)"

definition set_unit_status :: "container_view \<Rightarrow> container_view \<Rightarrow> unit_status" where
  "set_unit_status bessd_container pfcp_agent_container =
     (if \<not> service_is_running_on_container bessd_container bessd_service_name
      then WaitingStatus ''Waiting for bessd service to run''
      else if \<not> service_is_running_on_container bessd_container routectl_service_name
      then WaitingStatus ''Waiting for routectl service to run''
      else if \<not> service_is_running_on_container pfcp_agent_container pfcp_agent_service_name
      then WaitingStatus ''Waiting for pfcp agent service to run''
      else ActiveStatus)"

text \<open>
  Everything \<^verbatim>\<open>_on_bessd_pebble_ready\<close> reads outside the bessd container's files:
  the outcome of \<^verbatim>\<open>CharmConfig.from_charm\<close> (\<open>Inl\<close> the message of
  \<^verbatim>\<open>CharmConfigInvalidError\<close>), leadership, the flags \<^verbatim>\<open>lscpu\<close> lists, the answer of
  \<^verbatim>\<open>_hugepages_are_available\<close>, the answer of the Multus library's \<^verbatim>\<open>is_ready\<close>, and
  the two containers' process tables.
\<close>

record observations =
  config_load :: "string + CharmConfig"
  is_leader :: bool
  cpu_extensions :: "string list"
  hugepages_available :: bool
  multus_is_ready :: bool
  bessd_container :: container_view
  pfcp_agent_container :: container_view

fun join :: "string \<Rightarrow> string list \<Rightarrow> string" where
  "join sep [] = []"
| "join sep [x] = x"
| "join sep (x # y # ys) = x @ sep @ join sep (y # ys)"

definition cpu_is_compatible_for_hugepages :: "observations \<Rightarrow> bool" where
  "cpu_is_compatible_for_hugepages obs =
     list_all (\<lambda>required_extension. required_extension \<in> set (cpu_extensions obs))
       REQUIRED_CPU_EXTENSIONS_HUGEPAGES"

text \<open>Returns the verdict and the unit status it leaves (unchanged when compatible).\<close>

definition is_cpu_compatible :: "charm \<Rightarrow> observations \<Rightarrow> unit_status \<Rightarrow> bool \<times> unit_status" where
  "is_cpu_compatible self obs status =
     (if \<not> list_all (\<lambda>required_extension. required_extension \<in> set (cpu_extensions obs))
               REQUIRED_CPU_EXTENSIONS
      then (False, BlockedStatus (''Please use a CPU that has the following capabilities: ''
                                   @ join '', '' REQUIRED_CPU_EXTENSIONS))
      else if hugepages_is_enabled self then
        (if \<not> cpu_is_compatible_for_hugepages obs
         then (False, BlockedStatus (''Please use a CPU that has the following capabilities: ''
                 @ join '', '' (REQUIRED_CPU_EXTENSIONS @ REQUIRED_CPU_EXTENSIONS_HUGEPAGES)))
         else if \<not> hugepages_available obs
         then (False, BlockedStatus ''Not enough HugePages available'')
         else (True, status))
      else (True, status))"

text \<open>
  \<^verbatim>\<open>_on_bessd_pebble_ready\<close>: returns the unit status it leaves; when the Configuration
  Reconciler raises, the exception leaves the handler and the status is not touched.
\<close>

definition on_bessd_pebble_ready ::
  "env \<Rightarrow> observations \<Rightarrow> charm \<Rightarrow> unit_status \<Rightarrow> cstate \<Rightarrow> (error, unit_status, cstate) outcome" where
  "on_bessd_pebble_ready e obs self0 status s =
     (case config_load obs of
        Inl msg \<Rightarrow> Return (BlockedStatus msg) s
      | Inr cfg \<Rightarrow>
          (let self = self0\<lparr>charm_config := cfg\<rparr>
           in if \<not> is_leader obs then Return status s
              else if \<not> fst (is_cpu_compatible self obs status)
              then Return (snd (is_cpu_compatible self obs status)) s
              else if \<not> multus_is_ready obs
              then Return (WaitingStatus ''Waiting for Multus to be ready'') s
              else if \<not> storage_dir s
              then Return (WaitingStatus ''Waiting for storage to be attached'')
                     (log_call (Exists BESSD_CONTAINER_CONFIG_PATH) s)
              else (case configure_bessd_workload e self
                           (log_call (Exists BESSD_CONTAINER_CONFIG_PATH) s) of
                      Raise err s1 \<Rightarrow> Raise err s1
                    | Return u s1 \<Rightarrow>
                        Return (set_unit_status (bessd_container obs) (pfcp_agent_container obs)) s1)))"

text \<open>
  The aggregator as the specification words it: a list of checks in priority order, each
  with the verdict it yields when it fails; the first failing check decides, and
  \<open>ActiveStatus\<close> is the verdict when none fails.
\<close>

fun first_failing_check :: "(bool \<times> unit_status) list \<Rightarrow> unit_status" where
  "first_failing_check [] = ActiveStatus"
| "first_failing_check ((passed, verdict) # rest) =
     (if passed then first_failing_check rest else verdict)"

section \<open>The Attachment Repository and Reconciler (kubernetes_multus.py)\<close>

record NetworkAnnotation =
  na_name :: string
  na_interface :: string
  na_ips :: "string list option"

record NetworkAttachmentDefinition =
  nad_name :: string
  nad_spec_config :: string

record Capabilities =
  cap_add :: "string list option"
  cap_drop :: "string list option"

record SecurityContext =
  sc_capabilities :: "Capabilities option"
  sc_privileged :: "bool option"
  sc_runAsUser :: "nat option"

record Container =
  c_name :: string
  c_image :: string
  c_securityContext :: "SecurityContext option"

text \<open>
  The text stored under an annotation key, up to what \<^verbatim>\<open>json.loads\<close> makes of it:
  \<open>Dumped l\<close> reads back as the list of the dicts of \<open>l\<close> (as the text written by
  \<^verbatim>\<open>json.dumps\<close> does), \<open>OtherJson\<close> is JSON of any other value, \<open>NotJson\<close> is
  text that \<^verbatim>\<open>json.loads\<close> rejects.
\<close>

datatype annotation_text = Dumped "NetworkAnnotation list" | OtherJson string | NotJson string

record StatefulSet =
  sts_annotations :: "string \<rightharpoonup> annotation_text"
  sts_containers :: "Container list"
  sts_replicas :: nat
  sts_service_name :: string

datatype api_fault = ApiError string | HTTPStatusError nat

datatype k8s_call =
    GetNad string
  | CreateNad string
  | DeleteNad string
  | GetStatefulSet
  | PatchStatefulSet StatefulSet

text \<open>
  The cluster as the library's client sees it, in the namespace of the model: the network
  attachment definitions by name, the charm's statefulset, and \<open>nad_get_fault\<close>, the
  failure (if any) with which a get of a network attachment definition is answered
  whatever the object's state.
\<close>

record cluster =
  nads :: "string \<rightharpoonup> NetworkAttachmentDefinition"
  nad_get_fault :: "string \<Rightarrow> api_fault option"
  statefulset :: StatefulSet
  k8s_calls :: "k8s_call list"

datatype k8s_error =
    KubernetesMultusError string
  | AttributeError
  | TypeError
  | IndexError
  | JSONDecodeError

definition multus_annotation_key :: string where
  "multus_annotation_key = ''k8s.v1.cni.cncf.io/networks''"

definition json_dumps :: "NetworkAnnotation list \<Rightarrow> annotation_text" where
  "json_dumps network_annotations = Dumped network_annotations"

text \<open>\<open>Inr None\<close>: a value that equals no list of annotation dicts.\<close>

fun json_loads :: "annotation_text \<Rightarrow> k8s_error + NetworkAnnotation list option" where
  "json_loads (Dumped l) = Inr (Some l)"
| "json_loads (OtherJson t) = Inr None"
| "json_loads (NotJson t) = Inl JSONDecodeError"

subsection \<open>The client\<close>

text \<open>A missing object is answered with \<^verbatim>\<open>ApiError\<close> whose reason is NotFound.\<close>

definition client_get_nad :: "string \<Rightarrow> cluster \<Rightarrow> (api_fault + NetworkAttachmentDefinition) \<times> cluster" where
  "client_get_nad name c =
     (case nad_get_fault c name of
        Some fault \<Rightarrow> Inl fault
      | None \<Rightarrow> (case nads c name of None \<Rightarrow> Inl (ApiError ''NotFound'') | Some d \<Rightarrow> Inr d),
      c\<lparr>k8s_calls := k8s_calls c @ [GetNad name]\<rparr>)"

definition client_get_statefulset :: "cluster \<Rightarrow> StatefulSet \<times> cluster" where
  "client_get_statefulset c = (statefulset c, c\<lparr>k8s_calls := k8s_calls c @ [GetStatefulSet]\<rparr>)"

text \<open>
  The merge patch carries the whole object read before, with the changes made to it; the
  cluster then holds that object.
\<close>

definition client_patch_statefulset :: "StatefulSet \<Rightarrow> cluster \<Rightarrow> cluster" where
  "client_patch_statefulset obj c =
     c\<lparr>statefulset := obj, k8s_calls := k8s_calls c @ [PatchStatefulSet obj]\<rparr>"

subsection \<open>KubernetesMultus\<close>

fun first_index :: "Container list \<Rightarrow> string \<Rightarrow> nat option" where
  "first_index [] container_name = None"
| "first_index (c # cs) container_name =
     (if c_name c = container_name then Some 0 else map_option Suc (first_index cs container_name))"

definition get_container_index_from_name :: "string \<Rightarrow> cluster \<Rightarrow> (k8s_error, nat, cluster) outcome" where
  "get_container_index_from_name container_name c =
     (let (sts, c1) = client_get_statefulset c
      in case first_index (sts_containers sts) container_name of
           Some i \<Rightarrow> Return i c1
         | None \<Rightarrow>
             Raise (KubernetesMultusError (''No container named '' @ container_name @ '' in statefulset'')) c1)"

definition network_attachment_definition_is_created :: "string \<Rightarrow> cluster \<Rightarrow> (k8s_error, bool, cluster) outcome" where
  "network_attachment_definition_is_created name c =
     (let (got, c1) = client_get_nad name c
      in case got of
           Inr d \<Rightarrow> Return True c1
         | Inl (ApiError reason) \<Rightarrow>
             if reason = ''NotFound'' then Return False c1
             else Raise (KubernetesMultusError
                     (''Unexpected outcome when retrieving network attachment definition '' @ name)) c1
         | Inl (HTTPStatusError status_code) \<Rightarrow>
             if status_code = 404
             then Raise (KubernetesMultusError
                     ''NetworkAttachmentDefinition resource not found. You may need to install Multus CNI.'') c1
             else Raise (KubernetesMultusError
                     (''Unexpected outcome when retrieving network attachment definition '' @ name)) c1)"

definition create_network_attachment_definition :: "NetworkAttachmentDefinition \<Rightarrow> cluster \<Rightarrow> cluster" where
  "create_network_attachment_definition network_attachment_definition c =
     c\<lparr>nads := (nads c)(nad_name network_attachment_definition \<mapsto> network_attachment_definition),
       k8s_calls := k8s_calls c @ [CreateNad (nad_name network_attachment_definition)]\<rparr>"

definition delete_network_attachment_definition :: "string \<Rightarrow> cluster \<Rightarrow> cluster" where
  "delete_network_attachment_definition name c =
     c\<lparr>nads := (nads c)(name := None), k8s_calls := k8s_calls c @ [DeleteNad name]\<rparr>"

definition net_admin :: Capabilities where
  "net_admin = \<lparr>cap_add = Some [''NET_ADMIN''], cap_drop = None\<rparr>"

text \<open>The loop of \<^verbatim>\<open>patch_statefulset\<close> over the containers that need NET_ADMIN.\<close>

fun set_net_admin :: "StatefulSet \<Rightarrow> string list \<Rightarrow> cluster \<Rightarrow> (k8s_error, StatefulSet, cluster) outcome" where
  "set_net_admin sts [] c = Return sts c"
| "set_net_admin sts (container_name # rest) c =
     (case get_container_index_from_name container_name c of
        Raise err c1 \<Rightarrow> Raise err c1
      | Return container_index c1 \<Rightarrow>
          if \<not> container_index < length (sts_containers sts) then Raise IndexError c1
          else (case c_securityContext (sts_containers sts ! container_index) of
                  None \<Rightarrow> Raise AttributeError c1
                | Some security_context \<Rightarrow>
                    set_net_admin
                      (sts\<lparr>sts_containers := (sts_containers sts)
                          [container_index := (sts_containers sts ! container_index)
                             \<lparr>c_securityContext :=
                                Some (security_context\<lparr>sc_capabilities := Some net_admin\<rparr>)\<rparr>]\<rparr>)
                      rest c1))"

definition patch_statefulset :: "NetworkAnnotation list \<Rightarrow> string list \<Rightarrow> cluster \<Rightarrow> (k8s_error, unit, cluster) outcome" where
  "patch_statefulset network_annotations containers_requiring_net_admin c =
     (if network_annotations = [] then Return () c
      else (let (sts, c1) = client_get_statefulset c;
                sts1 = sts\<lparr>sts_annotations :=
                             (sts_annotations sts)(multus_annotation_key \<mapsto> json_dumps network_annotations)\<rparr>
            in case set_net_admin sts1 containers_requiring_net_admin c1 of
                 Raise err c2 \<Rightarrow> Raise err c2
               | Return obj c2 \<Rightarrow> Return () (client_patch_statefulset obj c2)))"

text \<open>The loop of \<^verbatim>\<open>statefulset_is_patched\<close> over the same containers.\<close>

fun have_net_admin :: "StatefulSet \<Rightarrow> string list \<Rightarrow> cluster \<Rightarrow> (k8s_error, bool, cluster) outcome" where
  "have_net_admin sts [] c = Return True c"
| "have_net_admin sts (container_name # rest) c =
     (case get_container_index_from_name container_name c of
        Raise err c1 \<Rightarrow> Raise err c1
      | Return container_index c1 \<Rightarrow>
          if \<not> container_index < length (sts_containers sts) then Raise IndexError c1
          else (case c_securityContext (sts_containers sts ! container_index) of
                  None \<Rightarrow> Raise AttributeError c1
                | Some security_context \<Rightarrow>
                    (case sc_capabilities security_context of
                       None \<Rightarrow> Raise AttributeError c1
                     | Some capabilities \<Rightarrow>
                         (case cap_add capabilities of
                            None \<Rightarrow> Raise TypeError c1
                          | Some added \<Rightarrow>
                              if ''NET_ADMIN'' \<notin> set added then Return False c1
                              else have_net_admin sts rest c1))))"

definition statefulset_is_patched :: "NetworkAnnotation list \<Rightarrow> string list \<Rightarrow> cluster \<Rightarrow> (k8s_error, bool, cluster) outcome" where
  "statefulset_is_patched network_annotations containers_requiring_net_admin c =
     (let (sts, c1) = client_get_statefulset c
      in case sts_annotations sts multus_annotation_key of
           None \<Rightarrow> Return False c1
         | Some text \<Rightarrow>
             (case json_loads text of
                Inl err \<Rightarrow> Raise err c1
              | Inr loaded \<Rightarrow>
                  if loaded \<noteq> Some network_annotations then Return False c1
                  else have_net_admin sts containers_requiring_net_admin c1))"

subsection \<open>KubernetesMultusCharmLib\<close>

record MultusLib =
  network_attachment_definitions :: "NetworkAttachmentDefinition list"
  network_annotations :: "NetworkAnnotation list"
  containers_requiring_net_admin_capability :: "string list"

text \<open>The \<^verbatim>\<open>for\<close> loop of \<^verbatim>\<open>_patch\<close>.\<close>

fun create_missing :: "NetworkAttachmentDefinition list \<Rightarrow> cluster \<Rightarrow> (k8s_error, unit, cluster) outcome" where
  "create_missing [] c = Return () c"
| "create_missing (network_attachment_definition # rest) c =
     (case network_attachment_definition_is_created (nad_name network_attachment_definition) c of
        Raise err c1 \<Rightarrow> Raise err c1
      | Return created c1 \<Rightarrow>
          if \<not> created
          then create_missing rest (create_network_attachment_definition network_attachment_definition c1)
          else create_missing rest c1)"

text \<open>\<^verbatim>\<open>KubernetesMultusCharmLib._patch\<close>.\<close>

definition patch :: "MultusLib \<Rightarrow> cluster \<Rightarrow> (k8s_error, unit, cluster) outcome" where
  "patch self c =
     (case create_missing (network_attachment_definitions self) c of
        Raise err c1 \<Rightarrow> Raise err c1
      | Return u c1 \<Rightarrow>
          (case statefulset_is_patched (network_annotations self)
                  (containers_requiring_net_admin_capability self) c1 of
             Raise err c2 \<Rightarrow> Raise err c2
           | Return patched c2 \<Rightarrow>
               if \<not> patched
               then patch_statefulset (network_annotations self)
                      (containers_requiring_net_admin_capability self) c2
               else Return () c2))"

text \<open>The \<^verbatim>\<open>for\<close> loop of \<^verbatim>\<open>KubernetesMultusCharmLib._on_remove\<close>.\<close>

fun delete_existing :: "NetworkAttachmentDefinition list \<Rightarrow> cluster \<Rightarrow> (k8s_error, unit, cluster) outcome" where
  "delete_existing [] c = Return () c"
| "delete_existing (network_attachment_definition # rest) c =
     (case network_attachment_definition_is_created (nad_name network_attachment_definition) c of
        Raise err c1 \<Rightarrow> Raise err c1
      | Return created c1 \<Rightarrow>
          if created
          then delete_existing rest
                 (delete_network_attachment_definition (nad_name network_attachment_definition) c1)
          else delete_existing rest c1)"

definition on_remove :: "MultusLib \<Rightarrow> cluster \<Rightarrow> (k8s_error, unit, cluster) outcome" where
  "on_remove self c = delete_existing (network_attachment_definitions self) c"

section \<open>Notions used in the statements\<close>

text \<open>
  The calls a run adds to the log, the projections of a run that the statements speak
  about, and the shapes the parts of a reconciliation pass can take.
\<close>

definition trace_of :: "cstate \<Rightarrow> cstate \<Rightarrow> call list" where
  "trace_of s s' = drop (length (calls s)) (calls s')"

fun is_decision :: "call \<Rightarrow> bool" where
  "is_decision DeletePod = True"
| "is_decision (Restart service_name) = True"
| "is_decision c = False"

definition default_route_cmd :: "charm \<Rightarrow> cmd" where
  "default_route_cmd self =
     IpRouteReplace ''default'' (str_opt (get_network_gateway_ip_config self CORE_INTERFACE_NAME)) (Some ''110'')"

definition ran_route_cmd :: "charm \<Rightarrow> cmd" where
  "ran_route_cmd self =
     IpRouteReplace (gnb_subnet (charm_config self))
       (str_opt (get_network_gateway_ip_config self ACCESS_INTERFACE_NAME)) None"

definition failed_attempt :: "call list" where
  "failed_attempt = [Exists marker_file_path, Exec BessctlRun False, Sleep 2]"

text \<open>
  The read that belongs to a write: the existence check of a file for its push, the plan
  for a layer add and for a restart, the failed firewall check for the insert, the marker
  check for the bootstrap command, the pull of the stored document for the pod deletion.
  The route replacements have none: no call of the gateway reads the routes. A trace is
  \<open>guarded\<close> when each of its calls that has such a read comes after it.
\<close>

fun required_read :: "call \<Rightarrow> call option" where
  "required_read (Push p) = Some (Exists p)"
| "required_read (AddLayer l) = Some GetPlan"
| "required_read (Restart service_name) = Some GetPlan"
| "required_read DeletePod = Some (Pull config_file_path)"
| "required_read (Exec IptablesInsert b) = Some (Exec IptablesCheck False)"
| "required_read (Exec BessctlRun b) = Some (Exists marker_file_path)"
| "required_read c = None"

fun guarded :: "call list \<Rightarrow> call list \<Rightarrow> bool" where
  "guarded seen [] = True"
| "guarded seen (c # cs) =
     ((case required_read c of None \<Rightarrow> True | Some r \<Rightarrow> r \<in> set seen) \<and> guarded (c # seen) cs)"

definition config_trace :: "charm \<Rightarrow> cstate \<Rightarrow> call list" where
  "config_trace self s =
     (if config_file s = None
      then [Exists config_file_path, Pull config_file_path, Push config_file_path]
      else if config_file s \<noteq> Some (desired_content self)
      then [Exists config_file_path, Pull config_file_path, Pull config_file_path, Push config_file_path]
      else [Exists config_file_path, Pull config_file_path])"

definition route_call :: "charm \<Rightarrow> call \<Rightarrow> bool" where
  "route_call self c = (\<exists>b. c = Exec (default_route_cmd self) b \<or> c = Exec (ran_route_cmd self) b
                          \<or> c = Exec IptablesCheck b \<or> c = Exec IptablesInsert b)"

definition layer_trace :: "charm \<Rightarrow> cstate \<Rightarrow> call list" where
  "layer_trace self s =
     (if plan_services s \<noteq> services (bessd_pebble_layer self) then [GetPlan, AddLayer ''bessd'']
      else [GetPlan])"

definition decision_calls :: "charm \<Rightarrow> cstate \<Rightarrow> call list" where
  "decision_calls self s =
     (if config_file s \<noteq> Some (desired_content self)
         \<and> dict_get_hwcksum (config_file s) \<noteq> PyBool (enable_hw_checksum (charm_config self))
      then [DeletePod]
      else if config_file s \<noteq> Some (desired_content self)
              \<or> plan_services s \<noteq> services (bessd_pebble_layer self)
      then [Restart routectl_service_name, Restart bessd_service_name]
      else [])"

definition bootstrap_trace :: "cstate \<Rightarrow> call list \<Rightarrow> bool" where
  "bootstrap_trace s E =
     (\<exists>k ending. E = concat (replicate k failed_attempt) @ ending
        \<and> (0 < k \<longrightarrow> marker_file s = None)
        \<and> (ending = []
           \<or> ending = [Exists marker_file_path] \<and> k = 0 \<and> marker_file s \<noteq> None
           \<or> ending = [Exists marker_file_path, Exec BessctlRun True, Push marker_file_path]
              \<and> marker_file s = None))"

definition after_config :: "charm \<Rightarrow> cstate \<Rightarrow> cstate" where
  "after_config self s =
     s\<lparr>config_file := Some (desired_content self), calls := calls s @ config_trace self s\<rparr>"

fun is_write :: "call \<Rightarrow> bool" where
  "is_write (Push p) = True"
| "is_write (Exec c ok) = (c \<noteq> IptablesCheck)"
| "is_write (AddLayer l) = True"
| "is_write (Restart service_name) = True"
| "is_write DeletePod = True"
| "is_write c = False"

definition cfg_normal :: CharmConfig where
  "cfg_normal =
     \<lparr>upf_mode = af_packet, dnn = ''internet'', gnb_subnet = ''192.168.251.0/24'',
      enable_hw_checksum = False, access_ip = ''192.168.252.3/24'',
      access_gateway_ip = ''192.168.252.1'', core_ip = ''192.168.250.3/24'',
      core_gateway_ip = ''192.168.250.1''\<rparr>"

definition charm_upf :: charm where
  "charm_upf = \<lparr>app_name = ''upf'', model_name = ''core'', charm_config = cfg_normal\<rparr>"

definition fresh_container :: cstate where
  "fresh_container =
     \<lparr>storage_dir = True, config_file = None, marker_file = None, routes = Map.empty,
      iptables_output = [], plan_services = Map.empty, plan_checks = Map.empty,
      execs = 0, clock = 0, calls = [], pod_deleted = False\<rparr>"

text \<open>
  A container in which nothing differs from the desired state of \<open>charm_upf\<close>: the
  document, both routes, the firewall rule, the plan and the marker are there.
\<close>

definition converged_container :: cstate where
  "converged_container =
     fresh_container
       \<lparr>config_file := Some (desired_content charm_upf),
        marker_file := Some ''Service `bessd` configured'',
        routes := [(''default'', Some ''110'') \<mapsto> ''192.168.250.1'',
                   (''192.168.251.0/24'', None) \<mapsto> ''192.168.252.1''],
        iptables_output := [icmp_rule],
        plan_services := services (bessd_pebble_layer charm_upf),
        plan_checks := checks (bessd_pebble_layer charm_upf)\<rparr>"

definition env_ok :: env where
  "env_ok = \<lparr>exec_ok = (\<lambda>n c. True), exec_time = 1\<rparr>"

definition env_bessctl_down :: env where
  "env_bessctl_down = \<lparr>exec_ok = (\<lambda>n c. c \<noteq> BessctlRun), exec_time = 1\<rparr>"

text \<open>
  The checks of the aggregator in the priority order the specification gives, each with
  the verdict it yields when it fails.
\<close>

definition status_checks :: "charm \<Rightarrow> observations \<Rightarrow> unit_status \<Rightarrow> cstate \<Rightarrow> (bool \<times> unit_status) list" where
  "status_checks self obs status s =
     [(fst (is_cpu_compatible self obs status), snd (is_cpu_compatible self obs status)),
      (multus_is_ready obs, WaitingStatus ''Waiting for Multus to be ready''),
      (storage_dir s, WaitingStatus ''Waiting for storage to be attached''),
      (service_is_running_on_container (bessd_container obs) bessd_service_name,
         WaitingStatus ''Waiting for bessd service to run''),
      (service_is_running_on_container (bessd_container obs) routectl_service_name,
         WaitingStatus ''Waiting for routectl service to run''),
      (service_is_running_on_container (pfcp_agent_container obs) pfcp_agent_service_name,
         WaitingStatus ''Waiting for pfcp agent service to run'')]"

text \<open>Concrete observations: every gate passed and bessd down; the same on a CPU without the required extensions.\<close>

definition obs_bessd_down :: observations where
  "obs_bessd_down =
     \<lparr>config_load = Inr cfg_normal, is_leader = True,
      cpu_extensions = [''fpu'', ''avx2'', ''rdrand''], hugepages_available = False,
      multus_is_ready = True,
      bessd_container = \<lparr>can_connect = True,
          service_running = [''bessd'' \<mapsto> False, ''routectl'' \<mapsto> True]\<rparr>,
      pfcp_agent_container = \<lparr>can_connect = True, service_running = [''pfcp-agent'' \<mapsto> True]\<rparr>\<rparr>"

definition obs_old_cpu :: observations where
  "obs_old_cpu = obs_bessd_down\<lparr>cpu_extensions := [''fpu'']\<rparr>"

text \<open>A verdict paired with the state it leaves.\<close>

fun outcome_of :: "'e + 'a \<Rightarrow> 's \<Rightarrow> ('e, 'a, 's) outcome" where
  "outcome_of (Inr v) s = Return v s"
| "outcome_of (Inl err) s = Raise err s"

text \<open>A container as \<^verbatim>\<open>patch_statefulset\<close> leaves it when it is named.\<close>

definition with_net_admin :: "Container \<Rightarrow> Container" where
  "with_net_admin container =
     container\<lparr>c_securityContext :=
        map_option (\<lambda>security_context. security_context\<lparr>sc_capabilities := Some net_admin\<rparr>)
          (c_securityContext container)\<rparr>"

definition k8s_trace_of :: "cluster \<Rightarrow> cluster \<Rightarrow> k8s_call list" where
  "k8s_trace_of c c' = drop (length (k8s_calls c)) (k8s_calls c')"

fun k8s_is_write :: "k8s_call \<Rightarrow> bool" where
  "k8s_is_write (CreateNad name) = True"
| "k8s_is_write (DeleteNad name) = True"
| "k8s_is_write (PatchStatefulSet obj) = True"
| "k8s_is_write c = False"

definition named_index :: "Container list \<Rightarrow> string list \<Rightarrow> nat \<Rightarrow> bool" where
  "named_index cs names i = (\<exists>n \<in> set names. first_index cs n = Some i)"

text \<open>
  A concrete cluster: no attachment exists, the statefulset has no Multus annotation, and
  its bessd container already holds one added and one dropped capability.
\<close>

definition upf_statefulset :: StatefulSet where
  "upf_statefulset =
     \<lparr>sts_annotations = [''juju.is/version'' \<mapsto> OtherJson ''3.4''],
      sts_containers =
        [\<lparr>c_name = ''charm'', c_image = ''charm-base'', c_securityContext = None\<rparr>,
         \<lparr>c_name = ''bessd'', c_image = ''upf-bess'',
          c_securityContext =
            Some \<lparr>sc_capabilities = Some \<lparr>cap_add = Some [''SYS_TIME''], cap_drop = Some [''MKNOD'']\<rparr>,
                  sc_privileged = Some True, sc_runAsUser = Some 0\<rparr>\<rparr>,
         \<lparr>c_name = ''pfcp-agent'', c_image = ''upf-pfcpiface'', c_securityContext = None\<rparr>],
      sts_replicas = 1,
      sts_service_name = ''upf-endpoints''\<rparr>"

definition upf_cluster :: cluster where
  "upf_cluster =
     \<lparr>nads = Map.empty, nad_get_fault = (\<lambda>name. None), statefulset = upf_statefulset,
      k8s_calls = []\<rparr>"

definition upf_multus :: MultusLib where
  "upf_multus =
     \<lparr>network_attachment_definitions =
        [\<lparr>nad_name = ''access-net'', nad_spec_config = ''macvlan''\<rparr>,
         \<lparr>nad_name = ''core-net'', nad_spec_config = ''macvlan''\<rparr>],
      network_annotations =
        [\<lparr>na_name = ''access-net'', na_interface = ''access'', na_ips = None\<rparr>,
         \<lparr>na_name = ''core-net'', na_interface = ''core'', na_ips = None\<rparr>],
      containers_requiring_net_admin_capability = [''bessd'']\<rparr>"

text \<open>The same cluster during a partial teardown: one attachment exists, the other is gone.\<close>

definition mixed_cluster :: cluster where
  "mixed_cluster =
     upf_cluster\<lparr>nads := [''access-net'' \<mapsto> \<lparr>nad_name = ''access-net'', nad_spec_config = ''macvlan''\<rparr>]\<rparr>"

text \<open>The capabilities a container adds, read through its optional fields.\<close>

definition added_capabilities :: "Container \<Rightarrow> string list" where
  "added_capabilities container =
     (case c_securityContext container of
        None \<Rightarrow> []
      | Some security_context \<Rightarrow>
          (case sc_capabilities security_context of
             None \<Rightarrow> []
           | Some capabilities \<Rightarrow> (case cap_add capabilities of None \<Rightarrow> [] | Some added \<Rightarrow> added)))"

text \<open>
  The read that has to come before a write to the cluster, and the traces in which every
  such write has its read before it.
\<close>

fun k8s_required_read :: "k8s_call \<Rightarrow> k8s_call option" where
  "k8s_required_read (CreateNad name) = Some (GetNad name)"
| "k8s_required_read (DeleteNad name) = Some (GetNad name)"
| "k8s_required_read (PatchStatefulSet obj) = Some GetStatefulSet"
| "k8s_required_read c = None"

fun k8s_guarded :: "k8s_call list \<Rightarrow> k8s_call list \<Rightarrow> bool" where
  "k8s_guarded seen [] = True"
| "k8s_guarded seen (c # cs) =
     ((case k8s_required_read c of None \<Rightarrow> True | Some r \<Rightarrow> r \<in> set seen)
      \<and> k8s_guarded (c # seen) cs)"

section \<open>The gateway and the Bootstrap Runner, step by step\<close>

lemma trace_ofI: "calls s' = calls s @ tr \<Longrightarrow> trace_of s s' = tr"
  by (simp add: trace_of_def)

lemmas gateway_defs = log_call_def exec_command_in_bessd_workload_def write_bessd_config_file_def
  bessd_config_file_is_written_def pull_config_file_def bessd_config_file_content_matches_def
  hwcksum_config_matches_pod_config_def is_bessctl_executed_def
  create_bessctl_executed_validation_file_def create_default_route_def create_ran_route_def
  ip_tables_rule_exists_def create_ip_tables_rule_def delete_pod_def restart_service_def sleep_def
  add_layer_def get_plan_def

lemma loop_marker_present:
  "marker_file s \<noteq> None \<Longrightarrow> clock s - t0 \<le> 300 \<Longrightarrow>
   run_bess_configuration_loop e t0 s = Return () (log_call (Exists marker_file_path) s)"
  by (subst run_bess_configuration_loop.simps) (simp add: is_bessctl_executed_def)

lemma loop_first_attempt:
  "marker_file s = None \<Longrightarrow> clock s - t0 \<le> 300 \<Longrightarrow> exec_ok e (execs s) BessctlRun \<Longrightarrow>
   run_bess_configuration_loop e t0 s =
     Return () (s\<lparr>marker_file := Some ''Service `bessd` configured'', execs := Suc (execs s),
                  clock := clock s + exec_time e,
                  calls := calls s @ [Exists marker_file_path, Exec BessctlRun True, Push marker_file_path]\<rparr>)"
  by (subst run_bess_configuration_loop.simps) (simp add: gateway_defs Let_def)

lemma loop_timeout:
  "\<not> clock s - t0 \<le> 300 \<Longrightarrow> run_bess_configuration_loop e t0 s = Raise TimeoutError s"
  by (subst run_bess_configuration_loop.simps) simp

lemma loop_failed_attempt:
  "marker_file s = None \<Longrightarrow> clock s - t0 \<le> 300 \<Longrightarrow> \<not> exec_ok e (execs s) BessctlRun \<Longrightarrow>
   run_bess_configuration_loop e t0 s =
     run_bess_configuration_loop e t0
       (s\<lparr>execs := Suc (execs s), clock := clock s + exec_time e + 2,
          calls := calls s @ [Exists marker_file_path, Exec BessctlRun False, Sleep 2]\<rparr>)"
  by (subst run_bess_configuration_loop.simps) (simp add: gateway_defs Let_def)

lemma loop_all_fail:
  "\<forall>n. \<not> exec_ok e n BessctlRun \<Longrightarrow> marker_file s = None \<Longrightarrow> t0 \<le> clock s \<Longrightarrow>
     \<exists>s' tr. run_bess_configuration_loop e t0 s = Raise TimeoutError s'
       \<and> marker_file s' = None
       \<and> calls s' = calls s @ tr
       \<and> set tr \<subseteq> {Exists marker_file_path, Exec BessctlRun False, Sleep 2}
       \<and> 300 < clock s' - t0
       \<and> (clock s - t0 \<le> 300 \<longrightarrow> clock s' - t0 \<le> 300 + exec_time e + 2)"
proof (induction e t0 s rule: run_bess_configuration_loop.induct)
  case (1 e t0 s)
  show ?case
  proof (cases "clock s - t0 \<le> 300")
    case False
    then show ?thesis using 1(3) by (simp add: loop_timeout)
  next
    case True
    let ?s1 = "s\<lparr>execs := Suc (execs s), clock := clock s + exec_time e + 2,
          calls := calls s @ [Exists marker_file_path, Exec BessctlRun False, Sleep 2]\<rparr>"
    have step: "run_bess_configuration_loop e t0 s = run_bess_configuration_loop e t0 ?s1"
      by (rule loop_failed_attempt) (use 1(2,3) True in auto)
    have mk: "marker_file ?s1 = None" using 1(3) by simp
    have ck: "t0 \<le> clock ?s1" using 1(4) by simp
    have raised: "exec_command_in_bessd_workload e BessctlRun (snd (is_bessctl_executed s)) =
        Raise ExecError (s\<lparr>execs := Suc (execs s), clock := clock s + exec_time e,
          calls := calls s @ [Exists marker_file_path, Exec BessctlRun False]\<rparr>)"
      using 1(2) by (simp add: gateway_defs Let_def)
    have sl: "sleep 2 (s\<lparr>execs := Suc (execs s), clock := clock s + exec_time e,
          calls := calls s @ [Exists marker_file_path, Exec BessctlRun False]\<rparr>) = ?s1"
      by (simp add: sleep_def)
    have nex: "\<not> fst (is_bessctl_executed s)" using 1(3) by (simp add: is_bessctl_executed_def)
    from 1(1)[OF True nex raised refl, unfolded sl, OF 1(2) mk ck]
    obtain s' tr where r: "run_bess_configuration_loop e t0 ?s1 = Raise TimeoutError s'"
      and m: "marker_file s' = None" and c: "calls s' = calls ?s1 @ tr"
      and t: "set tr \<subseteq> {Exists marker_file_path, Exec BessctlRun False, Sleep 2}"
      and b: "300 < clock s' - t0"
      and u: "clock ?s1 - t0 \<le> 300 \<longrightarrow> clock s' - t0 \<le> 300 + exec_time e + 2"
      by blast
    have u': "clock s' - t0 \<le> 300 + exec_time e + 2"
    proof (cases "clock ?s1 - t0 \<le> 300")
      case True then show ?thesis using u by simp
    next
      case False
      then have "run_bess_configuration_loop e t0 ?s1 = Raise TimeoutError ?s1" by (rule loop_timeout)
      then have "s' = ?s1" using r by simp
      then show ?thesis using True 1(4) by simp
    qed
    show ?thesis
      apply (rule exI[of _ s'])
      apply (rule exI[of _ "[Exists marker_file_path, Exec BessctlRun False, Sleep 2] @ tr"])
      using step r m c t b u' by simp
  qed
qed

lemma loop_shape:
  "\<exists>k ending. calls (final (run_bess_configuration_loop e t0 s))
        = calls s @ concat (replicate k failed_attempt) @ ending
     \<and> (0 < k \<longrightarrow> marker_file s = None)
     \<and> (ending = [] \<and> \<not> returns (run_bess_configuration_loop e t0 s)
          \<and> marker_file (final (run_bess_configuration_loop e t0 s)) = marker_file s
        \<or> ending = [Exists marker_file_path] \<and> k = 0 \<and> returns (run_bess_configuration_loop e t0 s)
          \<and> marker_file s \<noteq> None
          \<and> marker_file (final (run_bess_configuration_loop e t0 s)) = marker_file s
        \<or> ending = [Exists marker_file_path, Exec BessctlRun True, Push marker_file_path]
          \<and> returns (run_bess_configuration_loop e t0 s) \<and> marker_file s = None
          \<and> marker_file (final (run_bess_configuration_loop e t0 s)) \<noteq> None)"
proof (induction e t0 s rule: run_bess_configuration_loop.induct)
  case (1 e t0 s)
  show ?case
  proof (cases "clock s - t0 \<le> 300")
    case False
    then have "run_bess_configuration_loop e t0 s = Raise TimeoutError s" by (rule loop_timeout)
    then show ?thesis
      by (intro exI[of _ 0] exI[of _ "[]"]) simp
  next
    case budget: True
    show ?thesis
    proof (cases "marker_file s = None")
      case False
      then have "run_bess_configuration_loop e t0 s = Return () (log_call (Exists marker_file_path) s)"
        using budget by (simp add: loop_marker_present)
      then show ?thesis using False
        by (intro exI[of _ 0] exI[of _ "[Exists marker_file_path]"]) (simp add: log_call_def)
    next
      case absent: True
      show ?thesis
      proof (cases "exec_ok e (execs s) BessctlRun")
        case True
        show ?thesis
          by (intro exI[of _ 0] exI[of _ "[Exists marker_file_path, Exec BessctlRun True, Push marker_file_path]"])
             (simp add: loop_first_attempt[OF absent budget True] absent)
      next
        case False
        let ?s1 = "s\<lparr>execs := Suc (execs s), clock := clock s + exec_time e + 2,
              calls := calls s @ [Exists marker_file_path, Exec BessctlRun False, Sleep 2]\<rparr>"
        have step: "run_bess_configuration_loop e t0 s = run_bess_configuration_loop e t0 ?s1"
          by (rule loop_failed_attempt) (use absent budget False in auto)
        have raised: "exec_command_in_bessd_workload e BessctlRun (snd (is_bessctl_executed s)) =
            Raise ExecError (s\<lparr>execs := Suc (execs s), clock := clock s + exec_time e,
              calls := calls s @ [Exists marker_file_path, Exec BessctlRun False]\<rparr>)"
          using False by (simp add: gateway_defs Let_def)
        have sl: "sleep 2 (s\<lparr>execs := Suc (execs s), clock := clock s + exec_time e,
              calls := calls s @ [Exists marker_file_path, Exec BessctlRun False]\<rparr>) = ?s1"
          by (simp add: sleep_def)
        have nex: "\<not> fst (is_bessctl_executed s)" using absent by (simp add: is_bessctl_executed_def)
        from 1[OF budget nex raised refl, unfolded sl]
        obtain k ending where ih: "calls (final (run_bess_configuration_loop e t0 ?s1))
              = calls ?s1 @ concat (replicate k failed_attempt) @ ending
           \<and> (0 < k \<longrightarrow> marker_file ?s1 = None)
           \<and> (ending = [] \<and> \<not> returns (run_bess_configuration_loop e t0 ?s1)
                \<and> marker_file (final (run_bess_configuration_loop e t0 ?s1)) = marker_file ?s1
              \<or> ending = [Exists marker_file_path] \<and> k = 0 \<and> returns (run_bess_configuration_loop e t0 ?s1)
                \<and> marker_file ?s1 \<noteq> None
                \<and> marker_file (final (run_bess_configuration_loop e t0 ?s1)) = marker_file ?s1
              \<or> ending = [Exists marker_file_path, Exec BessctlRun True, Push marker_file_path]
                \<and> returns (run_bess_configuration_loop e t0 ?s1) \<and> marker_file ?s1 = None
                \<and> marker_file (final (run_bess_configuration_loop e t0 ?s1)) \<noteq> None)"
          by blast
        show ?thesis
          apply (rule exI[of _ "Suc k"])
          apply (rule exI[of _ ending])
          using ih absent by (auto simp: step failed_attempt_def)
      qed
    qed
  qed
qed

lemma loop_frame:
  "config_file (final (run_bess_configuration_loop e t0 s)) = config_file s
   \<and> routes (final (run_bess_configuration_loop e t0 s)) = routes s
   \<and> iptables_output (final (run_bess_configuration_loop e t0 s)) = iptables_output s
   \<and> plan_services (final (run_bess_configuration_loop e t0 s)) = plan_services s
   \<and> plan_checks (final (run_bess_configuration_loop e t0 s)) = plan_checks s
   \<and> storage_dir (final (run_bess_configuration_loop e t0 s)) = storage_dir s"
proof (induction e t0 s rule: run_bess_configuration_loop.induct)
  case (1 e t0 s)
  show ?case
    apply (subst (1 2 3 4 5 6) run_bess_configuration_loop.simps)
    using 1
    by (auto simp: gateway_defs Let_def split: outcome.splits if_splits)
qed

lemma ucf_absent:
  "config_file s = None \<Longrightarrow>
   update_config_file self s =
     Return (True, True)
       (s\<lparr>config_file := Some (desired_content self),
          calls := calls s @ [Exists config_file_path, Pull config_file_path, Push config_file_path]\<rparr>)"
  by (simp add: update_config_file_def gateway_defs dict_get_hwcksum_def)

lemma ucf_differs:
  "config_file s = Some d \<Longrightarrow> d \<noteq> desired_content self \<Longrightarrow>
   update_config_file self s =
     Return (True, doc_hwcksum d \<noteq> enable_hw_checksum (charm_config self))
       (s\<lparr>config_file := Some (desired_content self),
          calls := calls s @ [Exists config_file_path, Pull config_file_path, Pull config_file_path,
                              Push config_file_path]\<rparr>)"
  by (simp add: update_config_file_def gateway_defs dict_get_hwcksum_def)

lemma ucf_same:
  "config_file s = Some (desired_content self) \<Longrightarrow>
   update_config_file self s =
     Return (False, False) (s\<lparr>calls := calls s @ [Exists config_file_path, Pull config_file_path]\<rparr>)"
  by (simp add: update_config_file_def gateway_defs dict_get_hwcksum_def)

lemma routes_ok:
  "\<forall>n c. c \<noteq> BessctlRun \<longrightarrow> exec_ok e n c \<Longrightarrow>
   ensure_routes_and_rule e self s =
     Return ()
       (if icmp_rule \<in> set (iptables_output s)
        then s\<lparr>routes := (routes s)((''default'', Some ''110'') \<mapsto> str_opt (get_network_gateway_ip_config self CORE_INTERFACE_NAME),
                                    (gnb_subnet (charm_config self), None) \<mapsto> str_opt (get_network_gateway_ip_config self ACCESS_INTERFACE_NAME)),
               execs := execs s + 3, clock := clock s + 3 * exec_time e,
               calls := calls s @ [Exec (default_route_cmd self) True, Exec (ran_route_cmd self) True,
                                   Exec IptablesCheck True]\<rparr>
        else s\<lparr>routes := (routes s)((''default'', Some ''110'') \<mapsto> str_opt (get_network_gateway_ip_config self CORE_INTERFACE_NAME),
                                    (gnb_subnet (charm_config self), None) \<mapsto> str_opt (get_network_gateway_ip_config self ACCESS_INTERFACE_NAME)),
               iptables_output := icmp_rule # iptables_output s,
               execs := execs s + 4, clock := clock s + 4 * exec_time e,
               calls := calls s @ [Exec (default_route_cmd self) True, Exec (ran_route_cmd self) True,
                                   Exec IptablesCheck False, Exec IptablesInsert True]\<rparr>)"
  by (simp add: ensure_routes_and_rule_def gateway_defs default_route_cmd_def ran_route_cmd_def Let_def)

lemma layer_nonempty: "services (bessd_pebble_layer self) \<noteq> Map.empty"
  by (simp add: bessd_pebble_layer_def)

lemma upl_differs:
  "plan_services s \<noteq> services (bessd_pebble_layer self) \<Longrightarrow>
   update_pebble_layer self restart s =
     (True, s\<lparr>plan_services := plan_services s ++ services (bessd_pebble_layer self),
              plan_checks := plan_checks s ++ checks (bessd_pebble_layer self),
              calls := calls s @ [GetPlan, AddLayer ''bessd'']\<rparr>)"
  by (simp add: update_pebble_layer_def gateway_defs Let_def)

lemma upl_same:
  "plan_services s = services (bessd_pebble_layer self) \<Longrightarrow>
   update_pebble_layer self restart s = (restart, s\<lparr>calls := calls s @ [GetPlan]\<rparr>)"
  by (simp add: update_pebble_layer_def gateway_defs Let_def)

lemma guarded_mono: "guarded seen tr \<Longrightarrow> set seen \<subseteq> set seen' \<Longrightarrow> guarded seen' tr"
proof (induction tr arbitrary: seen seen')
  case Nil then show ?case by simp
next
  case (Cons c cs)
  have "set (c # seen) \<subseteq> set (c # seen')" using Cons.prems(2) by auto
  with Cons show ?case by (auto split: option.splits)
qed

lemma guarded_append:
  "guarded seen (xs @ ys) = (guarded seen xs \<and> guarded (rev xs @ seen) ys)"
  by (induction xs arbitrary: seen) auto

lemma ucf_general:
  "update_config_file self s =
     Return (config_file s \<noteq> Some (desired_content self),
             config_file s \<noteq> Some (desired_content self)
               \<and> dict_get_hwcksum (config_file s) \<noteq> PyBool (enable_hw_checksum (charm_config self)))
       (s\<lparr>config_file := Some (desired_content self), calls := calls s @ config_trace self s\<rparr>)"
proof (cases "config_file s")
  case None
  then show ?thesis by (simp add: ucf_absent config_trace_def dict_get_hwcksum_def)
next
  case (Some d)
  show ?thesis
  proof (cases "d = desired_content self")
    case True
    have "s\<lparr>config_file := Some (desired_content self), calls := calls s @ config_trace self s\<rparr>
          = s\<lparr>calls := calls s @ [Exists config_file_path, Pull config_file_path]\<rparr>"
      using Some True by (cases s) (simp add: config_trace_def)
    then show ?thesis using Some True by (simp add: ucf_same)
  next
    case False
    then show ?thesis using Some by (simp add: ucf_differs config_trace_def dict_get_hwcksum_def)
  qed
qed

lemma ensure_general:
  "\<exists>B. calls (final (ensure_routes_and_rule e self s)) = calls s @ B
     \<and> (\<exists>ok. Exec (default_route_cmd self) ok \<in> set B)
     \<and> (\<forall>c \<in> set B. route_call self c)
     \<and> guarded seen B
     \<and> config_file (final (ensure_routes_and_rule e self s)) = config_file s
     \<and> marker_file (final (ensure_routes_and_rule e self s)) = marker_file s
     \<and> plan_services (final (ensure_routes_and_rule e self s)) = plan_services s
     \<and> plan_checks (final (ensure_routes_and_rule e self s)) = plan_checks s"
  by (auto simp: ensure_routes_and_rule_def gateway_defs default_route_cmd_def ran_route_cmd_def
        route_call_def Let_def)

lemma bootstrap_trace_Nil: "bootstrap_trace s []"
  unfolding bootstrap_trace_def by (intro exI[of _ 0] exI[of _ "[]"]) simp

lemma run_bootstrap_trace:
  "\<exists>E. calls (final (run_bess_configuration e s)) = calls s @ E \<and> bootstrap_trace s E"
proof -
  from loop_shape[of e "clock s" s] obtain k ending where
    c: "calls (final (run_bess_configuration_loop e (clock s) s))
        = calls s @ concat (replicate k failed_attempt) @ ending"
    and k: "0 < k \<longrightarrow> marker_file s = None"
    and d: "ending = [] \<or> ending = [Exists marker_file_path] \<and> k = 0 \<and> marker_file s \<noteq> None
        \<or> ending = [Exists marker_file_path, Exec BessctlRun True, Push marker_file_path]
           \<and> marker_file s = None"
    by blast
  show ?thesis
    by (rule exI[of _ "concat (replicate k failed_attempt) @ ending"])
       (use c k d in \<open>auto simp: run_bess_configuration_def bootstrap_trace_def\<close>)
qed

lemma configure_trace:
  "\<exists>B E. (\<forall>c \<in> set B. route_call self c) \<and> (\<forall>seen. guarded seen B) \<and> bootstrap_trace s E
     \<and> calls (final (ensure_routes_and_rule e self (after_config self s)))
           = calls s @ config_trace self s @ B
     \<and> calls (final (configure_bessd_workload e self s)) =
         calls s @ config_trace self s @ B
           @ (if returns (ensure_routes_and_rule e self (after_config self s))
              then layer_trace self s @ decision_calls self s @ E else [])"
proof -
  let ?s1 = "after_config self s"
  have u: "update_config_file self s =
     Return (config_file s \<noteq> Some (desired_content self),
             config_file s \<noteq> Some (desired_content self)
               \<and> dict_get_hwcksum (config_file s) \<noteq> PyBool (enable_hw_checksum (charm_config self))) ?s1"
    unfolding after_config_def by (rule ucf_general)
  have g: "\<forall>seen. \<exists>B. calls (final (ensure_routes_and_rule e self ?s1)) = calls ?s1 @ B
     \<and> (\<forall>c \<in> set B. route_call self c) \<and> guarded seen B"
    using ensure_general[of e self ?s1] by blast
  obtain B where B: "calls (final (ensure_routes_and_rule e self ?s1)) = calls ?s1 @ B"
    and Br: "\<forall>c \<in> set B. route_call self c"
    using g by blast
  have Bg: "\<forall>seen. guarded seen B"
  proof
    fix seen
    from g obtain B' where "calls (final (ensure_routes_and_rule e self ?s1)) = calls ?s1 @ B'"
      and "guarded seen B'" by blast
    then show "guarded seen B" using B by simp
  qed
  have fr: "marker_file (final (ensure_routes_and_rule e self ?s1)) = marker_file s"
    "plan_services (final (ensure_routes_and_rule e self ?s1)) = plan_services s"
    using ensure_general[of e self ?s1 "[]"] by (auto simp: after_config_def)
  show ?thesis
  proof (cases "ensure_routes_and_rule e self ?s1")
    case (Raise err s2)
    then have cfg: "configure_bessd_workload e self s = Raise err s2"
      by (simp add: configure_bessd_workload_def u)
    show ?thesis
      by (rule exI[of _ B], rule exI[of _ "[]"])
         (use Br Bg B Raise cfg in \<open>simp add: after_config_def bootstrap_trace_Nil\<close>)
  next
    case (Return u2 s2)
    have m2: "marker_file s2 = marker_file s" and p2: "plan_services s2 = plan_services s"
      and c2: "calls s2 = calls s @ config_trace self s @ B"
      using fr B Return by (simp_all add: after_config_def)
    define restart where "restart = (config_file s \<noteq> Some (desired_content self))"
    define recreate where "recreate = (restart
               \<and> dict_get_hwcksum (config_file s) \<noteq> PyBool (enable_hw_checksum (charm_config self)))"
    obtain restart' s3 where l: "update_pebble_layer self restart s2 = (restart', s3)"
      by (cases "update_pebble_layer self restart s2")
    have l3: "calls s3 = calls s2 @ layer_trace self s \<and> marker_file s3 = marker_file s
        \<and> restart' = (restart \<or> plan_services s \<noteq> services (bessd_pebble_layer self))"
      using l m2 p2
      by (cases "plan_services s = services (bessd_pebble_layer self)")
         (auto simp: upl_same upl_differs layer_trace_def)
    define s4 where "s4 = restart_or_recreate restart' recreate s3"
    have l4: "calls s4 = calls s3 @ decision_calls self s \<and> marker_file s4 = marker_file s"
      using l3 by (auto simp: s4_def restart_or_recreate_def decision_calls_def restart_def
          recreate_def gateway_defs)
    have cfg: "configure_bessd_workload e self s = run_bess_configuration e s4"
      by (simp add: configure_bessd_workload_def u Return l s4_def
            restart_def[symmetric] recreate_def)
    from run_bootstrap_trace[of e s4] obtain E where
      E: "calls (final (run_bess_configuration e s4)) = calls s4 @ E" and bt: "bootstrap_trace s4 E"
      by blast
    have bt': "bootstrap_trace s E" using bt l4 by (simp add: bootstrap_trace_def)
    show ?thesis
      by (rule exI[of _ B], rule exI[of _ E])
         (use Br Bg bt' E l4 l3 c2 Return in \<open>simp add: cfg\<close>)
  qed
qed

lemma paths_differ: "config_file_path \<noteq> marker_file_path"
  by (simp add: config_file_path_def marker_file_path_def BESSD_CONTAINER_CONFIG_PATH_def
        CONFIG_FILE_NAME_def BESSCTL_CONFIGURE_EXECUTED_FILE_NAME_def)

lemma route_call_not_decision: "route_call self c \<Longrightarrow> \<not> is_decision c"
  by (auto simp: route_call_def)

lemma filter_decision_routes: "\<forall>c \<in> set B. route_call self c \<Longrightarrow> filter is_decision B = []"
  by (induction B) (auto dest: route_call_not_decision)

lemma filter_decision_config: "filter is_decision (config_trace self s) = []"
  by (simp add: config_trace_def)

lemma filter_decision_layer: "filter is_decision (layer_trace self s) = []"
  by (simp add: layer_trace_def)

lemma filter_decision_decisions: "filter is_decision (decision_calls self s) = decision_calls self s"
  by (simp add: decision_calls_def)

lemma filter_decision_attempts: "filter is_decision (concat (replicate k failed_attempt)) = []"
  by (induction k) (simp_all add: failed_attempt_def)

lemma filter_decision_bootstrap: "bootstrap_trace s E \<Longrightarrow> filter is_decision E = []"
  by (auto simp: bootstrap_trace_def filter_decision_attempts)

lemma configure_decisions:
  "filter is_decision (trace_of s (final (configure_bessd_workload e self s))) =
     (if returns (ensure_routes_and_rule e self (after_config self s))
      then decision_calls self s else [])"
proof -
  from configure_trace[of self s e] obtain B E where
    B: "\<forall>c \<in> set B. route_call self c" and E: "bootstrap_trace s E"
    and c: "calls (final (configure_bessd_workload e self s)) =
         calls s @ config_trace self s @ B
           @ (if returns (ensure_routes_and_rule e self (after_config self s))
              then layer_trace self s @ decision_calls self s @ E else [])"
    by blast
  have t: "trace_of s (final (configure_bessd_workload e self s)) =
      config_trace self s @ B
           @ (if returns (ensure_routes_and_rule e self (after_config self s))
              then layer_trace self s @ decision_calls self s @ E else [])"
    using c by (rule trace_ofI)
  show ?thesis
    by (simp add: t filter_decision_routes[OF B] filter_decision_config filter_decision_layer
          filter_decision_decisions filter_decision_bootstrap[OF E])
qed

lemma routes_ok_returns:
  "\<forall>n c. c \<noteq> BessctlRun \<longrightarrow> exec_ok e n c \<Longrightarrow> returns (ensure_routes_and_rule e self s)"
  by (simp add: routes_ok)

lemma decisions_subset: "set (filter is_decision tr) = {c \<in> set tr. is_decision c}"
  by auto

section \<open>Restart or replacement\<close>

text \<open>
  Claim C3. The stored document was rendered from the old desired configuration, and the
  new desired configuration differs from the old one in the checksum flag only. Then the
  first block sets both flags, \<open>recreate_pod\<close> among them; no pass restarts a service;
  and a pass whose route and firewall commands succeed deletes the pod, exactly once, as
  its only decision.
\<close>

theorem checksum_change_replaces_instance:
  assumes stored: "config_file s = Some (desired_content old)"
    and new: "new = old\<lparr>charm_config := (charm_config old)
                 \<lparr>enable_hw_checksum := \<not> enable_hw_checksum (charm_config old)\<rparr>\<rparr>"
  shows "(\<exists>s1. update_config_file new s = Return (True, True) s1)
       \<and> (\<forall>service_name. Restart service_name
             \<notin> set (trace_of s (final (configure_bessd_workload e new s))))
       \<and> ((\<forall>n c. c \<noteq> BessctlRun \<longrightarrow> exec_ok e n c) \<longrightarrow>
            filter is_decision (trace_of s (final (configure_bessd_workload e new s))) = [DeletePod])"
proof -
  have differs: "config_file s \<noteq> Some (desired_content new)"
    using stored new
    by (simp add: desired_content_def render_bessd_config_file_def Let_def)
  have mismatch: "dict_get_hwcksum (config_file s) \<noteq> PyBool (enable_hw_checksum (charm_config new))"
    using stored new
    by (simp add: dict_get_hwcksum_def desired_content_def render_bessd_config_file_def Let_def)
  have d: "decision_calls new s = [DeletePod]"
    using differs mismatch by (simp add: decision_calls_def)
  have flags: "\<exists>s1. update_config_file new s = Return (True, True) s1"
    using differs mismatch by (simp add: ucf_general)
  have dec: "filter is_decision (trace_of s (final (configure_bessd_workload e new s)))
      = (if returns (ensure_routes_and_rule e new (after_config new s)) then [DeletePod] else [])"
    by (simp add: configure_decisions d)
  have norestart: "\<forall>service_name. Restart service_name
             \<notin> set (trace_of s (final (configure_bessd_workload e new s)))"
  proof (intro allI notI)
    fix service_name
    assume "Restart service_name \<in> set (trace_of s (final (configure_bessd_workload e new s)))"
    then have "Restart service_name
        \<in> set (filter is_decision (trace_of s (final (configure_bessd_workload e new s))))"
      by simp
    then show False by (simp add: dec split: if_splits)
  qed
  show ?thesis using flags norestart dec by (simp add: routes_ok_returns)
qed

theorem checksum_change_replaces_instance_witness:
  "config_file (fresh_container\<lparr>config_file := Some (desired_content charm_upf)\<rparr>)
      = Some (desired_content charm_upf)
   \<and> \<not> (\<exists>n c. c \<noteq> BessctlRun \<and> \<not> exec_ok env_ok n c)
   \<and> filter is_decision
        (trace_of (fresh_container\<lparr>config_file := Some (desired_content charm_upf)\<rparr>)
           (final (configure_bessd_workload env_ok
              (charm_upf\<lparr>charm_config := (charm_config charm_upf)
                 \<lparr>enable_hw_checksum := \<not> enable_hw_checksum (charm_config charm_upf)\<rparr>\<rparr>)
              (fresh_container\<lparr>config_file := Some (desired_content charm_upf)\<rparr>))))
       = [DeletePod]"
  using checksum_change_replaces_instance
          [of "fresh_container\<lparr>config_file := Some (desired_content charm_upf)\<rparr>" charm_upf
              "charm_upf\<lparr>charm_config := (charm_config charm_upf)
                 \<lparr>enable_hw_checksum := \<not> enable_hw_checksum (charm_config charm_upf)\<rparr>\<rparr>" env_ok]
  by (simp add: env_ok_def)

text \<open>
  Claim C4. The stored document was rendered from the old desired configuration, and the
  new desired configuration differs from the old one in the DNN only. Then the first
  block sets \<open>restart\<close> and leaves \<open>recreate_pod\<close> unset; no pass deletes the pod;
  and a pass whose route and firewall commands succeed restarts the route-control service
  first and the bessd service second, and decides nothing else.
\<close>

theorem dnn_change_restarts_services:
  assumes stored: "config_file s = Some (desired_content old)"
    and new: "new = old\<lparr>charm_config := (charm_config old)\<lparr>dnn := new_dnn\<rparr>\<rparr>"
    and changed: "new_dnn \<noteq> dnn (charm_config old)"
  shows "(\<exists>s1. update_config_file new s = Return (True, False) s1)
       \<and> DeletePod \<notin> set (trace_of s (final (configure_bessd_workload e new s)))
       \<and> ((\<forall>n c. c \<noteq> BessctlRun \<longrightarrow> exec_ok e n c) \<longrightarrow>
            filter is_decision (trace_of s (final (configure_bessd_workload e new s)))
              = [Restart routectl_service_name, Restart bessd_service_name])"
proof -
  have differs: "config_file s \<noteq> Some (desired_content new)"
    using stored new changed
    by (simp add: desired_content_def render_bessd_config_file_def Let_def)
  have same: "dict_get_hwcksum (config_file s) = PyBool (enable_hw_checksum (charm_config new))"
    using stored new
    by (simp add: dict_get_hwcksum_def desired_content_def render_bessd_config_file_def Let_def)
  have d: "decision_calls new s = [Restart routectl_service_name, Restart bessd_service_name]"
    using differs same by (simp add: decision_calls_def)
  have flags: "\<exists>s1. update_config_file new s = Return (True, False) s1"
    using differs same by (simp add: ucf_general)
  have dec: "filter is_decision (trace_of s (final (configure_bessd_workload e new s)))
      = (if returns (ensure_routes_and_rule e new (after_config new s))
         then [Restart routectl_service_name, Restart bessd_service_name] else [])"
    by (simp add: configure_decisions d)
  have nodelete: "DeletePod \<notin> set (trace_of s (final (configure_bessd_workload e new s)))"
  proof
    assume "DeletePod \<in> set (trace_of s (final (configure_bessd_workload e new s)))"
    then have "DeletePod
        \<in> set (filter is_decision (trace_of s (final (configure_bessd_workload e new s))))"
      by simp
    then show False by (simp add: dec split: if_splits)
  qed
  show ?thesis using flags nodelete dec by (simp add: routes_ok_returns)
qed

theorem dnn_change_restarts_services_witness:
  "config_file (fresh_container\<lparr>config_file := Some (desired_content charm_upf)\<rparr>)
      = Some (desired_content charm_upf)
   \<and> ''edge'' \<noteq> dnn (charm_config charm_upf)
   \<and> \<not> (\<exists>n c. c \<noteq> BessctlRun \<and> \<not> exec_ok env_ok n c)
   \<and> filter is_decision
        (trace_of (fresh_container\<lparr>config_file := Some (desired_content charm_upf)\<rparr>)
           (final (configure_bessd_workload env_ok
              (charm_upf\<lparr>charm_config := (charm_config charm_upf)\<lparr>dnn := ''edge''\<rparr>\<rparr>)
              (fresh_container\<lparr>config_file := Some (desired_content charm_upf)\<rparr>))))
       = [Restart routectl_service_name, Restart bessd_service_name]"
  using dnn_change_restarts_services
          [of "fresh_container\<lparr>config_file := Some (desired_content charm_upf)\<rparr>" charm_upf
              "charm_upf\<lparr>charm_config := (charm_config charm_upf)\<lparr>dnn := ''edge''\<rparr>\<rparr>" "''edge''" env_ok]
  by (simp add: env_ok_def charm_upf_def cfg_normal_def)

text \<open>
  Claim C10. \<^verbatim>\<open>_hwcksum_config_matches_pod_config\<close> returns True exactly when the
  document in the container has no \<^verbatim>\<open>hwcksum\<close> value to show, because there is no
  document, or shows one that differs from the desired flag, whatever the flag: it
  returns False only when a document is stored and its \<^verbatim>\<open>hwcksum\<close> field equals the
  desired flag. With no stored document (the pull raises \<^verbatim>\<open>PathError\<close>) it returns
  True; the pass then restarts no service, and deletes the pod when its route and firewall
  commands succeed.
\<close>

theorem hwcksum_mismatch_signal:
  "fst (hwcksum_config_matches_pod_config self s)
     = (case config_file s of
          None \<Rightarrow> True
        | Some d \<Rightarrow> doc_hwcksum d \<noteq> enable_hw_checksum (charm_config self))
   \<and> ((config_file s = None \<or> (\<exists>s1. pull_config_file s = Raise PathError s1))
        \<longrightarrow> fst (hwcksum_config_matches_pod_config self s)
          \<and> (\<forall>service_name. Restart service_name
                \<notin> set (trace_of s (final (configure_bessd_workload e self s))))
          \<and> ((\<forall>n c. c \<noteq> BessctlRun \<longrightarrow> exec_ok e n c) \<longrightarrow>
               filter is_decision (trace_of s (final (configure_bessd_workload e self s)))
                 = [DeletePod]))"
proof -
  have a: "fst (hwcksum_config_matches_pod_config self s)
     = (case config_file s of
          None \<Rightarrow> True
        | Some d \<Rightarrow> doc_hwcksum d \<noteq> enable_hw_checksum (charm_config self))"
    by (simp add: hwcksum_config_matches_pod_config_def pull_config_file_def dict_get_hwcksum_def
          split: option.splits)
  have b: "fst (hwcksum_config_matches_pod_config self s)
          \<and> (\<forall>service_name. Restart service_name
                \<notin> set (trace_of s (final (configure_bessd_workload e self s))))
          \<and> ((\<forall>n c. c \<noteq> BessctlRun \<longrightarrow> exec_ok e n c) \<longrightarrow>
               filter is_decision (trace_of s (final (configure_bessd_workload e self s)))
                 = [DeletePod])"
    if absent: "config_file s = None"
  proof -
    have d: "decision_calls self s = [DeletePod]"
      using absent by (simp add: decision_calls_def dict_get_hwcksum_def)
    have dec: "filter is_decision (trace_of s (final (configure_bessd_workload e self s)))
        = (if returns (ensure_routes_and_rule e self (after_config self s)) then [DeletePod] else [])"
      by (simp add: configure_decisions d)
    have norestart: "\<forall>service_name. Restart service_name
               \<notin> set (trace_of s (final (configure_bessd_workload e self s)))"
    proof (intro allI notI)
      fix service_name
      assume "Restart service_name \<in> set (trace_of s (final (configure_bessd_workload e self s)))"
      then have "Restart service_name
          \<in> set (filter is_decision (trace_of s (final (configure_bessd_workload e self s))))"
        by simp
      then show False by (simp add: dec split: if_splits)
    qed
    show ?thesis using a absent norestart dec
      by (simp add: routes_ok_returns)
  qed
  have c: "config_file s = None" if "\<exists>s1. pull_config_file s = Raise PathError s1"
    using that by (auto simp: pull_config_file_def split: option.splits)
  have imp: "(config_file s = None \<or> (\<exists>s1. pull_config_file s = Raise PathError s1))
        \<longrightarrow> fst (hwcksum_config_matches_pod_config self s)
          \<and> (\<forall>service_name. Restart service_name
                \<notin> set (trace_of s (final (configure_bessd_workload e self s))))
          \<and> ((\<forall>n c. c \<noteq> BessctlRun \<longrightarrow> exec_ok e n c) \<longrightarrow>
               filter is_decision (trace_of s (final (configure_bessd_workload e self s)))
                 = [DeletePod])"
  proof (rule impI)
    assume "config_file s = None \<or> (\<exists>s1. pull_config_file s = Raise PathError s1)"
    then have "config_file s = None" using c by blast
    then show "fst (hwcksum_config_matches_pod_config self s)
          \<and> (\<forall>service_name. Restart service_name
                \<notin> set (trace_of s (final (configure_bessd_workload e self s))))
          \<and> ((\<forall>n c. c \<noteq> BessctlRun \<longrightarrow> exec_ok e n c) \<longrightarrow>
               filter is_decision (trace_of s (final (configure_bessd_workload e self s)))
                 = [DeletePod])"
      by (rule b)
  qed
  show ?thesis using a imp by (rule conjI)
qed

theorem hwcksum_mismatch_signal_witness:
  "config_file fresh_container = None
   \<and> \<not> (\<exists>n c. c \<noteq> BessctlRun \<and> \<not> exec_ok env_ok n c)
   \<and> fst (hwcksum_config_matches_pod_config charm_upf fresh_container)
   \<and> filter is_decision
        (trace_of fresh_container (final (configure_bessd_workload env_ok charm_upf fresh_container)))
       = [DeletePod]
   \<and> \<not> fst (hwcksum_config_matches_pod_config charm_upf
              (fresh_container\<lparr>config_file := Some (desired_content charm_upf)\<rparr>))
   \<and> fst (hwcksum_config_matches_pod_config
              (charm_upf\<lparr>charm_config := cfg_normal\<lparr>enable_hw_checksum := True\<rparr>\<rparr>)
              (fresh_container\<lparr>config_file := Some (desired_content charm_upf)\<rparr>))"
proof -
  have absent: "config_file fresh_container = None"
    by (simp add: fresh_container_def)
  have ok: "\<forall>n c. c \<noteq> BessctlRun \<longrightarrow> exec_ok env_ok n c"
    by (simp add: env_ok_def)
  have ok': "\<not> (\<exists>n c. c \<noteq> BessctlRun \<and> \<not> exec_ok env_ok n c)"
    using ok by blast
  note t = hwcksum_mismatch_signal [of charm_upf fresh_container env_ok]
  have first: "fst (hwcksum_config_matches_pod_config charm_upf fresh_container)"
    "filter is_decision
        (trace_of fresh_container (final (configure_bessd_workload env_ok charm_upf fresh_container)))
       = [DeletePod]"
    using t absent ok by blast+
  have same: "\<not> fst (hwcksum_config_matches_pod_config charm_upf
              (fresh_container\<lparr>config_file := Some (desired_content charm_upf)\<rparr>))"
    using hwcksum_mismatch_signal
            [of charm_upf "fresh_container\<lparr>config_file := Some (desired_content charm_upf)\<rparr>" env_ok,
             THEN conjunct1]
    by (simp add: desired_content_def render_bessd_config_file_def Let_def)
  have flipped: "fst (hwcksum_config_matches_pod_config
              (charm_upf\<lparr>charm_config := cfg_normal\<lparr>enable_hw_checksum := True\<rparr>\<rparr>)
              (fresh_container\<lparr>config_file := Some (desired_content charm_upf)\<rparr>))"
    using hwcksum_mismatch_signal
            [of "charm_upf\<lparr>charm_config := cfg_normal\<lparr>enable_hw_checksum := True\<rparr>\<rparr>"
                "fresh_container\<lparr>config_file := Some (desired_content charm_upf)\<rparr>" env_ok,
             THEN conjunct1]
    by (simp add: desired_content_def render_bessd_config_file_def Let_def charm_upf_def
          cfg_normal_def)
  show ?thesis using absent ok' first same flipped by (intro conjI)
qed

section \<open>The retry budget\<close>

lemma attempts_members:
  "set (concat (replicate k failed_attempt))
     \<subseteq> {Exists marker_file_path, Exec BessctlRun False, Sleep 2}"
  by (induction k) (auto simp: failed_attempt_def)

lemma run_all_fail:
  assumes down: "\<forall>n. \<not> exec_ok e n BessctlRun" and absent: "marker_file s = None"
  shows "\<exists>s'. run_bess_configuration e s = Raise TimeoutError s'
          \<and> marker_file s' = None
          \<and> set (trace_of s s') \<subseteq> {Exists marker_file_path, Exec BessctlRun False, Sleep 2}
          \<and> 300 < clock s' - clock s \<and> clock s' - clock s \<le> 300 + exec_time e + 2"
proof -
  from loop_all_fail[OF down absent, of "clock s"]
  obtain s' tr where r: "run_bess_configuration_loop e (clock s) s = Raise TimeoutError s'"
    and m: "marker_file s' = None" and c: "calls s' = calls s @ tr"
    and t: "set tr \<subseteq> {Exists marker_file_path, Exec BessctlRun False, Sleep 2}"
    and lo: "300 < clock s' - clock s"
    and hi: "clock s - clock s \<le> 300 \<longrightarrow> clock s' - clock s \<le> 300 + exec_time e + 2"
    by auto
  have "trace_of s s' = tr" using c by (rule trace_ofI)
  then show ?thesis using r m t lo hi by (simp add: run_bess_configuration_def)
qed

lemma run_marker_written:
  "(marker_file (final (run_bess_configuration e s)) \<noteq> marker_file s
      \<longrightarrow> Push marker_file_path \<in> set (trace_of s (final (run_bess_configuration e s))))
   \<and> (Push marker_file_path \<in> set (trace_of s (final (run_bess_configuration e s)))
      \<longrightarrow> marker_file s = None
        \<and> (\<exists>pre. trace_of s (final (run_bess_configuration e s))
                    = pre @ [Exec BessctlRun True, Push marker_file_path]
               \<and> Push marker_file_path \<notin> set pre \<and> Exec BessctlRun True \<notin> set pre))"
proof -
  let ?r = "run_bess_configuration_loop e (clock s) s"
  from loop_shape[of e "clock s" s] obtain k ending where
    c: "calls (final ?r) = calls s @ concat (replicate k failed_attempt) @ ending"
    and d: "ending = [] \<and> \<not> returns ?r \<and> marker_file (final ?r) = marker_file s
        \<or> ending = [Exists marker_file_path] \<and> k = 0 \<and> returns ?r \<and> marker_file s \<noteq> None
          \<and> marker_file (final ?r) = marker_file s
        \<or> ending = [Exists marker_file_path, Exec BessctlRun True, Push marker_file_path]
          \<and> returns ?r \<and> marker_file s = None \<and> marker_file (final ?r) \<noteq> None"
    by blast
  have t: "trace_of s (final ?r) = concat (replicate k failed_attempt) @ ending"
    using c by (rule trace_ofI)
  have no: "Push marker_file_path \<notin> set (concat (replicate k failed_attempt))"
    "Exec BessctlRun True \<notin> set (concat (replicate k failed_attempt))"
    using attempts_members[of k] by auto
  from d show ?thesis
  proof (elim disjE)
    assume "ending = [] \<and> \<not> returns ?r \<and> marker_file (final ?r) = marker_file s"
    then show ?thesis using t no by (simp add: run_bess_configuration_def)
  next
    assume "ending = [Exists marker_file_path] \<and> k = 0 \<and> returns ?r \<and> marker_file s \<noteq> None
          \<and> marker_file (final ?r) = marker_file s"
    then show ?thesis using t by (simp add: run_bess_configuration_def)
  next
    assume e3: "ending = [Exists marker_file_path, Exec BessctlRun True, Push marker_file_path]
          \<and> returns ?r \<and> marker_file s = None \<and> marker_file (final ?r) \<noteq> None"
    have "trace_of s (final ?r) = (concat (replicate k failed_attempt) @ [Exists marker_file_path])
             @ [Exec BessctlRun True, Push marker_file_path]"
      using t e3 by simp
    moreover have "Push marker_file_path \<notin> set (concat (replicate k failed_attempt) @ [Exists marker_file_path])"
      "Exec BessctlRun True \<notin> set (concat (replicate k failed_attempt) @ [Exists marker_file_path])"
      using no by simp_all
    ultimately have "\<exists>pre. trace_of s (final ?r) = pre @ [Exec BessctlRun True, Push marker_file_path]
               \<and> Push marker_file_path \<notin> set pre \<and> Exec BessctlRun True \<notin> set pre"
      by blast
    moreover have "Push marker_file_path \<in> set (trace_of s (final ?r))"
      using t e3 by simp
    ultimately show ?thesis using e3 by (simp add: run_bess_configuration_def)
  qed
qed

text \<open>
  Claim C5. With the marker present at entry the runner only checks for it and returns:
  the bootstrap command is not run. With the marker absent and every run of the command
  failing, the runner raises the timeout error, the elapsed time then exceeds 300 units
  (by at most one attempt and its back-off), every call made is the marker check, a
  failed run or the two-unit sleep, and the marker is still absent. In every run, the
  marker changes only by a push of the marker file, and that push is the last call, made
  once, right after a successful run of the command.
\<close>

theorem bootstrap_runner:
  "(marker_file s \<noteq> None \<longrightarrow>
      run_bess_configuration e s = Return () (log_call (Exists marker_file_path) s))
   \<and> (marker_file s = None \<and> (\<forall>n. \<not> exec_ok e n BessctlRun) \<longrightarrow>
        (\<exists>s'. run_bess_configuration e s = Raise TimeoutError s'
           \<and> marker_file s' = None
           \<and> set (trace_of s s') \<subseteq> {Exists marker_file_path, Exec BessctlRun False, Sleep 2}
           \<and> 300 < clock s' - clock s \<and> clock s' - clock s \<le> 300 + exec_time e + 2))
   \<and> (marker_file (final (run_bess_configuration e s)) \<noteq> marker_file s
        \<longrightarrow> Push marker_file_path \<in> set (trace_of s (final (run_bess_configuration e s))))
   \<and> (Push marker_file_path \<in> set (trace_of s (final (run_bess_configuration e s)))
        \<longrightarrow> marker_file s = None
          \<and> (\<exists>pre. trace_of s (final (run_bess_configuration e s))
                      = pre @ [Exec BessctlRun True, Push marker_file_path]
                 \<and> Push marker_file_path \<notin> set pre \<and> Exec BessctlRun True \<notin> set pre))"
proof -
  have a: "marker_file s \<noteq> None \<longrightarrow>
      run_bess_configuration e s = Return () (log_call (Exists marker_file_path) s)"
    by (simp add: run_bess_configuration_def loop_marker_present)
  have b: "marker_file s = None \<and> (\<forall>n. \<not> exec_ok e n BessctlRun) \<longrightarrow>
        (\<exists>s'. run_bess_configuration e s = Raise TimeoutError s'
           \<and> marker_file s' = None
           \<and> set (trace_of s s') \<subseteq> {Exists marker_file_path, Exec BessctlRun False, Sleep 2}
           \<and> 300 < clock s' - clock s \<and> clock s' - clock s \<le> 300 + exec_time e + 2)"
    using run_all_fail[of e s] by blast
  note c = run_marker_written[of e s, THEN conjunct1]
  note d = run_marker_written[of e s, THEN conjunct2]
  show ?thesis by (intro conjI) (rule a, rule b, rule c, rule d)
qed

theorem bootstrap_runner_witness:
  "marker_file fresh_container = None
   \<and> (\<forall>n. \<not> exec_ok env_bessctl_down n BessctlRun)
   \<and> (\<exists>s'. run_bess_configuration env_bessctl_down fresh_container = Raise TimeoutError s'
         \<and> marker_file s' = None
         \<and> 300 < clock s' - clock fresh_container)
   \<and> marker_file (fresh_container\<lparr>marker_file := Some ''done''\<rparr>) \<noteq> None
   \<and> run_bess_configuration env_ok (fresh_container\<lparr>marker_file := Some ''done''\<rparr>)
        = Return () (log_call (Exists marker_file_path) (fresh_container\<lparr>marker_file := Some ''done''\<rparr>))"
proof -
  have absent: "marker_file fresh_container = None"
    by (simp add: fresh_container_def)
  have down: "\<forall>n. \<not> exec_ok env_bessctl_down n BessctlRun"
    by (simp add: env_bessctl_down_def)
  have present: "marker_file (fresh_container\<lparr>marker_file := Some ''done''\<rparr>) \<noteq> None"
    by simp
  have timeout: "\<exists>s'. run_bess_configuration env_bessctl_down fresh_container = Raise TimeoutError s'
         \<and> marker_file s' = None
         \<and> 300 < clock s' - clock fresh_container"
  proof -
    from bootstrap_runner [of fresh_container env_bessctl_down, THEN conjunct2, THEN conjunct1]
      absent down
    obtain s' where "run_bess_configuration env_bessctl_down fresh_container = Raise TimeoutError s'"
      "marker_file s' = None" "300 < clock s' - clock fresh_container"
      by auto
    then show ?thesis by auto
  qed
  have skipped: "run_bess_configuration env_ok (fresh_container\<lparr>marker_file := Some ''done''\<rparr>)
        = Return () (log_call (Exists marker_file_path) (fresh_container\<lparr>marker_file := Some ''done''\<rparr>))"
    using bootstrap_runner [of "fresh_container\<lparr>marker_file := Some ''done''\<rparr>" env_ok, THEN conjunct1]
      present by (rule mp)
  show ?thesis using absent down present timeout skipped by (intro conjI)
qed

section \<open>The first pass and the passes after it\<close>

lemma first_pass:
  assumes ok: "\<forall>n c. exec_ok e n c"
    and fresh: "config_file s = None" "marker_file s = None" "iptables_output s = []"
      "plan_services s = Map.empty"
  shows "configure_bessd_workload e self s =
     Return ()
       (s\<lparr>config_file := Some (desired_content self),
          marker_file := Some ''Service `bessd` configured'',
          routes := (routes s)
             ((''default'', Some ''110'') \<mapsto> str_opt (get_network_gateway_ip_config self CORE_INTERFACE_NAME),
              (gnb_subnet (charm_config self), None) \<mapsto> str_opt (get_network_gateway_ip_config self ACCESS_INTERFACE_NAME)),
          iptables_output := [icmp_rule],
          plan_services := services (bessd_pebble_layer self),
          plan_checks := plan_checks s ++ checks (bessd_pebble_layer self),
          execs := execs s + 5,
          clock := clock s + 5 * exec_time e,
          calls := calls s @
            [Exists config_file_path, Pull config_file_path, Push config_file_path,
             Exec (default_route_cmd self) True, Exec (ran_route_cmd self) True,
             Exec IptablesCheck False, Exec IptablesInsert True,
             GetPlan, AddLayer ''bessd'', DeletePod,
             Exists marker_file_path, Exec BessctlRun True, Push marker_file_path],
          pod_deleted := True\<rparr>)"
proof -
  have ok': "\<forall>n c. c \<noteq> BessctlRun \<longrightarrow> exec_ok e n c" using ok by simp
  have okb: "\<And>n. exec_ok e n BessctlRun" using ok by simp
  note ne = layer_nonempty[of self, THEN not_sym]
  show ?thesis
    using fresh
    by (cases s)
       (simp add: configure_bessd_workload_def ucf_absent routes_ok[OF ok'] upl_differs ne
          restart_or_recreate_def delete_pod_def log_call_def run_bess_configuration_def
          loop_first_attempt okb)
qed

lemma converged_pass:
  assumes ok: "\<forall>n c. c \<noteq> BessctlRun \<longrightarrow> exec_ok e n c"
    and conv: "config_file s = Some (desired_content self)" "marker_file s \<noteq> None"
      "icmp_rule \<in> set (iptables_output s)" "plan_services s = services (bessd_pebble_layer self)"
  shows "configure_bessd_workload e self s =
     Return ()
       (s\<lparr>routes := (routes s)
             ((''default'', Some ''110'') \<mapsto> str_opt (get_network_gateway_ip_config self CORE_INTERFACE_NAME),
              (gnb_subnet (charm_config self), None) \<mapsto> str_opt (get_network_gateway_ip_config self ACCESS_INTERFACE_NAME)),
          execs := execs s + 3,
          clock := clock s + 3 * exec_time e,
          calls := calls s @
            [Exists config_file_path, Pull config_file_path,
             Exec (default_route_cmd self) True, Exec (ran_route_cmd self) True,
             Exec IptablesCheck True, GetPlan, Exists marker_file_path]\<rparr>)"
  by (simp add: configure_bessd_workload_def ucf_same conv routes_ok[OF ok] upl_same
        restart_or_recreate_def log_call_def run_bess_configuration_def loop_marker_present)

lemma restart_pass:
  assumes ok: "\<forall>n c. exec_ok e n c"
    and kept: "config_file s = Some (desired_content self)" "marker_file s = None"
      "iptables_output s = []" "plan_services s = Map.empty"
  shows "configure_bessd_workload e self s =
     Return ()
       (s\<lparr>marker_file := Some ''Service `bessd` configured'',
          routes := (routes s)
             ((''default'', Some ''110'') \<mapsto> str_opt (get_network_gateway_ip_config self CORE_INTERFACE_NAME),
              (gnb_subnet (charm_config self), None) \<mapsto> str_opt (get_network_gateway_ip_config self ACCESS_INTERFACE_NAME)),
          iptables_output := [icmp_rule],
          plan_services := services (bessd_pebble_layer self),
          plan_checks := plan_checks s ++ checks (bessd_pebble_layer self),
          execs := execs s + 5,
          clock := clock s + 5 * exec_time e,
          calls := calls s @
            [Exists config_file_path, Pull config_file_path,
             Exec (default_route_cmd self) True, Exec (ran_route_cmd self) True,
             Exec IptablesCheck False, Exec IptablesInsert True,
             GetPlan, AddLayer ''bessd'',
             Restart routectl_service_name, Restart bessd_service_name,
             Exists marker_file_path, Exec BessctlRun True, Push marker_file_path]\<rparr>)"
proof -
  have ok': "\<forall>n c. c \<noteq> BessctlRun \<longrightarrow> exec_ok e n c" using ok by simp
  have okb: "\<And>n. exec_ok e n BessctlRun" using ok by simp
  note ne = layer_nonempty[of self, THEN not_sym]
  show ?thesis
    using kept
    by (cases s)
       (simp add: configure_bessd_workload_def ucf_same routes_ok[OF ok'] upl_differs ne
          restart_or_recreate_def restart_service_def log_call_def run_bess_configuration_def
          loop_first_attempt okb)
qed

lemma route_cmds_are_writes:
  "default_route_cmd self \<noteq> IptablesCheck" "ran_route_cmd self \<noteq> IptablesCheck"
  by (simp_all add: default_route_cmd_def ran_route_cmd_def)

lemma three_passes:
  fixes e :: env and self :: charm and s :: cstate
  assumes ok: "\<forall>n c. exec_ok e n c"
    and fresh: "config_file s = None" "marker_file s = None" "iptables_output s = []"
      "plan_services s = Map.empty"
  defines "s1 \<equiv> final (configure_bessd_workload e self s)"
  defines "s2 \<equiv> final (configure_bessd_workload e self (recreate_deleted_pod s1))"
  defines "s3 \<equiv> final (configure_bessd_workload e self (recreate_deleted_pod s2))"
  shows "configure_bessd_workload e self s = Return () s1"
    and "trace_of s s1 =
            [Exists config_file_path, Pull config_file_path, Push config_file_path,
             Exec (default_route_cmd self) True, Exec (ran_route_cmd self) True,
             Exec IptablesCheck False, Exec IptablesInsert True,
             GetPlan, AddLayer ''bessd'', DeletePod,
             Exists marker_file_path, Exec BessctlRun True, Push marker_file_path]"
    and "config_file s1 = Some (desired_content self)"
    and "marker_file s1 \<noteq> None"
    and "pod_deleted s1"
    and "iptables_output s1 = [icmp_rule]"
    and "plan_services s1 = services (bessd_pebble_layer self)"
    and "routes s1 (''default'', Some ''110'')
            = Some (str_opt (get_network_gateway_ip_config self CORE_INTERFACE_NAME))"
    and "routes s1 (gnb_subnet (charm_config self), None)
            = Some (str_opt (get_network_gateway_ip_config self ACCESS_INTERFACE_NAME))"
    and "configure_bessd_workload e self (recreate_deleted_pod s1) = Return () s2"
    and "trace_of (recreate_deleted_pod s1) s2 =
            [Exists config_file_path, Pull config_file_path,
             Exec (default_route_cmd self) True, Exec (ran_route_cmd self) True,
             Exec IptablesCheck False, Exec IptablesInsert True,
             GetPlan, AddLayer ''bessd'',
             Restart routectl_service_name, Restart bessd_service_name,
             Exists marker_file_path, Exec BessctlRun True, Push marker_file_path]"
    and "\<not> pod_deleted s2"
    and "config_file s2 = Some (desired_content self)"
    and "marker_file s2 \<noteq> None"
    and "iptables_output s2 = [icmp_rule]"
    and "plan_services s2 = services (bessd_pebble_layer self)"
    and "routes s2 (''default'', Some ''110'')
            = Some (str_opt (get_network_gateway_ip_config self CORE_INTERFACE_NAME))"
    and "routes s2 (gnb_subnet (charm_config self), None)
            = Some (str_opt (get_network_gateway_ip_config self ACCESS_INTERFACE_NAME))"
    and "configure_bessd_workload e self (recreate_deleted_pod s2) = Return () s3"
    and "trace_of (recreate_deleted_pod s2) s3 =
            [Exists config_file_path, Pull config_file_path,
             Exec (default_route_cmd self) True, Exec (ran_route_cmd self) True,
             Exec IptablesCheck True, GetPlan, Exists marker_file_path]"
    and "config_file s3 = config_file s2"
    and "marker_file s3 = marker_file s2"
    and "routes s3 = routes s2"
    and "iptables_output s3 = iptables_output s2"
    and "plan_services s3 = plan_services s2"
    and "plan_checks s3 = plan_checks s2"
proof -
  note p1 = first_pass[OF ok fresh, of self]
  show r1: "configure_bessd_workload e self s = Return () s1"
    by (simp add: s1_def p1)
  show "trace_of s s1 =
            [Exists config_file_path, Pull config_file_path, Push config_file_path,
             Exec (default_route_cmd self) True, Exec (ran_route_cmd self) True,
             Exec IptablesCheck False, Exec IptablesInsert True,
             GetPlan, AddLayer ''bessd'', DeletePod,
             Exists marker_file_path, Exec BessctlRun True, Push marker_file_path]"
    by (rule trace_ofI) (simp add: s1_def p1)
  show f1: "config_file s1 = Some (desired_content self)" "marker_file s1 \<noteq> None" "pod_deleted s1"
    by (simp_all add: s1_def p1)
  show "iptables_output s1 = [icmp_rule]" "plan_services s1 = services (bessd_pebble_layer self)"
    "routes s1 (''default'', Some ''110'')
            = Some (str_opt (get_network_gateway_ip_config self CORE_INTERFACE_NAME))"
    "routes s1 (gnb_subnet (charm_config self), None)
            = Some (str_opt (get_network_gateway_ip_config self ACCESS_INTERFACE_NAME))"
    using fresh by (simp_all add: s1_def p1)
  define n1 where "n1 = recreate_deleted_pod s1"
  have g1: "config_file n1 = Some (desired_content self)" "marker_file n1 = None"
    "iptables_output n1 = []" "plan_services n1 = Map.empty" "\<not> pod_deleted n1"
    "routes n1 = Map.empty"
    using f1 by (simp_all add: n1_def recreate_deleted_pod_def)
  note p2 = restart_pass[OF ok g1(1) g1(2) g1(3) g1(4)]
  have s2: "s2 = final (configure_bessd_workload e self n1)"
    by (simp add: s2_def n1_def)
  show "configure_bessd_workload e self (recreate_deleted_pod s1) = Return () s2"
    unfolding n1_def[symmetric] by (simp add: s2 p2)
  show "trace_of (recreate_deleted_pod s1) s2 =
            [Exists config_file_path, Pull config_file_path,
             Exec (default_route_cmd self) True, Exec (ran_route_cmd self) True,
             Exec IptablesCheck False, Exec IptablesInsert True,
             GetPlan, AddLayer ''bessd'',
             Restart routectl_service_name, Restart bessd_service_name,
             Exists marker_file_path, Exec BessctlRun True, Push marker_file_path]"
    unfolding n1_def[symmetric] by (rule trace_ofI) (simp add: s2 p2)
  show f2: "\<not> pod_deleted s2" "config_file s2 = Some (desired_content self)"
    "marker_file s2 \<noteq> None" "iptables_output s2 = [icmp_rule]"
    "plan_services s2 = services (bessd_pebble_layer self)"
    "routes s2 (''default'', Some ''110'')
            = Some (str_opt (get_network_gateway_ip_config self CORE_INTERFACE_NAME))"
    "routes s2 (gnb_subnet (charm_config self), None)
            = Some (str_opt (get_network_gateway_ip_config self ACCESS_INTERFACE_NAME))"
    using g1 by (simp_all add: s2 p2)
  have n2: "recreate_deleted_pod s2 = s2"
    using f2(1) by (simp add: recreate_deleted_pod_def)
  have ok': "\<forall>n c. c \<noteq> BessctlRun \<longrightarrow> exec_ok e n c" using ok by simp
  have rule_in: "icmp_rule \<in> set (iptables_output s2)" using f2(4) by simp
  note p3 = converged_pass[OF ok' f2(2) f2(3) rule_in f2(5)]
  have s3: "s3 = final (configure_bessd_workload e self s2)"
    by (simp add: s3_def n2)
  show "configure_bessd_workload e self (recreate_deleted_pod s2) = Return () s3"
    by (simp add: n2 s3 p3)
  show "trace_of (recreate_deleted_pod s2) s3 =
            [Exists config_file_path, Pull config_file_path,
             Exec (default_route_cmd self) True, Exec (ran_route_cmd self) True,
             Exec IptablesCheck True, GetPlan, Exists marker_file_path]"
    unfolding n2 by (rule trace_ofI) (simp add: s3 p3)
  show "config_file s3 = config_file s2" "marker_file s3 = marker_file s2"
    "iptables_output s3 = iptables_output s2"
    "plan_services s3 = plan_services s2" "plan_checks s3 = plan_checks s2"
    by (simp_all add: s3 p3)
  show "routes s3 = routes s2"
  proof
    fix k
    show "routes s3 k = routes s2 k"
      using f2(6,7) by (simp add: s3 p3)
  qed
qed

text \<open>
  Claim C1, as the code has it. Observed state: no configuration document, no marker, an
  empty OUTPUT chain and an empty plan; every command succeeds at its first run. For
  every desired state (mode normal with the checksum flag off among them) the first pass
  writes the document, replaces both routes, inserts the firewall rule after the failed
  check, replaces the supervision declaration, deletes the pod and restarts no service
  (the absent stored checksum value differs from the desired one), runs the bootstrap
  command once and creates the marker, in the pod whose deletion it has asked for. The
  second pass, with the same desired state, meets the recreated pod: the document is
  there and is not written again, and the pod is not deleted again, but both routes are
  replaced, the firewall rule is inserted, the declaration is replaced, the route-control
  and the bessd service are restarted in that order, the bootstrap command is run once and
  the marker created. Only the third pass finds nothing to repair: it reads the document,
  the rule, the plan and the marker, issues the two route replacements again and no other
  write, skips the bootstrap command and leaves the observed state as it was.
\<close>

theorem first_pass_then_second_pass:
  assumes ok: "\<forall>n c. exec_ok e n c"
    and fresh: "config_file s = None" "marker_file s = None" "iptables_output s = []"
      "plan_services s = Map.empty"
  shows "\<exists>s1 s2 s3. configure_bessd_workload e self s = Return () s1
      \<and> trace_of s s1 =
            [Exists config_file_path, Pull config_file_path, Push config_file_path,
             Exec (default_route_cmd self) True, Exec (ran_route_cmd self) True,
             Exec IptablesCheck False, Exec IptablesInsert True,
             GetPlan, AddLayer ''bessd'', DeletePod,
             Exists marker_file_path, Exec BessctlRun True, Push marker_file_path]
      \<and> config_file s1 = Some (desired_content self)
      \<and> marker_file s1 \<noteq> None
      \<and> pod_deleted s1
      \<and> iptables_output s1 = [icmp_rule]
      \<and> plan_services s1 = services (bessd_pebble_layer self)
      \<and> routes s1 (''default'', Some ''110'')
            = Some (str_opt (get_network_gateway_ip_config self CORE_INTERFACE_NAME))
      \<and> routes s1 (gnb_subnet (charm_config self), None)
            = Some (str_opt (get_network_gateway_ip_config self ACCESS_INTERFACE_NAME))
      \<and> configure_bessd_workload e self (recreate_deleted_pod s1) = Return () s2
      \<and> trace_of (recreate_deleted_pod s1) s2 =
            [Exists config_file_path, Pull config_file_path,
             Exec (default_route_cmd self) True, Exec (ran_route_cmd self) True,
             Exec IptablesCheck False, Exec IptablesInsert True,
             GetPlan, AddLayer ''bessd'',
             Restart routectl_service_name, Restart bessd_service_name,
             Exists marker_file_path, Exec BessctlRun True, Push marker_file_path]
      \<and> \<not> pod_deleted s2
      \<and> config_file s2 = Some (desired_content self)
      \<and> marker_file s2 \<noteq> None
      \<and> iptables_output s2 = [icmp_rule]
      \<and> plan_services s2 = services (bessd_pebble_layer self)
      \<and> routes s2 (''default'', Some ''110'')
            = Some (str_opt (get_network_gateway_ip_config self CORE_INTERFACE_NAME))
      \<and> routes s2 (gnb_subnet (charm_config self), None)
            = Some (str_opt (get_network_gateway_ip_config self ACCESS_INTERFACE_NAME))
      \<and> configure_bessd_workload e self (recreate_deleted_pod s2) = Return () s3
      \<and> trace_of (recreate_deleted_pod s2) s3 =
            [Exists config_file_path, Pull config_file_path,
             Exec (default_route_cmd self) True, Exec (ran_route_cmd self) True,
             Exec IptablesCheck True, GetPlan, Exists marker_file_path]
      \<and> filter is_write (trace_of (recreate_deleted_pod s2) s3)
            = [Exec (default_route_cmd self) True, Exec (ran_route_cmd self) True]
      \<and> config_file s3 = config_file s2 \<and> marker_file s3 = marker_file s2
      \<and> routes s3 = routes s2 \<and> iptables_output s3 = iptables_output s2
      \<and> plan_services s3 = plan_services s2 \<and> plan_checks s3 = plan_checks s2"
proof -
  define s1 where "s1 = final (configure_bessd_workload e self s)"
  define s2 where "s2 = final (configure_bessd_workload e self (recreate_deleted_pod s1))"
  define s3 where "s3 = final (configure_bessd_workload e self (recreate_deleted_pod s2))"
  note p = three_passes[OF ok fresh, of self, folded s1_def s2_def s3_def]
  have t3: "trace_of (recreate_deleted_pod s2) s3 =
            [Exists config_file_path, Pull config_file_path,
             Exec (default_route_cmd self) True, Exec (ran_route_cmd self) True,
             Exec IptablesCheck True, GetPlan, Exists marker_file_path]"
    by (fact p)
  have w3: "filter is_write (trace_of (recreate_deleted_pod s2) s3)
            = [Exec (default_route_cmd self) True, Exec (ran_route_cmd self) True]"
    by (simp add: t3 route_cmds_are_writes)
  show ?thesis
    apply (rule exI[of _ s1])
    apply (rule exI[of _ s2])
    apply (rule exI[of _ s3])
    apply (intro conjI)
    by (fact p w3)+
qed

theorem first_pass_then_second_pass_witness:
  "upf_mode (charm_config charm_upf) = af_packet
   \<and> enable_hw_checksum (charm_config charm_upf) = False
   \<and> (\<forall>n c. exec_ok env_ok n c)
   \<and> config_file fresh_container = None \<and> marker_file fresh_container = None
   \<and> iptables_output fresh_container = [] \<and> plan_services fresh_container = Map.empty
   \<and> (\<exists>s1 s2 s3. configure_bessd_workload env_ok charm_upf fresh_container = Return () s1
         \<and> DeletePod \<in> set (trace_of fresh_container s1)
         \<and> pod_deleted s1
         \<and> configure_bessd_workload env_ok charm_upf (recreate_deleted_pod s1) = Return () s2
         \<and> filter is_write (trace_of (recreate_deleted_pod s1) s2)
               = [Exec (default_route_cmd charm_upf) True, Exec (ran_route_cmd charm_upf) True,
                  Exec IptablesInsert True, AddLayer ''bessd'',
                  Restart routectl_service_name, Restart bessd_service_name,
                  Exec BessctlRun True, Push marker_file_path]
         \<and> configure_bessd_workload env_ok charm_upf (recreate_deleted_pod s2) = Return () s3
         \<and> filter is_write (trace_of (recreate_deleted_pod s2) s3)
               = [Exec (default_route_cmd charm_upf) True, Exec (ran_route_cmd charm_upf) True])"
proof -
  have desired: "upf_mode (charm_config charm_upf) = af_packet"
    "enable_hw_checksum (charm_config charm_upf) = False"
    by (simp_all add: charm_upf_def cfg_normal_def)
  have ok: "\<forall>n c. exec_ok env_ok n c"
    by (simp add: env_ok_def)
  have fresh: "config_file fresh_container = None" "marker_file fresh_container = None"
    "iptables_output fresh_container = []" "plan_services fresh_container = Map.empty"
    by (simp_all add: fresh_container_def)
  from first_pass_then_second_pass [OF ok fresh, of charm_upf]
  obtain s1 s2 s3 where
    r1: "configure_bessd_workload env_ok charm_upf fresh_container = Return () s1"
    and t1: "trace_of fresh_container s1 =
            [Exists config_file_path, Pull config_file_path, Push config_file_path,
             Exec (default_route_cmd charm_upf) True, Exec (ran_route_cmd charm_upf) True,
             Exec IptablesCheck False, Exec IptablesInsert True,
             GetPlan, AddLayer ''bessd'', DeletePod,
             Exists marker_file_path, Exec BessctlRun True, Push marker_file_path]"
    and d1: "pod_deleted s1"
    and r2: "configure_bessd_workload env_ok charm_upf (recreate_deleted_pod s1) = Return () s2"
    and t2: "trace_of (recreate_deleted_pod s1) s2 =
            [Exists config_file_path, Pull config_file_path,
             Exec (default_route_cmd charm_upf) True, Exec (ran_route_cmd charm_upf) True,
             Exec IptablesCheck False, Exec IptablesInsert True,
             GetPlan, AddLayer ''bessd'',
             Restart routectl_service_name, Restart bessd_service_name,
             Exists marker_file_path, Exec BessctlRun True, Push marker_file_path]"
    and r3: "configure_bessd_workload env_ok charm_upf (recreate_deleted_pod s2) = Return () s3"
    and w3: "filter is_write (trace_of (recreate_deleted_pod s2) s3)
               = [Exec (default_route_cmd charm_upf) True, Exec (ran_route_cmd charm_upf) True]"
    by blast
  have m1: "DeletePod \<in> set (trace_of fresh_container s1)"
    by (simp add: t1)
  have w2: "filter is_write (trace_of (recreate_deleted_pod s1) s2)
               = [Exec (default_route_cmd charm_upf) True, Exec (ran_route_cmd charm_upf) True,
                  Exec IptablesInsert True, AddLayer ''bessd'',
                  Restart routectl_service_name, Restart bessd_service_name,
                  Exec BessctlRun True, Push marker_file_path]"
    by (simp add: t2 route_cmds_are_writes)
  have "\<exists>s1 s2 s3. configure_bessd_workload env_ok charm_upf fresh_container = Return () s1
         \<and> DeletePod \<in> set (trace_of fresh_container s1)
         \<and> pod_deleted s1
         \<and> configure_bessd_workload env_ok charm_upf (recreate_deleted_pod s1) = Return () s2
         \<and> filter is_write (trace_of (recreate_deleted_pod s1) s2)
               = [Exec (default_route_cmd charm_upf) True, Exec (ran_route_cmd charm_upf) True,
                  Exec IptablesInsert True, AddLayer ''bessd'',
                  Restart routectl_service_name, Restart bessd_service_name,
                  Exec BessctlRun True, Push marker_file_path]
         \<and> configure_bessd_workload env_ok charm_upf (recreate_deleted_pod s2) = Return () s3
         \<and> filter is_write (trace_of (recreate_deleted_pod s2) s3)
               = [Exec (default_route_cmd charm_upf) True, Exec (ran_route_cmd charm_upf) True]"
    using r1 m1 d1 r2 w2 r3 w3 by blast
  then show ?thesis using desired ok fresh by (intro conjI)
qed

text \<open>
  The claim as the specification words it fails at the scenario it names. There the first
  pass deletes the pod and restarts neither service. The second pass, on the pod recreated
  after that deletion, is not free of writes and does not skip the bootstrap command: it
  issues eight writes, the run of the bootstrap command and the push of the marker among
  them.
\<close>

theorem first_pass_counterexample:
  "DeletePod \<in> set (trace_of fresh_container
        (final (configure_bessd_workload env_ok charm_upf fresh_container)))
   \<and> Restart routectl_service_name \<notin> set (trace_of fresh_container
        (final (configure_bessd_workload env_ok charm_upf fresh_container)))
   \<and> Restart bessd_service_name \<notin> set (trace_of fresh_container
        (final (configure_bessd_workload env_ok charm_upf fresh_container)))
   \<and> filter is_write
        (trace_of
           (recreate_deleted_pod (final (configure_bessd_workload env_ok charm_upf fresh_container)))
           (final (configure_bessd_workload env_ok charm_upf
              (recreate_deleted_pod
                 (final (configure_bessd_workload env_ok charm_upf fresh_container))))))
       = [Exec (default_route_cmd charm_upf) True, Exec (ran_route_cmd charm_upf) True,
          Exec IptablesInsert True, AddLayer ''bessd'',
          Restart routectl_service_name, Restart bessd_service_name,
          Exec BessctlRun True, Push marker_file_path]"
proof -
  have ok: "\<forall>n c. exec_ok env_ok n c"
    by (simp add: env_ok_def)
  have fresh: "config_file fresh_container = None" "marker_file fresh_container = None"
    "iptables_output fresh_container = []" "plan_services fresh_container = Map.empty"
    by (simp_all add: fresh_container_def)
  note p = three_passes[OF ok fresh, of charm_upf]
  show ?thesis
    by (simp add: p(2) p(11) route_cmds_are_writes)
qed

section \<open>The status verdict\<close>

lemma cpu_gate_blocks:
  "\<not> fst (is_cpu_compatible self obs status) \<Longrightarrow>
   snd (is_cpu_compatible self obs status)
     \<in> {BlockedStatus (''Please use a CPU that has the following capabilities: ''
                         @ join '', '' REQUIRED_CPU_EXTENSIONS),
        BlockedStatus (''Please use a CPU that has the following capabilities: ''
                         @ join '', '' (REQUIRED_CPU_EXTENSIONS @ REQUIRED_CPU_EXTENSIONS_HUGEPAGES)),
        BlockedStatus ''Not enough HugePages available''}"
  by (simp add: is_cpu_compatible_def split: if_splits)

lemma first_failing_check_Cons:
  "first_failing_check (check # rest) = (if fst check then first_failing_check rest else snd check)"
  by (cases check) simp

lemma handler_verdict:
  assumes "config_load obs = Inr cfg" "is_leader obs"
  shows "on_bessd_pebble_ready e obs self0 status s = Return verdict s' \<Longrightarrow>
         verdict = first_failing_check (status_checks (self0\<lparr>charm_config := cfg\<rparr>) obs status s)"
  using assms
  by (auto simp: on_bessd_pebble_ready_def status_checks_def set_unit_status_def Let_def
        first_failing_check_Cons split: if_splits outcome.splits)

lemma handler_raises:
  assumes "config_load obs = Inr cfg" "is_leader obs"
  shows "on_bessd_pebble_ready e obs self0 status s = Raise err s' \<Longrightarrow>
         fst (is_cpu_compatible (self0\<lparr>charm_config := cfg\<rparr>) obs status)
         \<and> multus_is_ready obs \<and> storage_dir s
         \<and> configure_bessd_workload e (self0\<lparr>charm_config := cfg\<rparr>)
              (log_call (Exists BESSD_CONTAINER_CONFIG_PATH) s) = Raise err s'"
  using assms
  by (auto simp: on_bessd_pebble_ready_def Let_def split: if_splits outcome.splits)

lemma handler_gate_closed:
  assumes "config_load obs = Inr cfg" "is_leader obs"
    "\<not> fst (is_cpu_compatible (self0\<lparr>charm_config := cfg\<rparr>) obs status)"
  shows "on_bessd_pebble_ready e obs self0 status s =
           Return (snd (is_cpu_compatible (self0\<lparr>charm_config := cfg\<rparr>) obs status)) s"
  using assms by (simp add: on_bessd_pebble_ready_def)

text \<open>
  Claim C6. For a leader unit whose configuration loads: whenever the handler leaves a
  verdict, it is the verdict of the first failing check in the order capability gate,
  networking ready, storage attached, bessd process, route-control process, sidecar
  process, and Active when none fails; the handler raises only from the Configuration
  Reconciler, after the three gates have passed. With the gates passed, bessd not running
  and the other two processes running, a verdict left is Waiting for bessd. With the
  capability gate failing, the verdict is the gate's Blocked reason whatever the
  processes do, and the container is not touched.
\<close>

theorem status_first_failing_check:
  assumes cfg: "config_load obs = Inr cfg" and leader: "is_leader obs"
  shows "(\<forall>verdict s'. on_bessd_pebble_ready e obs self0 status s = Return verdict s' \<longrightarrow>
            verdict = first_failing_check (status_checks (self0\<lparr>charm_config := cfg\<rparr>) obs status s))
       \<and> (\<forall>err s'. on_bessd_pebble_ready e obs self0 status s = Raise err s' \<longrightarrow>
            fst (is_cpu_compatible (self0\<lparr>charm_config := cfg\<rparr>) obs status)
            \<and> multus_is_ready obs \<and> storage_dir s
            \<and> configure_bessd_workload e (self0\<lparr>charm_config := cfg\<rparr>)
                 (log_call (Exists BESSD_CONTAINER_CONFIG_PATH) s) = Raise err s')
       \<and> (fst (is_cpu_compatible (self0\<lparr>charm_config := cfg\<rparr>) obs status)
            \<and> multus_is_ready obs \<and> storage_dir s
            \<and> \<not> service_is_running_on_container (bessd_container obs) bessd_service_name
            \<and> service_is_running_on_container (bessd_container obs) routectl_service_name
            \<and> service_is_running_on_container (pfcp_agent_container obs) pfcp_agent_service_name
          \<longrightarrow> (\<forall>verdict s'. on_bessd_pebble_ready e obs self0 status s = Return verdict s' \<longrightarrow>
                 verdict = WaitingStatus ''Waiting for bessd service to run''
                 \<and> verdict \<noteq> ActiveStatus))
       \<and> (\<not> fst (is_cpu_compatible (self0\<lparr>charm_config := cfg\<rparr>) obs status)
          \<longrightarrow> on_bessd_pebble_ready e obs self0 status s =
                Return (snd (is_cpu_compatible (self0\<lparr>charm_config := cfg\<rparr>) obs status)) s
              \<and> (\<exists>reason. snd (is_cpu_compatible (self0\<lparr>charm_config := cfg\<rparr>) obs status)
                     = BlockedStatus reason))"
proof (intro conjI allI impI)
  fix verdict s'
  assume "on_bessd_pebble_ready e obs self0 status s = Return verdict s'"
  then show "verdict = first_failing_check (status_checks (self0\<lparr>charm_config := cfg\<rparr>) obs status s)"
    by (rule handler_verdict[OF cfg leader])
next
  fix err s'
  assume r: "on_bessd_pebble_ready e obs self0 status s = Raise err s'"
  note h = handler_raises[OF cfg leader r]
  show "fst (is_cpu_compatible (self0\<lparr>charm_config := cfg\<rparr>) obs status)" using h by simp
  show "multus_is_ready obs" using h by simp
  show "storage_dir s" using h by simp
  show "configure_bessd_workload e (self0\<lparr>charm_config := cfg\<rparr>)
                 (log_call (Exists BESSD_CONTAINER_CONFIG_PATH) s) = Raise err s'" using h by simp
next
  fix verdict s'
  assume g: "fst (is_cpu_compatible (self0\<lparr>charm_config := cfg\<rparr>) obs status)
            \<and> multus_is_ready obs \<and> storage_dir s
            \<and> \<not> service_is_running_on_container (bessd_container obs) bessd_service_name
            \<and> service_is_running_on_container (bessd_container obs) routectl_service_name
            \<and> service_is_running_on_container (pfcp_agent_container obs) pfcp_agent_service_name"
    and r: "on_bessd_pebble_ready e obs self0 status s = Return verdict s'"
  have v: "verdict = first_failing_check (status_checks (self0\<lparr>charm_config := cfg\<rparr>) obs status s)"
    using r by (rule handler_verdict[OF cfg leader])
  show "verdict = WaitingStatus ''Waiting for bessd service to run''"
    using g by (simp add: v status_checks_def first_failing_check_Cons)
  then show "verdict \<noteq> ActiveStatus" by simp
next
  assume n: "\<not> fst (is_cpu_compatible (self0\<lparr>charm_config := cfg\<rparr>) obs status)"
  show "on_bessd_pebble_ready e obs self0 status s =
                Return (snd (is_cpu_compatible (self0\<lparr>charm_config := cfg\<rparr>) obs status)) s"
    by (rule handler_gate_closed[OF cfg leader n])
  show "\<exists>reason. snd (is_cpu_compatible (self0\<lparr>charm_config := cfg\<rparr>) obs status)
                     = BlockedStatus reason"
    using cpu_gate_blocks[OF n] by auto
qed

theorem status_first_failing_check_witness:
  "config_load obs_bessd_down = Inr cfg_normal \<and> is_leader obs_bessd_down
   \<and> \<not> service_is_running_on_container (bessd_container obs_bessd_down) bessd_service_name
   \<and> (\<exists>s'. on_bessd_pebble_ready env_ok obs_bessd_down charm_upf ActiveStatus fresh_container
            = Return (WaitingStatus ''Waiting for bessd service to run'') s')
   \<and> config_load obs_old_cpu = Inr cfg_normal \<and> is_leader obs_old_cpu
   \<and> (\<exists>reason. on_bessd_pebble_ready env_ok obs_old_cpu charm_upf ActiveStatus fresh_container
            = Return (BlockedStatus reason) fresh_container)"
proof -
  let ?self = "charm_upf\<lparr>charm_config := cfg_normal\<rparr>"
  have cfg: "config_load obs_bessd_down = Inr cfg_normal" and leader: "is_leader obs_bessd_down"
    by (simp_all add: obs_bessd_down_def)
  have cfg': "config_load obs_old_cpu = Inr cfg_normal" and leader': "is_leader obs_old_cpu"
    by (simp_all add: obs_old_cpu_def obs_bessd_down_def)
  have cpu: "fst (is_cpu_compatible ?self obs_bessd_down ActiveStatus)"
    by (simp add: is_cpu_compatible_def obs_bessd_down_def REQUIRED_CPU_EXTENSIONS_def
          hugepages_is_enabled_def cfg_normal_def)
  have cpu': "\<not> fst (is_cpu_compatible ?self obs_old_cpu ActiveStatus)"
    by (simp add: is_cpu_compatible_def obs_old_cpu_def REQUIRED_CPU_EXTENSIONS_def)
  have gates: "multus_is_ready obs_bessd_down" "storage_dir fresh_container"
    by (simp_all add: obs_bessd_down_def fresh_container_def)
  have live: "\<not> service_is_running_on_container (bessd_container obs_bessd_down) bessd_service_name"
    "service_is_running_on_container (bessd_container obs_bessd_down) routectl_service_name"
    "service_is_running_on_container (pfcp_agent_container obs_bessd_down) pfcp_agent_service_name"
    by (simp_all add: service_is_running_on_container_def obs_bessd_down_def bessd_service_name_def
          routectl_service_name_def pfcp_agent_service_name_def)
  have ok: "\<forall>n c. exec_ok env_ok n c"
    by (simp add: env_ok_def)
  have "\<exists>s1. configure_bessd_workload env_ok ?self
           (log_call (Exists BESSD_CONTAINER_CONFIG_PATH) fresh_container) = Return () s1"
    by (rule exI, rule first_pass[OF ok]) (simp_all add: log_call_def fresh_container_def)
  then obtain s1 where "configure_bessd_workload env_ok ?self
           (log_call (Exists BESSD_CONTAINER_CONFIG_PATH) fresh_container) = Return () s1" ..
  then have ret: "on_bessd_pebble_ready env_ok obs_bessd_down charm_upf ActiveStatus fresh_container
      = Return (set_unit_status (bessd_container obs_bessd_down) (pfcp_agent_container obs_bessd_down)) s1"
    using cfg leader cpu gates by (simp add: on_bessd_pebble_ready_def)
  note thm1 = status_first_failing_check [OF cfg leader, of env_ok charm_upf ActiveStatus fresh_container]
  have "set_unit_status (bessd_container obs_bessd_down) (pfcp_agent_container obs_bessd_down)
          = WaitingStatus ''Waiting for bessd service to run''"
    using thm1[THEN conjunct2, THEN conjunct2, THEN conjunct1] cpu gates live ret by simp
  then have waiting: "\<exists>s'. on_bessd_pebble_ready env_ok obs_bessd_down charm_upf ActiveStatus fresh_container
            = Return (WaitingStatus ''Waiting for bessd service to run'') s'"
    using ret by simp
  note thm2 = status_first_failing_check [OF cfg' leader', of env_ok charm_upf ActiveStatus fresh_container]
  have blocked: "\<exists>reason. on_bessd_pebble_ready env_ok obs_old_cpu charm_upf ActiveStatus fresh_container
            = Return (BlockedStatus reason) fresh_container"
    using thm2[THEN conjunct2, THEN conjunct2, THEN conjunct2] cpu' by auto
  show ?thesis using cfg leader live(1) waiting cfg' leader' blocked by (intro conjI)
qed

section \<open>The Attachment Reconciler, step by step\<close>

lemma k8s_trace_ofI: "k8s_calls c' = k8s_calls c @ tr \<Longrightarrow> k8s_trace_of c c' = tr"
  by (simp add: k8s_trace_of_def)

lemma first_index_bound:
  "first_index cs n = Some i \<Longrightarrow> i < length cs \<and> c_name (cs ! i) = n"
proof (induction cs arbitrary: i)
  case Nil then show ?case by simp
next
  case (Cons c cs)
  then show ?case by (auto split: if_splits)
qed

lemma first_index_names:
  "map c_name cs = map c_name cs' \<Longrightarrow> first_index cs n = first_index cs' n"
proof (induction cs arbitrary: cs')
  case Nil then show ?case by simp
next
  case (Cons c cs)
  then obtain c' cs'' where "cs' = c' # cs''" by (cases cs') auto
  with Cons show ?case by auto
qed

lemma get_index_eval:
  "get_container_index_from_name n c =
     outcome_of (case first_index (sts_containers (statefulset c)) n of
                   Some i \<Rightarrow> Inr i
                 | None \<Rightarrow> Inl (KubernetesMultusError (''No container named '' @ n @ '' in statefulset'')))
       (c\<lparr>k8s_calls := k8s_calls c @ [GetStatefulSet]\<rparr>)"
  by (simp add: get_container_index_from_name_def client_get_statefulset_def split: option.splits)

lemma is_created_eval:
  "network_attachment_definition_is_created n c =
     (case nad_get_fault c n of
        None \<Rightarrow> Return (nads c n \<noteq> None) (c\<lparr>k8s_calls := k8s_calls c @ [GetNad n]\<rparr>)
      | Some (ApiError reason) \<Rightarrow>
          if reason = ''NotFound'' then Return False (c\<lparr>k8s_calls := k8s_calls c @ [GetNad n]\<rparr>)
          else Raise (KubernetesMultusError
                  (''Unexpected outcome when retrieving network attachment definition '' @ n))
                 (c\<lparr>k8s_calls := k8s_calls c @ [GetNad n]\<rparr>)
      | Some (HTTPStatusError status_code) \<Rightarrow>
          if status_code = 404
          then Raise (KubernetesMultusError
                  ''NetworkAttachmentDefinition resource not found. You may need to install Multus CNI.'')
                 (c\<lparr>k8s_calls := k8s_calls c @ [GetNad n]\<rparr>)
          else Raise (KubernetesMultusError
                  (''Unexpected outcome when retrieving network attachment definition '' @ n))
                 (c\<lparr>k8s_calls := k8s_calls c @ [GetNad n]\<rparr>))"
  by (simp add: network_attachment_definition_is_created_def client_get_nad_def
        split: option.splits api_fault.splits)

lemma is_created_not_found:
  "fst (client_get_nad n c) = Inl (ApiError ''NotFound'') \<Longrightarrow>
   network_attachment_definition_is_created n c
     = Return False (c\<lparr>k8s_calls := k8s_calls c @ [GetNad n]\<rparr>)"
  by (simp add: network_attachment_definition_is_created_def client_get_nad_def)

lemma get_nad_log: "fst (client_get_nad n (c\<lparr>k8s_calls := l\<rparr>)) = fst (client_get_nad n c)"
  by (simp add: client_get_nad_def split: option.splits)

lemma is_created_teardown_cases:
  "(\<exists>err f. nad_get_fault c n = Some f \<and> f \<noteq> ApiError ''NotFound''
        \<and> network_attachment_definition_is_created n c
             = Raise err (c\<lparr>k8s_calls := k8s_calls c @ [GetNad n]\<rparr>))
   \<or> (nad_get_fault c n = None \<and> (\<exists>d. nads c n = Some d)
        \<and> network_attachment_definition_is_created n c
             = Return True (c\<lparr>k8s_calls := k8s_calls c @ [GetNad n]\<rparr>))
   \<or> (fst (client_get_nad n c) = Inl (ApiError ''NotFound'')
        \<and> network_attachment_definition_is_created n c
             = Return False (c\<lparr>k8s_calls := k8s_calls c @ [GetNad n]\<rparr>))"
  by (simp add: network_attachment_definition_is_created_def client_get_nad_def
        split: option.splits api_fault.splits)

lemma not_found_fault:
  "fst (client_get_nad n c) = Inl (ApiError ''NotFound'') \<Longrightarrow>
   nad_get_fault c n = Some f \<Longrightarrow> f = ApiError ''NotFound''"
  by (simp add: client_get_nad_def split: option.splits)

lemma delete_existing_writes:
  "\<exists>tr. k8s_calls (final (delete_existing ds c)) = k8s_calls c @ tr
     \<and> k8s_guarded seen tr
     \<and> (\<forall>n. DeleteNad n \<in> set tr \<longrightarrow> nad_get_fault c n = None \<and> (\<exists>d. nads c n = Some d))
     \<and> (\<forall>n. CreateNad n \<notin> set tr)
     \<and> (\<forall>obj. PatchStatefulSet obj \<notin> set tr)
     \<and> (\<not> returns (delete_existing ds c) \<longrightarrow>
          (\<exists>d \<in> set ds. \<exists>f. nad_get_fault c (nad_name d) = Some f \<and> f \<noteq> ApiError ''NotFound''))"
proof (induction ds arbitrary: c seen)
  case Nil
  show ?case by simp
next
  case (Cons d ds)
  let ?n = "nad_name d"
  let ?c1 = "c\<lparr>k8s_calls := k8s_calls c @ [GetNad ?n]\<rparr>"
  consider (raise) err f where "nad_get_fault c ?n = Some f" "f \<noteq> ApiError ''NotFound''"
        "network_attachment_definition_is_created ?n c = Raise err ?c1"
    | (found) d' where "nad_get_fault c ?n = None" "nads c ?n = Some d'"
        "network_attachment_definition_is_created ?n c = Return True ?c1"
    | (missing) "network_attachment_definition_is_created ?n c = Return False ?c1"
    using is_created_teardown_cases[of c ?n] by blast
  then show ?case
  proof cases
    case raise
    show ?thesis
      by (rule exI[of _ "[GetNad ?n]"]) (use raise in simp)
  next
    case found
    let ?c2 = "delete_network_attachment_definition ?n ?c1"
    from Cons.IH[of ?c2 "DeleteNad ?n # GetNad ?n # seen"] obtain tr where
      ih: "k8s_calls (final (delete_existing ds ?c2)) = k8s_calls ?c2 @ tr"
      "k8s_guarded (DeleteNad ?n # GetNad ?n # seen) tr"
      "\<forall>n. DeleteNad n \<in> set tr \<longrightarrow> nad_get_fault ?c2 n = None \<and> (\<exists>d. nads ?c2 n = Some d)"
      "\<forall>n. CreateNad n \<notin> set tr"
      "\<forall>obj. PatchStatefulSet obj \<notin> set tr"
      "\<not> returns (delete_existing ds ?c2) \<longrightarrow>
          (\<exists>d \<in> set ds. \<exists>f. nad_get_fault ?c2 (nad_name d) = Some f \<and> f \<noteq> ApiError ''NotFound'')"
      by blast
    have earlier: "nad_get_fault ?c2 n = nad_get_fault c n"
      "(\<exists>d. nads ?c2 n = Some d) \<Longrightarrow> (\<exists>d. nads c n = Some d)" for n
      by (auto simp: delete_network_attachment_definition_def split: if_splits)
    have step: "delete_existing (d # ds) c = delete_existing ds ?c2"
      using found by simp
    have calls: "k8s_calls (final (delete_existing (d # ds) c))
                   = k8s_calls c @ GetNad ?n # DeleteNad ?n # tr"
      unfolding step using ih(1) by (simp add: delete_network_attachment_definition_def)
    have del: "\<forall>n. DeleteNad n \<in> set (GetNad ?n # DeleteNad ?n # tr)
                 \<longrightarrow> nad_get_fault c n = None \<and> (\<exists>d. nads c n = Some d)"
      using ih(3) found earlier by auto
    have ret: "\<not> returns (delete_existing (d # ds) c) \<longrightarrow>
          (\<exists>d' \<in> set (d # ds). \<exists>f. nad_get_fault c (nad_name d') = Some f \<and> f \<noteq> ApiError ''NotFound'')"
      unfolding step using ih(6) earlier(1) by auto
    show ?thesis
      by (rule exI[of _ "GetNad ?n # DeleteNad ?n # tr"])
         (use calls ih(2,4,5) del ret in simp)
  next
    case missing
    from Cons.IH[of ?c1 "GetNad ?n # seen"] obtain tr where
      ih: "k8s_calls (final (delete_existing ds ?c1)) = k8s_calls ?c1 @ tr"
      "k8s_guarded (GetNad ?n # seen) tr"
      "\<forall>n. DeleteNad n \<in> set tr \<longrightarrow> nad_get_fault ?c1 n = None \<and> (\<exists>d. nads ?c1 n = Some d)"
      "\<forall>n. CreateNad n \<notin> set tr"
      "\<forall>obj. PatchStatefulSet obj \<notin> set tr"
      "\<not> returns (delete_existing ds ?c1) \<longrightarrow>
          (\<exists>d \<in> set ds. \<exists>f. nad_get_fault ?c1 (nad_name d) = Some f \<and> f \<noteq> ApiError ''NotFound'')"
      by blast
    have step: "delete_existing (d # ds) c = delete_existing ds ?c1"
      using missing by simp
    have calls: "k8s_calls (final (delete_existing (d # ds) c)) = k8s_calls c @ GetNad ?n # tr"
      unfolding step using ih(1) by simp
    have del: "\<forall>n. DeleteNad n \<in> set (GetNad ?n # tr)
                 \<longrightarrow> nad_get_fault c n = None \<and> (\<exists>d. nads c n = Some d)"
      using ih(3) by simp
    have ret: "\<not> returns (delete_existing (d # ds) c) \<longrightarrow>
          (\<exists>d' \<in> set (d # ds). \<exists>f. nad_get_fault c (nad_name d') = Some f \<and> f \<noteq> ApiError ''NotFound'')"
      unfolding step using ih(6) by auto
    show ?thesis
      by (rule exI[of _ "GetNad ?n # tr"]) (use calls ih(2,4,5) del ret in simp)
  qed
qed

text \<open>
  Claim C9. Take any desired attachment name and any cluster in which the existence check
  of that name reports NotFound, whatever the state of the other attachments. Then no run
  of the removal path issues a delete for that name. The step of the loop for that
  attachment makes the existence check and goes on to the attachments that follow,
  without raising. And when the removal path does raise, it is for another attachment,
  whose existence check failed with an error other than NotFound.
\<close>

theorem teardown_of_missing_attachments:
  assumes missing: "fst (client_get_nad n c) = Inl (ApiError ''NotFound'')"
  shows "DeleteNad n \<notin> set (k8s_trace_of c (final (on_remove self c)))
       \<and> (\<forall>d rest. nad_name d = n \<longrightarrow>
            delete_existing (d # rest) c
              = delete_existing rest (c\<lparr>k8s_calls := k8s_calls c @ [GetNad n]\<rparr>))
       \<and> (\<not> returns (on_remove self c) \<longrightarrow>
            (\<exists>d \<in> set (network_attachment_definitions self). nad_name d \<noteq> n
               \<and> (\<exists>f. nad_get_fault c (nad_name d) = Some f \<and> f \<noteq> ApiError ''NotFound'')))"
proof -
  from delete_existing_writes[of "network_attachment_definitions self" c "[]"] obtain tr where
    calls: "k8s_calls (final (delete_existing (network_attachment_definitions self) c))
              = k8s_calls c @ tr"
    and del: "\<forall>n. DeleteNad n \<in> set tr \<longrightarrow> nad_get_fault c n = None \<and> (\<exists>d. nads c n = Some d)"
    and ret: "\<not> returns (delete_existing (network_attachment_definitions self) c) \<longrightarrow>
          (\<exists>d \<in> set (network_attachment_definitions self).
              \<exists>f. nad_get_fault c (nad_name d) = Some f \<and> f \<noteq> ApiError ''NotFound'')"
    by blast
  have tr: "k8s_trace_of c (final (on_remove self c)) = tr"
    by (rule k8s_trace_ofI) (simp add: on_remove_def calls)
  have absent: "\<not> (nad_get_fault c n = None \<and> (\<exists>d. nads c n = Some d))"
    using missing by (auto simp: client_get_nad_def split: option.splits)
  have a: "DeleteNad n \<notin> set (k8s_trace_of c (final (on_remove self c)))"
    using del absent unfolding tr by blast
  have b: "\<forall>d rest. nad_name d = n \<longrightarrow>
            delete_existing (d # rest) c
              = delete_existing rest (c\<lparr>k8s_calls := k8s_calls c @ [GetNad n]\<rparr>)"
    using missing by (simp add: is_created_not_found)
  have c: "\<not> returns (on_remove self c) \<longrightarrow>
            (\<exists>d \<in> set (network_attachment_definitions self). nad_name d \<noteq> n
               \<and> (\<exists>f. nad_get_fault c (nad_name d) = Some f \<and> f \<noteq> ApiError ''NotFound''))"
  proof
    assume "\<not> returns (on_remove self c)"
    then obtain d f where d: "d \<in> set (network_attachment_definitions self)"
      and f: "nad_get_fault c (nad_name d) = Some f" "f \<noteq> ApiError ''NotFound''"
      using ret by (auto simp: on_remove_def)
    have "nad_name d \<noteq> n"
      using not_found_fault[OF missing] f by blast
    then show "\<exists>d \<in> set (network_attachment_definitions self). nad_name d \<noteq> n
               \<and> (\<exists>f. nad_get_fault c (nad_name d) = Some f \<and> f \<noteq> ApiError ''NotFound'')"
      using d f by blast
  qed
  show ?thesis using a b c by (intro conjI)
qed

theorem teardown_of_missing_attachments_witness:
  "fst (client_get_nad ''core-net'' mixed_cluster) = Inl (ApiError ''NotFound'')
   \<and> (\<exists>d. fst (client_get_nad ''access-net'' mixed_cluster) = Inr d)
   \<and> DeleteNad ''core-net''
        \<notin> set (k8s_trace_of mixed_cluster (final (on_remove upf_multus mixed_cluster)))
   \<and> returns (on_remove upf_multus mixed_cluster)
   \<and> k8s_trace_of mixed_cluster (final (on_remove upf_multus mixed_cluster))
        = [GetNad ''access-net'', DeleteNad ''access-net'', GetNad ''core-net'']"
proof -
  have missing: "fst (client_get_nad ''core-net'' mixed_cluster) = Inl (ApiError ''NotFound'')"
    by (simp add: client_get_nad_def mixed_cluster_def upf_cluster_def)
  have present: "\<exists>d. fst (client_get_nad ''access-net'' mixed_cluster) = Inr d"
    by (simp add: client_get_nad_def mixed_cluster_def upf_cluster_def)
  note t = teardown_of_missing_attachments [OF missing, of upf_multus]
  have nofault: "\<not> (\<exists>d \<in> set (network_attachment_definitions upf_multus). nad_name d \<noteq> ''core-net''
               \<and> (\<exists>f. nad_get_fault mixed_cluster (nad_name d) = Some f \<and> f \<noteq> ApiError ''NotFound''))"
    by (simp add: mixed_cluster_def upf_cluster_def)
  have ret: "returns (on_remove upf_multus mixed_cluster)"
    using t[THEN conjunct2, THEN conjunct2] nofault by blast
  have tr: "k8s_trace_of mixed_cluster (final (on_remove upf_multus mixed_cluster))
        = [GetNad ''access-net'', DeleteNad ''access-net'', GetNad ''core-net'']"
    by (rule k8s_trace_ofI)
       (simp add: on_remove_def upf_multus_def is_created_eval mixed_cluster_def upf_cluster_def
          delete_network_attachment_definition_def)
  show ?thesis using missing present t[THEN conjunct1] ret tr by (intro conjI)
qed

lemma with_net_admin_idem: "with_net_admin (with_net_admin x) = with_net_admin x"
  by (cases "c_securityContext x") (simp_all add: with_net_admin_def)

lemma with_net_admin_name: "c_name (with_net_admin x) = c_name x"
  by (simp add: with_net_admin_def)

lemma with_net_admin_Some:
  "c_securityContext x = Some sc \<Longrightarrow>
   x\<lparr>c_securityContext := Some (sc\<lparr>sc_capabilities := Some net_admin\<rparr>)\<rparr> = with_net_admin x"
  by (simp add: with_net_admin_def)

lemma set_net_admin_result:
  "set_net_admin sts names c = Return obj c' \<Longrightarrow>
   length (sts_containers sts) = length (sts_containers (statefulset c)) \<Longrightarrow>
     c' = c\<lparr>k8s_calls := k8s_calls c @ replicate (length names) GetStatefulSet\<rparr>
     \<and> obj = sts\<lparr>sts_containers := sts_containers obj\<rparr>
     \<and> length (sts_containers obj) = length (sts_containers sts)
     \<and> (\<forall>i < length (sts_containers sts).
           sts_containers obj ! i =
             (if named_index (sts_containers (statefulset c)) names i
              then with_net_admin (sts_containers sts ! i) else sts_containers sts ! i))
     \<and> (\<forall>n \<in> set names. \<exists>i. first_index (sts_containers (statefulset c)) n = Some i
            \<and> c_securityContext (sts_containers sts ! i) \<noteq> None)"
proof (induction names arbitrary: sts c)
  case Nil
  then show ?case by (cases sts) (simp add: named_index_def)
next
  case (Cons n ns)
  let ?cs = "sts_containers (statefulset c)"
  let ?c1 = "c\<lparr>k8s_calls := k8s_calls c @ [GetStatefulSet]\<rparr>"
  from Cons.prems(1) obtain i where i: "first_index ?cs n = Some i"
    by (cases "first_index ?cs n") (simp_all add: get_index_eval)
  have ib: "i < length (sts_containers sts)"
    using first_index_bound[OF i] Cons.prems(2) by simp
  from Cons.prems(1) i ib obtain sc where sc: "c_securityContext (sts_containers sts ! i) = Some sc"
    by (cases "c_securityContext (sts_containers sts ! i)") (simp_all add: get_index_eval)
  let ?sts1 = "sts\<lparr>sts_containers := (sts_containers sts)[i := with_net_admin (sts_containers sts ! i)]\<rparr>"
  have rec: "set_net_admin ?sts1 ns ?c1 = Return obj c'"
    using Cons.prems(1) i ib sc by (simp add: get_index_eval with_net_admin_Some)
  have len1: "length (sts_containers ?sts1) = length (sts_containers (statefulset ?c1))"
    using Cons.prems(2) by simp
  note ih = Cons.IH[OF rec len1]
  have c': "c' = c\<lparr>k8s_calls := k8s_calls c @ replicate (length (n # ns)) GetStatefulSet\<rparr>"
    using ih by (simp add: replicate_app_Cons_same)
  have obj: "obj = sts\<lparr>sts_containers := sts_containers obj\<rparr>"
  proof -
    have "obj = ?sts1\<lparr>sts_containers := sts_containers obj\<rparr>" using ih by blast
    then show ?thesis by simp
  qed
  have len: "length (sts_containers obj) = length (sts_containers sts)"
    using ih by simp
  have elems: "\<forall>j < length (sts_containers sts).
           sts_containers obj ! j =
             (if named_index ?cs (n # ns) j
              then with_net_admin (sts_containers sts ! j) else sts_containers sts ! j)"
  proof (intro allI impI)
    fix j assume j: "j < length (sts_containers sts)"
    have e: "sts_containers obj ! j =
             (if named_index ?cs ns j
              then with_net_admin (sts_containers ?sts1 ! j) else sts_containers ?sts1 ! j)"
      using ih j by simp
    show "sts_containers obj ! j =
             (if named_index ?cs (n # ns) j
              then with_net_admin (sts_containers sts ! j) else sts_containers sts ! j)"
    proof (cases "j = i")
      case True
      then show ?thesis using e j i by (simp add: named_index_def with_net_admin_idem)
    next
      case False
      then show ?thesis using e j i by (auto simp: named_index_def)
    qed
  qed
  have found: "\<forall>m \<in> set (n # ns). \<exists>k. first_index ?cs m = Some k
            \<and> c_securityContext (sts_containers sts ! k) \<noteq> None"
  proof
    fix m assume "m \<in> set (n # ns)"
    then consider "m = n" | "m \<in> set ns" by auto
    then show "\<exists>k. first_index ?cs m = Some k \<and> c_securityContext (sts_containers sts ! k) \<noteq> None"
    proof cases
      case 1
      then show ?thesis using i sc by simp
    next
      case 2
      then obtain k where k: "first_index ?cs m = Some k"
        and s1: "c_securityContext (sts_containers ?sts1 ! k) \<noteq> None"
        using ih by auto
      have kb: "k < length (sts_containers sts)"
        using first_index_bound[OF k] Cons.prems(2) by simp
      have "c_securityContext (sts_containers sts ! k) \<noteq> None"
      proof (cases "k = i")
        case True then show ?thesis using sc by simp
      next
        case False then show ?thesis using s1 by simp
      qed
      then show ?thesis using k by blast
    qed
  qed
  show ?case using c' obj len elems found by blast
qed

lemma patch_statefulset_result:
  assumes ne: "annos \<noteq> []" and ret: "patch_statefulset annos names c = Return () c'"
  shows "\<exists>obj. c' = c\<lparr>statefulset := obj,
                      k8s_calls := k8s_calls c @ replicate (Suc (length names)) GetStatefulSet
                                     @ [PatchStatefulSet obj]\<rparr>
     \<and> sts_annotations obj = (sts_annotations (statefulset c))(multus_annotation_key \<mapsto> Dumped annos)
     \<and> sts_replicas obj = sts_replicas (statefulset c)
     \<and> sts_service_name obj = sts_service_name (statefulset c)
     \<and> length (sts_containers obj) = length (sts_containers (statefulset c))
     \<and> (\<forall>i < length (sts_containers (statefulset c)).
           sts_containers obj ! i =
             (if named_index (sts_containers (statefulset c)) names i
              then with_net_admin (sts_containers (statefulset c) ! i)
              else sts_containers (statefulset c) ! i))
     \<and> (\<forall>n \<in> set names. \<exists>i. first_index (sts_containers (statefulset c)) n = Some i
            \<and> c_securityContext (sts_containers (statefulset c) ! i) \<noteq> None)"
proof -
  let ?c1 = "c\<lparr>k8s_calls := k8s_calls c @ [GetStatefulSet]\<rparr>"
  let ?sts1 = "(statefulset c)\<lparr>sts_annotations :=
                 (sts_annotations (statefulset c))(multus_annotation_key \<mapsto> json_dumps annos)\<rparr>"
  from ret ne obtain obj c2 where s: "set_net_admin ?sts1 names ?c1 = Return obj c2"
    and c': "c' = client_patch_statefulset obj c2"
    by (cases "set_net_admin ?sts1 names ?c1")
       (simp_all add: patch_statefulset_def client_get_statefulset_def)
  have len: "length (sts_containers ?sts1) = length (sts_containers (statefulset ?c1))" by simp
  note r = set_net_admin_result[OF s len]
  have c2: "c2 = c\<lparr>k8s_calls := k8s_calls c @ replicate (Suc (length names)) GetStatefulSet\<rparr>"
    using r by (simp add: replicate_app_Cons_same)
  have o: "obj = ?sts1\<lparr>sts_containers := sts_containers obj\<rparr>" using r by blast
  have a: "sts_annotations obj = (sts_annotations (statefulset c))(multus_annotation_key \<mapsto> Dumped annos)"
    by (subst o) (simp add: json_dumps_def)
  have b: "sts_replicas obj = sts_replicas (statefulset c)"
    "sts_service_name obj = sts_service_name (statefulset c)"
    by (subst o, simp)+
  have "c' = c\<lparr>statefulset := obj,
                      k8s_calls := k8s_calls c @ replicate (Suc (length names)) GetStatefulSet
                                     @ [PatchStatefulSet obj]\<rparr>"
    by (simp add: c' c2 client_patch_statefulset_def)
  moreover have "length (sts_containers obj) = length (sts_containers (statefulset c))"
    using r by simp
  moreover have "\<forall>i < length (sts_containers (statefulset c)).
           sts_containers obj ! i =
             (if named_index (sts_containers (statefulset c)) names i
              then with_net_admin (sts_containers (statefulset c) ! i)
              else sts_containers (statefulset c) ! i)"
    using r by simp
  moreover have "\<forall>n \<in> set names. \<exists>i. first_index (sts_containers (statefulset c)) n = Some i
            \<and> c_securityContext (sts_containers (statefulset c) ! i) \<noteq> None"
    using r by simp
  ultimately show ?thesis using a b by blast
qed

lemma have_net_admin_patched:
  "\<forall>n \<in> set names. \<exists>i sc caps added.
       first_index (sts_containers (statefulset c)) n = Some i
     \<and> i < length (sts_containers sts)
     \<and> c_securityContext (sts_containers sts ! i) = Some sc
     \<and> sc_capabilities sc = Some caps \<and> cap_add caps = Some added
     \<and> ''NET_ADMIN'' \<in> set added \<Longrightarrow>
   have_net_admin sts names c =
     Return True (c\<lparr>k8s_calls := k8s_calls c @ replicate (length names) GetStatefulSet\<rparr>)"
proof (induction names arbitrary: c)
  case Nil
  then show ?case by simp
next
  case (Cons n ns)
  let ?c1 = "c\<lparr>k8s_calls := k8s_calls c @ [GetStatefulSet]\<rparr>"
  from Cons.prems obtain i sc caps added where
    i: "first_index (sts_containers (statefulset c)) n = Some i"
    and ib: "i < length (sts_containers sts)"
    and sc: "c_securityContext (sts_containers sts ! i) = Some sc"
    and caps: "sc_capabilities sc = Some caps" and added: "cap_add caps = Some added"
    and mem: "''NET_ADMIN'' \<in> set added"
    by auto
  have "have_net_admin sts ns ?c1 =
     Return True (?c1\<lparr>k8s_calls := k8s_calls ?c1 @ replicate (length ns) GetStatefulSet\<rparr>)"
    by (rule Cons.IH) (use Cons.prems in simp)
  then show ?case
    using i ib sc caps added mem by (simp add: get_index_eval replicate_app_Cons_same)
qed

lemma have_net_admin_log:
  "\<exists>v tr. \<forall>l. have_net_admin sts names (c\<lparr>k8s_calls := l\<rparr>)
                = outcome_of v (c\<lparr>k8s_calls := l @ replicate tr GetStatefulSet\<rparr>)"
proof (induction names)
  case Nil
  show ?case
    by (rule exI[of _ "Inr True"], rule exI[of _ 0]) simp
next
  case (Cons n ns)
  then obtain v tr where ih: "\<forall>l. have_net_admin sts ns (c\<lparr>k8s_calls := l\<rparr>)
                = outcome_of v (c\<lparr>k8s_calls := l @ replicate tr GetStatefulSet\<rparr>)"
    by blast
  let ?cs = "sts_containers (statefulset c)"
  show ?case
  proof (cases "first_index ?cs n")
    case None
    show ?thesis
      by (rule exI[of _ "Inl (KubernetesMultusError (''No container named '' @ n @ '' in statefulset''))"],
          rule exI[of _ 1]) (simp add: get_index_eval None)
  next
    case (Some i)
    show ?thesis
    proof (cases "i < length (sts_containers sts)")
      case False
      show ?thesis
        by (rule exI[of _ "Inl IndexError"], rule exI[of _ 1]) (simp add: get_index_eval Some False)
    next
      case ib: True
      show ?thesis
      proof (cases "c_securityContext (sts_containers sts ! i)")
        case None
        show ?thesis
          by (rule exI[of _ "Inl AttributeError"], rule exI[of _ 1])
             (simp add: get_index_eval Some ib None)
      next
        case sc: (Some security_context)
        show ?thesis
        proof (cases "sc_capabilities security_context")
          case None
          show ?thesis
            by (rule exI[of _ "Inl AttributeError"], rule exI[of _ 1])
               (simp add: get_index_eval Some ib sc None)
        next
          case caps: (Some capabilities)
          show ?thesis
          proof (cases "cap_add capabilities")
            case None
            show ?thesis
              by (rule exI[of _ "Inl TypeError"], rule exI[of _ 1])
                 (simp add: get_index_eval Some ib sc caps None)
          next
            case added: (Some added)
            show ?thesis
            proof (cases "''NET_ADMIN'' \<in> set added")
              case False
              show ?thesis
                by (rule exI[of _ "Inr False"], rule exI[of _ 1])
                   (simp add: get_index_eval Some ib sc caps added False)
            next
              case True
              show ?thesis
                by (rule exI[of _ v], rule exI[of _ "Suc tr"])
                   (simp add: get_index_eval Some ib sc caps added True ih replicate_app_Cons_same)
            qed
          qed
        qed
      qed
    qed
  qed
qed

lemma is_patched_log:
  "\<exists>v tr. \<forall>l. statefulset_is_patched annos names (c\<lparr>k8s_calls := l\<rparr>)
                = outcome_of v (c\<lparr>k8s_calls := l @ replicate tr GetStatefulSet\<rparr>)"
proof -
  from have_net_admin_log[of "statefulset c" names c] obtain v tr where
    h: "\<forall>l. have_net_admin (statefulset c) names (c\<lparr>k8s_calls := l\<rparr>)
                = outcome_of v (c\<lparr>k8s_calls := l @ replicate tr GetStatefulSet\<rparr>)"
    by blast
  show ?thesis
  proof (cases "sts_annotations (statefulset c) multus_annotation_key")
    case None
    show ?thesis
      by (rule exI[of _ "Inr False"], rule exI[of _ 1])
         (simp add: statefulset_is_patched_def client_get_statefulset_def None)
  next
    case (Some stored)
    show ?thesis
    proof (cases "json_loads stored")
      case (Inl err)
      show ?thesis
        by (rule exI[of _ "Inl err"], rule exI[of _ 1])
           (simp add: statefulset_is_patched_def client_get_statefulset_def Some Inl)
    next
      case (Inr loaded)
      show ?thesis
      proof (cases "loaded = Some annos")
        case False
        show ?thesis
          by (rule exI[of _ "Inr False"], rule exI[of _ 1])
             (simp add: statefulset_is_patched_def client_get_statefulset_def Some Inr False)
      next
        case True
        show ?thesis
          by (rule exI[of _ v], rule exI[of _ "Suc tr"])
             (simp add: statefulset_is_patched_def client_get_statefulset_def Some Inr True h
                replicate_app_Cons_same)
      qed
    qed
  qed
qed

lemma create_missing_result:
  "create_missing ds c = Return () c1 \<Longrightarrow>
   \<forall>n. nad_get_fault c n \<noteq> Some (ApiError ''NotFound'') \<Longrightarrow>
     nad_get_fault c1 = nad_get_fault c \<and> statefulset c1 = statefulset c
     \<and> (\<forall>d \<in> set ds. nad_get_fault c (nad_name d) = None \<and> nads c1 (nad_name d) \<noteq> None)
     \<and> (\<forall>n. nads c n \<noteq> None \<longrightarrow> nads c1 n \<noteq> None)"
proof (induction ds arbitrary: c)
  case Nil
  then show ?case by simp
next
  case (Cons d ds)
  let ?n = "nad_name d"
  let ?c1 = "c\<lparr>k8s_calls := k8s_calls c @ [GetNad ?n]\<rparr>"
  have nf: "nad_get_fault c ?n = None"
  proof (cases "nad_get_fault c ?n")
    case None then show ?thesis .
  next
    case (Some f)
    then show ?thesis using Cons.prems
      by (cases f) (auto simp: is_created_eval split: if_splits)
  qed
  let ?c2 = "if nads c ?n = None then create_network_attachment_definition d ?c1 else ?c1"
  have rec: "create_missing ds ?c2 = Return () c1"
    using Cons.prems(1) nf by (auto simp: is_created_eval split: if_splits)
  have sane: "\<forall>n. nad_get_fault ?c2 n \<noteq> Some (ApiError ''NotFound'')"
    using Cons.prems(2) by (simp add: create_network_attachment_definition_def)
  note ih = Cons.IH[OF rec sane]
  have here: "nads ?c2 ?n \<noteq> None"
    by (simp add: create_network_attachment_definition_def)
  have keep: "\<forall>n. nads c n \<noteq> None \<longrightarrow> nads ?c2 n \<noteq> None"
    by (simp add: create_network_attachment_definition_def)
  show ?case using ih nf here keep
    by (auto simp: create_network_attachment_definition_def split: if_splits)
qed

lemma create_missing_present:
  "\<forall>d \<in> set ds. nad_get_fault c (nad_name d) = None \<and> nads c (nad_name d) \<noteq> None \<Longrightarrow>
   create_missing ds c =
     Return () (c\<lparr>k8s_calls := k8s_calls c @ map (\<lambda>d. GetNad (nad_name d)) ds\<rparr>)"
proof (induction ds arbitrary: c)
  case Nil
  then show ?case by simp
next
  case (Cons d ds)
  let ?c1 = "c\<lparr>k8s_calls := k8s_calls c @ [GetNad (nad_name d)]\<rparr>"
  have "create_missing ds ?c1 =
     Return () (?c1\<lparr>k8s_calls := k8s_calls ?c1 @ map (\<lambda>d. GetNad (nad_name d)) ds\<rparr>)"
    by (rule Cons.IH) (use Cons.prems in simp)
  then show ?case using Cons.prems by (auto simp: is_created_eval)
qed

lemma upf_patch_statefulset:
  "patch_statefulset (network_annotations upf_multus) [''bessd''] upf_cluster =
     Return ()
       (upf_cluster
          \<lparr>statefulset := upf_statefulset
              \<lparr>sts_annotations := (sts_annotations upf_statefulset)
                  (multus_annotation_key \<mapsto> Dumped (network_annotations upf_multus)),
               sts_containers :=
                 [\<lparr>c_name = ''charm'', c_image = ''charm-base'', c_securityContext = None\<rparr>,
                  \<lparr>c_name = ''bessd'', c_image = ''upf-bess'',
                   c_securityContext =
                     Some \<lparr>sc_capabilities = Some net_admin,
                           sc_privileged = Some True, sc_runAsUser = Some 0\<rparr>\<rparr>,
                  \<lparr>c_name = ''pfcp-agent'', c_image = ''upf-pfcpiface'', c_securityContext = None\<rparr>]\<rparr>,
           k8s_calls :=
             [GetStatefulSet, GetStatefulSet,
              PatchStatefulSet (upf_statefulset
                \<lparr>sts_annotations := (sts_annotations upf_statefulset)
                  (multus_annotation_key \<mapsto> Dumped (network_annotations upf_multus)),
                 sts_containers :=
                 [\<lparr>c_name = ''charm'', c_image = ''charm-base'', c_securityContext = None\<rparr>,
                  \<lparr>c_name = ''bessd'', c_image = ''upf-bess'',
                   c_securityContext =
                     Some \<lparr>sc_capabilities = Some net_admin,
                           sc_privileged = Some True, sc_runAsUser = Some 0\<rparr>\<rparr>,
                  \<lparr>c_name = ''pfcp-agent'', c_image = ''upf-pfcpiface'', c_securityContext = None\<rparr>]\<rparr>)]\<rparr>)"
  by (simp add: patch_statefulset_def upf_multus_def upf_cluster_def upf_statefulset_def
        client_get_statefulset_def get_index_eval client_patch_statefulset_def json_dumps_def)

section \<open>The merge patch\<close>

lemma patch_sets_annotation_and_capability_aux:
  assumes "annos \<noteq> []" and "patch_statefulset annos names c = Return () c'"
  shows "\<exists>obj. statefulset c' = obj
     \<and> sts_annotations obj multus_annotation_key = Some (Dumped annos)
     \<and> (\<forall>n \<in> set names. \<exists>i. first_index (sts_containers obj) n = Some i
            \<and> added_capabilities (sts_containers obj ! i) = [''NET_ADMIN''])"
proof -
  from patch_statefulset_result[OF assms] obtain obj where
    c': "c' = c\<lparr>statefulset := obj,
                      k8s_calls := k8s_calls c @ replicate (Suc (length names)) GetStatefulSet
                                     @ [PatchStatefulSet obj]\<rparr>"
    and a: "sts_annotations obj = (sts_annotations (statefulset c))(multus_annotation_key \<mapsto> Dumped annos)"
    and l: "length (sts_containers obj) = length (sts_containers (statefulset c))"
    and e: "\<forall>i < length (sts_containers (statefulset c)).
           sts_containers obj ! i =
             (if named_index (sts_containers (statefulset c)) names i
              then with_net_admin (sts_containers (statefulset c) ! i)
              else sts_containers (statefulset c) ! i)"
    and f: "\<forall>n \<in> set names. \<exists>i. first_index (sts_containers (statefulset c)) n = Some i
            \<and> c_securityContext (sts_containers (statefulset c) ! i) \<noteq> None"
    by blast
  have names_kept: "map c_name (sts_containers obj) = map c_name (sts_containers (statefulset c))"
  proof (rule nth_equalityI)
    show "length (map c_name (sts_containers obj)) = length (map c_name (sts_containers (statefulset c)))"
      using l by simp
  next
    fix i assume "i < length (map c_name (sts_containers obj))"
    then have ib: "i < length (sts_containers (statefulset c))" using l by simp
    then show "map c_name (sts_containers obj) ! i = map c_name (sts_containers (statefulset c)) ! i"
      using e l by (simp add: with_net_admin_name)
  qed
  have g: "\<forall>n \<in> set names. \<exists>i. first_index (sts_containers obj) n = Some i
            \<and> added_capabilities (sts_containers obj ! i) = [''NET_ADMIN'']"
  proof
    fix m assume m: "m \<in> set names"
    with f obtain i where i: "first_index (sts_containers (statefulset c)) m = Some i"
      and s: "c_securityContext (sts_containers (statefulset c) ! i) \<noteq> None"
      by blast
    have ib: "i < length (sts_containers (statefulset c))"
      using first_index_bound[OF i] by simp
    have "named_index (sts_containers (statefulset c)) names i"
      using m i by (auto simp: named_index_def)
    then have "sts_containers obj ! i = with_net_admin (sts_containers (statefulset c) ! i)"
      using e ib by simp
    then have "added_capabilities (sts_containers obj ! i) = [''NET_ADMIN'']"
      using s by (auto simp: added_capabilities_def with_net_admin_def net_admin_def)
    moreover have "first_index (sts_containers obj) m = Some i"
      using i first_index_names[OF names_kept, of m] by simp
    ultimately show "\<exists>i. first_index (sts_containers obj) m = Some i
            \<and> added_capabilities (sts_containers obj ! i) = [''NET_ADMIN'']"
      by blast
  qed
  show ?thesis
    by (rule exI[of _ obj]) (use a g in \<open>simp add: c'\<close>)
qed

text \<open>
  Claim C8, as the code has it. When \<^verbatim>\<open>patch_statefulset\<close> is given a non-empty list of
  annotations and returns, it has issued one merge patch, after reading the statefulset
  once for itself and once per named container. The object sent, which the cluster then
  holds, has the network annotation set to the desired list and every other annotation,
  the replica count and the service name as before. Every named container is found and
  has a security context; its capabilities are replaced by add = [NET_ADMIN] with nothing
  dropped (capabilities it added or dropped before are not kept), while its name, its
  image and the other fields of its security context stay. Every other container is
  unchanged.
\<close>

theorem patch_sets_annotation_and_capability:
  assumes "annos \<noteq> []" and "patch_statefulset annos names c = Return () c'"
  shows "\<exists>obj. k8s_trace_of c c'
               = replicate (Suc (length names)) GetStatefulSet @ [PatchStatefulSet obj]
     \<and> statefulset c' = obj \<and> nads c' = nads c
     \<and> sts_annotations obj = (sts_annotations (statefulset c))(multus_annotation_key \<mapsto> json_dumps annos)
     \<and> sts_replicas obj = sts_replicas (statefulset c)
     \<and> sts_service_name obj = sts_service_name (statefulset c)
     \<and> length (sts_containers obj) = length (sts_containers (statefulset c))
     \<and> (\<forall>i < length (sts_containers (statefulset c)).
           sts_containers obj ! i =
             (if named_index (sts_containers (statefulset c)) names i
              then with_net_admin (sts_containers (statefulset c) ! i)
              else sts_containers (statefulset c) ! i))
     \<and> (\<forall>n \<in> set names. \<exists>i. first_index (sts_containers (statefulset c)) n = Some i
            \<and> c_securityContext (sts_containers (statefulset c) ! i) \<noteq> None
            \<and> added_capabilities (sts_containers obj ! i) = [''NET_ADMIN''])"
proof -
  from patch_statefulset_result[OF assms] obtain obj where
    c': "c' = c\<lparr>statefulset := obj,
                      k8s_calls := k8s_calls c @ replicate (Suc (length names)) GetStatefulSet
                                     @ [PatchStatefulSet obj]\<rparr>"
    and a: "sts_annotations obj = (sts_annotations (statefulset c))(multus_annotation_key \<mapsto> Dumped annos)"
    and r: "sts_replicas obj = sts_replicas (statefulset c)"
    and n: "sts_service_name obj = sts_service_name (statefulset c)"
    and l: "length (sts_containers obj) = length (sts_containers (statefulset c))"
    and e: "\<forall>i < length (sts_containers (statefulset c)).
           sts_containers obj ! i =
             (if named_index (sts_containers (statefulset c)) names i
              then with_net_admin (sts_containers (statefulset c) ! i)
              else sts_containers (statefulset c) ! i)"
    and f: "\<forall>n \<in> set names. \<exists>i. first_index (sts_containers (statefulset c)) n = Some i
            \<and> c_securityContext (sts_containers (statefulset c) ! i) \<noteq> None"
    by blast
  have t: "k8s_trace_of c c'
               = replicate (Suc (length names)) GetStatefulSet @ [PatchStatefulSet obj]"
    by (rule k8s_trace_ofI) (simp add: c')
  have g: "\<forall>n \<in> set names. \<exists>i. first_index (sts_containers (statefulset c)) n = Some i
            \<and> c_securityContext (sts_containers (statefulset c) ! i) \<noteq> None
            \<and> added_capabilities (sts_containers obj ! i) = [''NET_ADMIN'']"
  proof
    fix m assume m: "m \<in> set names"
    with f obtain i where i: "first_index (sts_containers (statefulset c)) m = Some i"
      and s: "c_securityContext (sts_containers (statefulset c) ! i) \<noteq> None"
      by blast
    have ib: "i < length (sts_containers (statefulset c))"
      using first_index_bound[OF i] by simp
    have "named_index (sts_containers (statefulset c)) names i"
      using m i by (auto simp: named_index_def)
    then have "sts_containers obj ! i = with_net_admin (sts_containers (statefulset c) ! i)"
      using e ib by simp
    then have "added_capabilities (sts_containers obj ! i) = [''NET_ADMIN'']"
      using s by (auto simp: added_capabilities_def with_net_admin_def net_admin_def)
    then show "\<exists>i. first_index (sts_containers (statefulset c)) m = Some i
            \<and> c_securityContext (sts_containers (statefulset c) ! i) \<noteq> None
            \<and> added_capabilities (sts_containers obj ! i) = [''NET_ADMIN'']"
      using i s by blast
  qed
  have st: "statefulset c' = obj" "nads c' = nads c" by (simp_all add: c')
  show ?thesis
    by (rule exI[of _ obj]) (use t st a r n l e g in \<open>simp add: json_dumps_def\<close>)
qed

theorem patch_sets_annotation_and_capability_witness:
  "network_annotations upf_multus \<noteq> []
   \<and> returns (patch_statefulset (network_annotations upf_multus) [''bessd''] upf_cluster)
   \<and> sts_annotations (statefulset (final
          (patch_statefulset (network_annotations upf_multus) [''bessd''] upf_cluster)))
        = (sts_annotations (statefulset upf_cluster))
            (multus_annotation_key \<mapsto> json_dumps (network_annotations upf_multus))
   \<and> length (sts_containers (statefulset (final
          (patch_statefulset (network_annotations upf_multus) [''bessd''] upf_cluster))))
        = length (sts_containers (statefulset upf_cluster))"
proof -
  define c' where "c' = final (patch_statefulset (network_annotations upf_multus) [''bessd''] upf_cluster)"
  have ne: "network_annotations upf_multus \<noteq> []"
    by (simp add: upf_multus_def)
  have ret: "patch_statefulset (network_annotations upf_multus) [''bessd''] upf_cluster = Return () c'"
    by (simp add: c'_def upf_patch_statefulset)
  from patch_sets_annotation_and_capability [OF ne ret]
  have "sts_annotations (statefulset c')
        = (sts_annotations (statefulset upf_cluster))
            (multus_annotation_key \<mapsto> json_dumps (network_annotations upf_multus))
      \<and> length (sts_containers (statefulset c')) = length (sts_containers (statefulset upf_cluster))"
    by auto
  then show ?thesis using ne ret by (simp add: c'_def[symmetric])
qed

text \<open>
  The claim as the specification words it fails: a named container that had added
  SYS_TIME loses it, where an append would have kept it.
\<close>

theorem patch_replaces_capabilities_counterexample:
  "first_index (sts_containers (statefulset upf_cluster)) ''bessd'' = Some 1
   \<and> added_capabilities (sts_containers (statefulset upf_cluster) ! 1) = [''SYS_TIME'']
   \<and> added_capabilities (sts_containers (statefulset (final
        (patch_statefulset (network_annotations upf_multus) [''bessd''] upf_cluster))) ! 1)
       = [''NET_ADMIN'']
   \<and> ''SYS_TIME'' \<notin> set (added_capabilities (sts_containers (statefulset (final
        (patch_statefulset (network_annotations upf_multus) [''bessd''] upf_cluster))) ! 1))"
  by (simp add: upf_patch_statefulset)
     (simp add: upf_cluster_def upf_statefulset_def added_capabilities_def net_admin_def)

section \<open>Reconciling twice\<close>

lemma is_patched_after_patch:
  assumes a: "sts_annotations (statefulset c) multus_annotation_key = Some (Dumped annos)"
    and h: "\<forall>n \<in> set names. \<exists>i. first_index (sts_containers (statefulset c)) n = Some i
            \<and> added_capabilities (sts_containers (statefulset c) ! i) = [''NET_ADMIN'']"
  shows "statefulset_is_patched annos names c =
     Return True (c\<lparr>k8s_calls := k8s_calls c @ replicate (Suc (length names)) GetStatefulSet\<rparr>)"
proof -
  let ?c1 = "c\<lparr>k8s_calls := k8s_calls c @ [GetStatefulSet]\<rparr>"
  have "\<forall>n \<in> set names. \<exists>i sc caps added.
       first_index (sts_containers (statefulset ?c1)) n = Some i
     \<and> i < length (sts_containers (statefulset c))
     \<and> c_securityContext (sts_containers (statefulset c) ! i) = Some sc
     \<and> sc_capabilities sc = Some caps \<and> cap_add caps = Some added
     \<and> ''NET_ADMIN'' \<in> set added"
  proof
    fix n assume "n \<in> set names"
    with h obtain i where i: "first_index (sts_containers (statefulset c)) n = Some i"
      and ad: "added_capabilities (sts_containers (statefulset c) ! i) = [''NET_ADMIN'']"
      by blast
    have ib: "i < length (sts_containers (statefulset c))" using first_index_bound[OF i] by simp
    from ad obtain sc caps added where
      "c_securityContext (sts_containers (statefulset c) ! i) = Some sc"
      "sc_capabilities sc = Some caps" "cap_add caps = Some added" "''NET_ADMIN'' \<in> set added"
      by (auto simp: added_capabilities_def split: option.splits)
    then show "\<exists>i sc caps added.
       first_index (sts_containers (statefulset ?c1)) n = Some i
     \<and> i < length (sts_containers (statefulset c))
     \<and> c_securityContext (sts_containers (statefulset c) ! i) = Some sc
     \<and> sc_capabilities sc = Some caps \<and> cap_add caps = Some added
     \<and> ''NET_ADMIN'' \<in> set added"
      using i ib by auto
  qed
  then have "have_net_admin (statefulset c) names ?c1 =
     Return True (?c1\<lparr>k8s_calls := k8s_calls ?c1 @ replicate (length names) GetStatefulSet\<rparr>)"
    by (rule have_net_admin_patched)
  then show ?thesis
    using a by (simp add: statefulset_is_patched_def client_get_statefulset_def replicate_app_Cons_same)
qed

lemma patch_statefulset_frame:
  "nads (final (patch_statefulset annos names c)) = nads c
   \<and> nad_get_fault (final (patch_statefulset annos names c)) = nad_get_fault c"
proof (cases "annos = []")
  case True
  then show ?thesis by (simp add: patch_statefulset_def)
next
  case False
  have g: "nads (final (set_net_admin sts names c0)) = nads c0
        \<and> nad_get_fault (final (set_net_admin sts names c0)) = nad_get_fault c0" for sts c0
  proof (induction names arbitrary: sts c0)
    case Nil then show ?case by simp
  next
    case (Cons n ns)
    show ?case
      by (cases "first_index (sts_containers (statefulset c0)) n")
         (auto simp: get_index_eval Cons split: option.splits)
  qed
  show ?thesis
    using False g[of "(statefulset c)\<lparr>sts_annotations :=
                 (sts_annotations (statefulset c))(multus_annotation_key \<mapsto> json_dumps annos)\<rparr>"
                "c\<lparr>k8s_calls := k8s_calls c @ [GetStatefulSet]\<rparr>"]
    by (cases "set_net_admin ((statefulset c)\<lparr>sts_annotations :=
                 (sts_annotations (statefulset c))(multus_annotation_key \<mapsto> json_dumps annos)\<rparr>)
                names (c\<lparr>k8s_calls := k8s_calls c @ [GetStatefulSet]\<rparr>)")
       (simp_all add: patch_statefulset_def client_get_statefulset_def client_patch_statefulset_def)
qed

lemma relog: "c1 = ca\<lparr>k8s_calls := y\<rparr> \<Longrightarrow> c1\<lparr>k8s_calls := x\<rparr> = ca\<lparr>k8s_calls := x\<rparr>"
  by simp

lemma no_writes_in_reads:
  "filter k8s_is_write (map (\<lambda>d. GetNad (nad_name d)) ds @ replicate k GetStatefulSet) = []"
  by (simp add: filter_empty_conv)

text \<open>
  Claim C7. The cluster answers NotFound only for an attachment that does not exist. If
  one invocation of \<^verbatim>\<open>_patch\<close> returns, a second invocation with the same desired
  attachment definitions, annotations and containers, on the cluster the first one left,
  returns as well and issues no create and no patch: all its calls are reads, and the
  attachments and the statefulset stay as they were.
\<close>

theorem patch_twice_writes_nothing:
  assumes sane: "\<forall>n. nad_get_fault c n \<noteq> Some (ApiError ''NotFound'')"
    and first: "patch self c = Return () c1"
  shows "\<exists>c2. patch self c1 = Return () c2
       \<and> filter k8s_is_write (k8s_trace_of c1 c2) = []
       \<and> nads c2 = nads c1 \<and> statefulset c2 = statefulset c1"
proof -
  let ?ds = "network_attachment_definitions self"
  let ?annos = "network_annotations self"
  let ?names = "containers_requiring_net_admin_capability self"
  from first obtain ca where cm: "create_missing ?ds c = Return () ca"
    by (cases "create_missing ?ds c") (simp_all add: patch_def)
  note ra = create_missing_result[OF cm sane]
  from is_patched_log[of ?annos ?names ca] obtain v tr where
    lg: "\<forall>l. statefulset_is_patched ?annos ?names (ca\<lparr>k8s_calls := l\<rparr>)
                = outcome_of v (ca\<lparr>k8s_calls := l @ replicate tr GetStatefulSet\<rparr>)"
    by blast
  let ?cb = "ca\<lparr>k8s_calls := k8s_calls ca @ replicate tr GetStatefulSet\<rparr>"
  have ipa: "statefulset_is_patched ?annos ?names ca = outcome_of v ?cb"
    using lg[rule_format, of "k8s_calls ca"] by simp
  from first cm ipa obtain patched where v: "v = Inr patched"
    by (cases v) (simp_all add: patch_def)
  have first': "c1 = (if \<not> patched then final (patch_statefulset ?annos ?names ?cb) else ?cb)"
    "\<not> patched \<longrightarrow> patch_statefulset ?annos ?names ?cb = Return () c1"
    using first cm ipa v by (auto simp: patch_def split: outcome.splits)
  have n1: "nads c1 = nads ca" and f1: "nad_get_fault c1 = nad_get_fault c"
    using first'(1) patch_statefulset_frame[of ?annos ?names ?cb] ra by (auto split: if_splits)
  have present: "\<forall>d \<in> set ?ds. nad_get_fault c1 (nad_name d) = None \<and> nads c1 (nad_name d) \<noteq> None"
    using ra n1 f1 by simp
  let ?l2 = "k8s_calls c1 @ map (\<lambda>d. GetNad (nad_name d)) ?ds"
  let ?c2a = "c1\<lparr>k8s_calls := ?l2\<rparr>"
  have cm2: "create_missing ?ds c1 = Return () ?c2a"
    using present by (rule create_missing_present)
  show ?thesis
  proof (cases "patched \<or> ?annos = []")
    case True
    have c1: "c1 = ?cb"
      using first'(1) True by (auto simp: patch_statefulset_def)
    have same: "?c2a = ca\<lparr>k8s_calls := ?l2\<rparr>"
      by (rule relog[OF c1])
    have ip2: "statefulset_is_patched ?annos ?names ?c2a
        = Return patched (ca\<lparr>k8s_calls := ?l2 @ replicate tr GetStatefulSet\<rparr>)"
      using lg[rule_format, of ?l2] v by (simp add: same)
    let ?c2 = "c1\<lparr>k8s_calls := ?l2 @ replicate tr GetStatefulSet\<rparr>"
    have c2eq: "?c2 = ca\<lparr>k8s_calls := ?l2 @ replicate tr GetStatefulSet\<rparr>"
      by (rule relog[OF c1])
    have p2': "patch self c1 = Return () (ca\<lparr>k8s_calls := ?l2 @ replicate tr GetStatefulSet\<rparr>)"
      using True by (auto simp: patch_def cm2 ip2 patch_statefulset_def)
    have p2: "patch self c1 = Return () ?c2"
      unfolding c2eq by (rule p2')
    have t2: "k8s_trace_of c1 ?c2 = map (\<lambda>d. GetNad (nad_name d)) ?ds @ replicate tr GetStatefulSet"
      by (rule k8s_trace_ofI) simp
    have w2: "filter k8s_is_write (k8s_trace_of c1 ?c2) = []"
      unfolding t2 by (rule no_writes_in_reads)
    have fr: "nads ?c2 = nads c1" "statefulset ?c2 = statefulset c1" by simp_all
    show ?thesis
      using p2 w2 fr by (intro exI[of _ ?c2] conjI)
  next
    case False
    then have np: "\<not> patched" and ne: "?annos \<noteq> []" by auto
    have ret: "patch_statefulset ?annos ?names ?cb = Return () c1"
      using first'(2) np by simp
    from patch_sets_annotation_and_capability_aux[OF ne ret] obtain obj where
      st: "statefulset c1 = obj"
      and a: "sts_annotations obj multus_annotation_key = Some (Dumped ?annos)"
      and g: "\<forall>n \<in> set ?names. \<exists>i. first_index (sts_containers obj) n = Some i
            \<and> added_capabilities (sts_containers obj ! i) = [''NET_ADMIN'']"
      by blast
    have ip2: "statefulset_is_patched ?annos ?names ?c2a =
       Return True (?c2a\<lparr>k8s_calls := k8s_calls ?c2a @ replicate (Suc (length ?names)) GetStatefulSet\<rparr>)"
      by (rule is_patched_after_patch) (use st a g in simp_all)
    let ?c2 = "c1\<lparr>k8s_calls := ?l2 @ replicate (Suc (length ?names)) GetStatefulSet\<rparr>"
    have p2: "patch self c1 = Return () ?c2"
      using cm2 ip2 by (simp add: patch_def)
    have t2: "k8s_trace_of c1 ?c2
        = map (\<lambda>d. GetNad (nad_name d)) ?ds @ replicate (Suc (length ?names)) GetStatefulSet"
      by (rule k8s_trace_ofI) simp
    have w2: "filter k8s_is_write (k8s_trace_of c1 ?c2) = []"
      unfolding t2 by (rule no_writes_in_reads)
    have fr: "nads ?c2 = nads c1" "statefulset ?c2 = statefulset c1" by simp_all
    show ?thesis
      using p2 w2 fr by (intro exI[of _ ?c2] conjI)
  qed
qed

lemma upf_first_patch:
  "returns (patch upf_multus upf_cluster)
   \<and> filter k8s_is_write (k8s_trace_of upf_cluster (final (patch upf_multus upf_cluster)))
       = [CreateNad ''access-net'', CreateNad ''core-net'',
          PatchStatefulSet (statefulset (final (patch upf_multus upf_cluster)))]"
  by (simp add: patch_def upf_multus_def upf_cluster_def upf_statefulset_def is_created_eval
        create_network_attachment_definition_def statefulset_is_patched_def
        client_get_statefulset_def multus_annotation_key_def patch_statefulset_def get_index_eval
        client_patch_statefulset_def k8s_trace_of_def)

theorem patch_twice_writes_nothing_witness:
  "(\<forall>n. nad_get_fault upf_cluster n \<noteq> Some (ApiError ''NotFound''))
   \<and> returns (patch upf_multus upf_cluster)
   \<and> filter k8s_is_write (k8s_trace_of upf_cluster (final (patch upf_multus upf_cluster)))
       = [CreateNad ''access-net'', CreateNad ''core-net'',
          PatchStatefulSet (statefulset (final (patch upf_multus upf_cluster)))]
   \<and> (\<exists>c2. patch upf_multus (final (patch upf_multus upf_cluster)) = Return () c2
         \<and> filter k8s_is_write (k8s_trace_of (final (patch upf_multus upf_cluster)) c2) = [])"
proof -
  have sane: "\<forall>n. nad_get_fault upf_cluster n \<noteq> Some (ApiError ''NotFound'')"
    by (simp add: upf_cluster_def)
  have first: "patch upf_multus upf_cluster = Return () (final (patch upf_multus upf_cluster))"
    using upf_first_patch by (cases "patch upf_multus upf_cluster") simp_all
  from patch_twice_writes_nothing [OF sane first]
  have "\<exists>c2. patch upf_multus (final (patch upf_multus upf_cluster)) = Return () c2
         \<and> filter k8s_is_write (k8s_trace_of (final (patch upf_multus upf_cluster)) c2) = []"
    by blast
  then show ?thesis using sane upf_first_patch by (intro conjI) simp_all
qed

section \<open>Reads before writes\<close>

lemma guarded_mem:
  "guarded seen tr \<Longrightarrow> c \<in> set tr \<Longrightarrow> required_read c = Some r \<Longrightarrow> r \<in> set seen \<union> set tr"
proof (induction tr arbitrary: seen)
  case Nil
  then show ?case by simp
next
  case (Cons x xs)
  show ?case
  proof (cases "c = x")
    case True
    then show ?thesis using Cons.prems by simp
  next
    case False
    then have "c \<in> set xs" using Cons.prems(2) by simp
    moreover have "guarded (x # seen) xs" using Cons.prems(1) by simp
    ultimately have "r \<in> set (x # seen) \<union> set xs" using Cons.IH Cons.prems(3) by blast
    then show ?thesis by auto
  qed
qed

lemma guarded_attempts: "guarded seen (concat (replicate k failed_attempt))"
proof (induction k arbitrary: seen)
  case 0
  then show ?case by simp
next
  case (Suc k)
  have "guarded seen failed_attempt" by (simp add: failed_attempt_def)
  then show ?case using Suc by (simp add: guarded_append)
qed

lemma guarded_bootstrap: "bootstrap_trace s E \<Longrightarrow> guarded seen E"
  by (auto simp: bootstrap_trace_def guarded_append guarded_attempts)

lemma guarded_config: "guarded seen (config_trace self s)"
  by (simp add: config_trace_def)

lemma guarded_layer: "guarded seen (layer_trace self s)"
  by (simp add: layer_trace_def)

lemma guarded_decisions:
  "GetPlan \<in> set seen \<Longrightarrow> Pull config_file_path \<in> set seen \<Longrightarrow>
   guarded seen (decision_calls self s)"
  by (simp add: decision_calls_def)

lemma guarded_split:
  "guarded seen tr \<Longrightarrow> tr = pre @ w # post \<Longrightarrow> required_read w = Some r \<Longrightarrow>
   r \<in> set seen \<union> set pre"
  by (auto simp: guarded_append)

lemma reads_first:
  assumes g: "guarded [] tr"
    and kinds: "\<forall>w \<in> set tr. is_write w \<longrightarrow> exempt w \<or> required_read w \<noteq> None"
  shows "\<forall>pre w post. tr = pre @ w # post \<and> is_write w \<longrightarrow>
           exempt w \<or> (\<exists>r. required_read w = Some r \<and> r \<in> set pre)"
proof (intro allI impI)
  fix pre w post
  assume a: "tr = pre @ w # post \<and> is_write w"
  then have "w \<in> set tr" by simp
  then have "exempt w \<or> required_read w \<noteq> None" using kinds a by blast
  then show "exempt w \<or> (\<exists>r. required_read w = Some r \<and> r \<in> set pre)"
  proof
    assume "exempt w"
    then show ?thesis ..
  next
    assume "required_read w \<noteq> None"
    then obtain r where r: "required_read w = Some r" by blast
    from guarded_split[OF g _ r, of pre post] a have "r \<in> set pre" by simp
    then show ?thesis using r by blast
  qed
qed

lemma bootstrap_members:
  "bootstrap_trace s E \<Longrightarrow> c \<in> set E \<Longrightarrow>
   c = Exists marker_file_path \<or> c = Sleep 2
   \<or> (c = Exec BessctlRun False \<or> c = Exec BessctlRun True \<or> c = Push marker_file_path)
       \<and> marker_file s = None"
proof -
  assume b: "bootstrap_trace s E" and c: "c \<in> set E"
  from b obtain k ending where E: "E = concat (replicate k failed_attempt) @ ending"
    and k: "0 < k \<longrightarrow> marker_file s = None"
    and d: "ending = [] \<or> ending = [Exists marker_file_path] \<and> k = 0 \<and> marker_file s \<noteq> None
           \<or> ending = [Exists marker_file_path, Exec BessctlRun True, Push marker_file_path]
              \<and> marker_file s = None"
    by (auto simp: bootstrap_trace_def)
  from c E consider "c \<in> set (concat (replicate k failed_attempt))" | "c \<in> set ending" by auto
  then show ?thesis
  proof cases
    case 1
    then have "0 < k" by (cases k) auto
    then have "marker_file s = None" using k by simp
    moreover have "c \<in> {Exists marker_file_path, Exec BessctlRun False, Sleep 2}"
      using 1 attempts_members[of k] by blast
    ultimately show ?thesis by auto
  next
    case 2
    then show ?thesis using d by auto
  qed
qed

lemma ensure_route_first:
  "\<exists>ok B'. calls (final (ensure_routes_and_rule e self s))
              = calls s @ Exec (default_route_cmd self) ok # B'
      \<and> (ok \<longrightarrow> (\<exists>ok'. Exec (ran_route_cmd self) ok' \<in> set B'))
      \<and> (\<not> ok \<longrightarrow> B' = [] \<and> \<not> returns (ensure_routes_and_rule e self s))"
proof (cases "exec_ok e (execs s) (default_route_cmd self)")
  case False
  show ?thesis
    by (rule exI[of _ False], rule exI[of _ "[]"])
       (use False in \<open>simp add: ensure_routes_and_rule_def gateway_defs default_route_cmd_def Let_def\<close>)
next
  case True
  define s1 where "s1 = final (create_default_route e self s)"
  have d: "create_default_route e self s = Return () s1"
    "calls s1 = calls s @ [Exec (default_route_cmd self) True]"
    using True by (simp_all add: s1_def gateway_defs default_route_cmd_def Let_def)
  define ok' where "ok' = exec_ok e (execs s1) (ran_route_cmd self)"
  have r: "calls (final (create_ran_route e self s1)) = calls s1 @ [Exec (ran_route_cmd self) ok']"
    by (simp add: gateway_defs ran_route_cmd_def Let_def ok'_def)
  have "\<exists>B''. calls (final (ensure_routes_and_rule e self s))
              = calls s1 @ Exec (ran_route_cmd self) ok' # B''"
  proof (cases "create_ran_route e self s1")
    case (Raise err s2)
    then show ?thesis using r by (simp add: ensure_routes_and_rule_def d(1))
  next
    case (Return u s2)
    have c2: "calls s2 = calls s1 @ [Exec (ran_route_cmd self) ok']"
      using r Return by simp
    show ?thesis
      using c2
      by (auto simp: ensure_routes_and_rule_def d(1) Return ip_tables_rule_exists_def
            create_ip_tables_rule_def exec_command_in_bessd_workload_def Let_def)
  qed
  then obtain B'' where "calls (final (ensure_routes_and_rule e self s))
              = calls s1 @ Exec (ran_route_cmd self) ok' # B''" ..
  then have "calls (final (ensure_routes_and_rule e self s))
              = calls s @ Exec (default_route_cmd self) True # Exec (ran_route_cmd self) ok' # B''"
    using d(2) by simp
  then show ?thesis
    by (intro exI[of _ True] exI[of _ "Exec (ran_route_cmd self) ok' # B''"]) auto
qed

lemma config_trace_members:
  "x \<in> set (config_trace self s) \<Longrightarrow>
   x = Exists config_file_path \<or> x = Pull config_file_path
   \<or> x = Push config_file_path \<and> config_file s \<noteq> Some (desired_content self)"
  by (auto simp: config_trace_def split: if_splits)

lemma route_call_members:
  "route_call self x \<Longrightarrow>
   (\<exists>ok. x = Exec (default_route_cmd self) ok) \<or> (\<exists>ok. x = Exec (ran_route_cmd self) ok)
   \<or> (\<exists>ok. x = Exec IptablesCheck ok) \<or> (\<exists>ok. x = Exec IptablesInsert ok)"
  by (auto simp: route_call_def)

lemma layer_trace_members:
  "x \<in> set (layer_trace self s) \<Longrightarrow>
   x = GetPlan \<or> x = AddLayer ''bessd'' \<and> plan_services s \<noteq> services (bessd_pebble_layer self)"
  by (auto simp: layer_trace_def split: if_splits)

lemma stored_hwcksum:
  "(dict_get_hwcksum stored \<noteq> PyBool flag)
     = (case stored of None \<Rightarrow> True | Some d \<Rightarrow> doc_hwcksum d \<noteq> flag)"
  by (simp add: dict_get_hwcksum_def split: option.splits)

lemma decision_calls_members:
  "x \<in> set (decision_calls self s) \<Longrightarrow>
   x = DeletePod \<and> config_file s \<noteq> Some (desired_content self)
     \<and> (case config_file s of
          None \<Rightarrow> True
        | Some d \<Rightarrow> doc_hwcksum d \<noteq> enable_hw_checksum (charm_config self))
   \<or> (x = Restart routectl_service_name \<or> x = Restart bessd_service_name)
     \<and> (config_file s \<noteq> Some (desired_content self)
        \<or> plan_services s \<noteq> services (bessd_pebble_layer self))"
  unfolding stored_hwcksum[symmetric]
  by (auto simp: decision_calls_def split: if_splits)

text \<open>
  The calls of a pass of the Configuration Reconciler, each with what the state at entry
  must have been for the call to be made.
\<close>

lemma configure_call_kinds:
  assumes x: "x \<in> set (trace_of s (final (configure_bessd_workload e self s)))"
  shows "x = Exists config_file_path \<or> x = Pull config_file_path
   \<or> x = Push config_file_path \<and> config_file s \<noteq> Some (desired_content self)
   \<or> (\<exists>ok. x = Exec (default_route_cmd self) ok) \<or> (\<exists>ok. x = Exec (ran_route_cmd self) ok)
   \<or> (\<exists>ok. x = Exec IptablesCheck ok) \<or> (\<exists>ok. x = Exec IptablesInsert ok)
   \<or> x = GetPlan
   \<or> x = AddLayer ''bessd'' \<and> plan_services s \<noteq> services (bessd_pebble_layer self)
   \<or> x = DeletePod \<and> config_file s \<noteq> Some (desired_content self)
       \<and> (case config_file s of
            None \<Rightarrow> True
          | Some d \<Rightarrow> doc_hwcksum d \<noteq> enable_hw_checksum (charm_config self))
   \<or> (x = Restart routectl_service_name \<or> x = Restart bessd_service_name)
       \<and> (config_file s \<noteq> Some (desired_content self)
          \<or> plan_services s \<noteq> services (bessd_pebble_layer self))
   \<or> x = Exists marker_file_path \<or> x = Sleep 2
   \<or> (x = Exec BessctlRun False \<or> x = Exec BessctlRun True \<or> x = Push marker_file_path)
       \<and> marker_file s = None"
proof -
  let ?tr = "trace_of s (final (configure_bessd_workload e self s))"
  let ?ret = "returns (ensure_routes_and_rule e self (after_config self s))"
  from configure_trace[of self s e] obtain B E where
    Br: "\<forall>c \<in> set B. route_call self c" and Eb: "bootstrap_trace s E"
    and c: "calls (final (configure_bessd_workload e self s)) =
         calls s @ config_trace self s @ B
           @ (if ?ret then layer_trace self s @ decision_calls self s @ E else [])"
    by blast
  have t: "?tr = config_trace self s @ B
           @ (if ?ret then layer_trace self s @ decision_calls self s @ E else [])"
    using c by (rule trace_ofI)
  from x consider "x \<in> set (config_trace self s)" | "x \<in> set B"
    | "x \<in> set (layer_trace self s)" | "x \<in> set (decision_calls self s)" | "x \<in> set E"
    by (auto simp: t split: if_splits)
  then show ?thesis
  proof cases
    case 1
    from config_trace_members[OF this] show ?thesis by blast
  next
    case 2
    then have "route_call self x" using Br by blast
    from route_call_members[OF this] show ?thesis by blast
  next
    case 3
    from layer_trace_members[OF this] show ?thesis by blast
  next
    case 4
    from decision_calls_members[OF this] show ?thesis by blast
  next
    case 5
    from bootstrap_members[OF Eb this] show ?thesis by blast
  qed
qed

lemma route_cmd_kinds:
  "default_route_cmd self \<noteq> IptablesCheck" "default_route_cmd self \<noteq> IptablesInsert"
  "default_route_cmd self \<noteq> BessctlRun" "ran_route_cmd self \<noteq> IptablesCheck"
  "ran_route_cmd self \<noteq> IptablesInsert" "ran_route_cmd self \<noteq> BessctlRun"
  "default_route_cmd self \<noteq> ran_route_cmd self"
  by (simp_all add: default_route_cmd_def ran_route_cmd_def)

lemma configure_writes:
  fixes e :: env and self :: charm and s :: cstate
  defines "T \<equiv> trace_of s (final (configure_bessd_workload e self s))"
  shows "guarded [] T"
    and "\<forall>w \<in> set T. is_write w \<longrightarrow>
           (\<exists>ok. w = Exec (default_route_cmd self) ok \<or> w = Exec (ran_route_cmd self) ok)
           \<or> required_read w \<noteq> None"
    and "Push config_file_path \<in> set T \<longrightarrow> config_file s \<noteq> Some (desired_content self)"
    and "DeletePod \<in> set T \<longrightarrow>
           config_file s \<noteq> Some (desired_content self)
           \<and> (case config_file s of
                None \<Rightarrow> True
              | Some d \<Rightarrow> doc_hwcksum d \<noteq> enable_hw_checksum (charm_config self))"
    and "\<forall>label. AddLayer label \<in> set T
           \<longrightarrow> plan_services s \<noteq> services (bessd_pebble_layer self)"
    and "\<forall>service_name. Restart service_name \<in> set T \<longrightarrow>
           config_file s \<noteq> Some (desired_content self)
           \<or> plan_services s \<noteq> services (bessd_pebble_layer self)"
    and "\<forall>ok. Exec BessctlRun ok \<in> set T \<longrightarrow> marker_file s = None"
    and "Push marker_file_path \<in> set T \<longrightarrow> marker_file s = None"
    and "\<exists>pre ok post. T = pre @ Exec (default_route_cmd self) ok # post
           \<and> set pre \<subseteq> {Exists config_file_path, Pull config_file_path, Push config_file_path}"
    and "Exec (default_route_cmd self) True \<in> set T
           \<longrightarrow> (\<exists>ok. Exec (ran_route_cmd self) ok \<in> set T)"
proof -
  let ?ret = "returns (ensure_routes_and_rule e self (after_config self s))"
  from configure_trace[of self s e] obtain B E where
    Br: "\<forall>c \<in> set B. route_call self c" and Bg: "\<forall>seen. guarded seen B"
    and Eb: "bootstrap_trace s E"
    and en: "calls (final (ensure_routes_and_rule e self (after_config self s)))
           = calls s @ config_trace self s @ B"
    and c: "calls (final (configure_bessd_workload e self s)) =
         calls s @ config_trace self s @ B
           @ (if ?ret then layer_trace self s @ decision_calls self s @ E else [])"
    by blast
  have t: "T = config_trace self s @ B
           @ (if ?ret then layer_trace self s @ decision_calls self s @ E else [])"
    unfolding T_def using c by (rule trace_ofI)
  have pull: "Pull config_file_path \<in> set (config_trace self s)"
    by (simp add: config_trace_def)
  have plan: "GetPlan \<in> set (layer_trace self s)"
    by (simp add: layer_trace_def)
  have gd: "guarded (rev (layer_trace self s) @ rev B @ rev (config_trace self s)) (decision_calls self s)"
    by (rule guarded_decisions) (use pull plan in auto)
  show g: "guarded [] T"
    by (simp add: t guarded_append guarded_config Bg guarded_layer gd guarded_bootstrap[OF Eb])
  note kinds = configure_call_kinds[of _ s e self, folded T_def]
  show "\<forall>w \<in> set T. is_write w \<longrightarrow>
           (\<exists>ok. w = Exec (default_route_cmd self) ok \<or> w = Exec (ran_route_cmd self) ok)
           \<or> required_read w \<noteq> None"
  proof (intro ballI impI)
    fix w
    assume w: "w \<in> set T" and "is_write w"
    with kinds[OF w] show "(\<exists>ok. w = Exec (default_route_cmd self) ok \<or> w = Exec (ran_route_cmd self) ok)
           \<or> required_read w \<noteq> None"
      by auto
  qed
  show "Push config_file_path \<in> set T \<longrightarrow> config_file s \<noteq> Some (desired_content self)"
  proof
    assume "Push config_file_path \<in> set T"
    from kinds[OF this] show "config_file s \<noteq> Some (desired_content self)"
      using paths_differ by auto
  qed
  show "DeletePod \<in> set T \<longrightarrow>
           config_file s \<noteq> Some (desired_content self)
           \<and> (case config_file s of
                None \<Rightarrow> True
              | Some d \<Rightarrow> doc_hwcksum d \<noteq> enable_hw_checksum (charm_config self))"
  proof
    assume "DeletePod \<in> set T"
    from kinds[OF this] show "config_file s \<noteq> Some (desired_content self)
           \<and> (case config_file s of
                None \<Rightarrow> True
              | Some d \<Rightarrow> doc_hwcksum d \<noteq> enable_hw_checksum (charm_config self))"
      by simp
  qed
  show "\<forall>label. AddLayer label \<in> set T
           \<longrightarrow> plan_services s \<noteq> services (bessd_pebble_layer self)"
  proof (intro allI impI)
    fix label
    assume "AddLayer label \<in> set T"
    from kinds[OF this] show "plan_services s \<noteq> services (bessd_pebble_layer self)"
      by simp
  qed
  show "\<forall>service_name. Restart service_name \<in> set T \<longrightarrow>
           config_file s \<noteq> Some (desired_content self)
           \<or> plan_services s \<noteq> services (bessd_pebble_layer self)"
  proof (intro allI impI)
    fix service_name
    assume "Restart service_name \<in> set T"
    from kinds[OF this] show "config_file s \<noteq> Some (desired_content self)
           \<or> plan_services s \<noteq> services (bessd_pebble_layer self)"
      by simp
  qed
  show "\<forall>ok. Exec BessctlRun ok \<in> set T \<longrightarrow> marker_file s = None"
  proof (intro allI impI)
    fix ok
    assume "Exec BessctlRun ok \<in> set T"
    from kinds[OF this] show "marker_file s = None"
      using route_cmd_kinds[of self] by auto
  qed
  show "Push marker_file_path \<in> set T \<longrightarrow> marker_file s = None"
  proof
    assume "Push marker_file_path \<in> set T"
    from kinds[OF this] show "marker_file s = None"
      using paths_differ by auto
  qed
  from ensure_route_first[of e self "after_config self s"] obtain ok B' where
    first: "calls (final (ensure_routes_and_rule e self (after_config self s)))
              = calls (after_config self s) @ Exec (default_route_cmd self) ok # B'"
    and ran: "ok \<longrightarrow> (\<exists>ok'. Exec (ran_route_cmd self) ok' \<in> set B')"
    and stop: "\<not> ok \<longrightarrow> B' = [] \<and> \<not> returns (ensure_routes_and_rule e self (after_config self s))"
    by blast
  have B: "B = Exec (default_route_cmd self) ok # B'"
    using first en by (simp add: after_config_def)
  have cfg: "set (config_trace self s)
               \<subseteq> {Exists config_file_path, Pull config_file_path, Push config_file_path}"
    by (auto simp: config_trace_def)
  show "\<exists>pre ok post. T = pre @ Exec (default_route_cmd self) ok # post
           \<and> set pre \<subseteq> {Exists config_file_path, Pull config_file_path, Push config_file_path}"
    by (rule exI[of _ "config_trace self s"], rule exI[of _ ok],
        rule exI[of _ "B' @ (if ?ret then layer_trace self s @ decision_calls self s @ E else [])"])
       (use cfg in \<open>simp add: t B\<close>)
  show "Exec (default_route_cmd self) True \<in> set T
           \<longrightarrow> (\<exists>ok. Exec (ran_route_cmd self) ok \<in> set T)"
  proof
    assume d: "Exec (default_route_cmd self) True \<in> set T"
    have "ok"
    proof (rule ccontr)
      assume no: "\<not> ok"
      then have "B = [Exec (default_route_cmd self) False]" using B stop by simp
      moreover have "\<not> ?ret" using no stop by simp
      ultimately have "T = config_trace self s @ [Exec (default_route_cmd self) False]"
        by (simp add: t)
      then show False using d by (auto simp: config_trace_def split: if_splits)
    qed
    then obtain ok' where "Exec (ran_route_cmd self) ok' \<in> set B'" using ran by blast
    then have "Exec (ran_route_cmd self) ok' \<in> set T" by (simp add: t B)
    then show "\<exists>ok. Exec (ran_route_cmd self) ok \<in> set T" ..
  qed
qed

text \<open>The calls of the Sidecar Configuration Reconciler.\<close>

lemma pfcp_layer_nonempty: "services pfcp_agent_pebble_layer \<noteq> Map.empty"
  by (simp add: pfcp_agent_pebble_layer_def)

lemma configure_pfcp_trace:
  "trace_of p (configure_pfcp_agent_workload p) =
     (if plan_services p \<noteq> services pfcp_agent_pebble_layer
      then [GetPlan, AddLayer ''pfcp'', Restart pfcp_agent_service_name]
      else [GetPlan])"
  by (rule trace_ofI) (simp add: configure_pfcp_agent_workload_def gateway_defs Let_def)

lemma configure_pfcp_writes:
  "guarded [] (trace_of p (configure_pfcp_agent_workload p))"
  "\<forall>w \<in> set (trace_of p (configure_pfcp_agent_workload p)). is_write w \<longrightarrow>
      False \<or> required_read w \<noteq> None"
  "(\<exists>w \<in> set (trace_of p (configure_pfcp_agent_workload p)). is_write w)
      \<longrightarrow> plan_services p \<noteq> services pfcp_agent_pebble_layer"
  by (simp_all add: configure_pfcp_trace)

lemma k8s_guarded_append:
  "k8s_guarded seen (xs @ ys) = (k8s_guarded seen xs \<and> k8s_guarded (rev xs @ seen) ys)"
  by (induction xs arbitrary: seen) auto

lemma k8s_guarded_gets: "k8s_guarded seen (replicate k GetStatefulSet)"
  by (induction k arbitrary: seen) auto

lemma final_outcome_of: "final (outcome_of v s) = s"
  by (cases v) simp_all

lemma is_created_cases:
  "(\<exists>err. network_attachment_definition_is_created n c
            = Raise err (c\<lparr>k8s_calls := k8s_calls c @ [GetNad n]\<rparr>))
   \<or> network_attachment_definition_is_created n c
        = Return True (c\<lparr>k8s_calls := k8s_calls c @ [GetNad n]\<rparr>)
   \<or> network_attachment_definition_is_created n c
        = Return False (c\<lparr>k8s_calls := k8s_calls c @ [GetNad n]\<rparr>)
      \<and> fst (client_get_nad n c) = Inl (ApiError ''NotFound'')"
  by (simp add: network_attachment_definition_is_created_def client_get_nad_def
        split: option.splits api_fault.splits)

lemma create_missing_writes:
  "\<exists>tr. k8s_calls (final (create_missing ds c)) = k8s_calls c @ tr
     \<and> k8s_guarded seen tr
     \<and> (\<forall>n. CreateNad n \<in> set tr \<longrightarrow> fst (client_get_nad n c) = Inl (ApiError ''NotFound''))
     \<and> (\<forall>obj. PatchStatefulSet obj \<notin> set tr)
     \<and> (\<forall>n. DeleteNad n \<notin> set tr)
     \<and> statefulset (final (create_missing ds c)) = statefulset c"
proof (induction ds arbitrary: c seen)
  case Nil
  show ?case by simp
next
  case (Cons d ds)
  let ?n = "nad_name d"
  let ?c1 = "c\<lparr>k8s_calls := k8s_calls c @ [GetNad ?n]\<rparr>"
  consider (raise) err where "network_attachment_definition_is_created ?n c = Raise err ?c1"
    | (found) "network_attachment_definition_is_created ?n c = Return True ?c1"
    | (missing) "network_attachment_definition_is_created ?n c = Return False ?c1"
        "fst (client_get_nad ?n c) = Inl (ApiError ''NotFound'')"
    using is_created_cases[of ?n c] by blast
  then show ?case
  proof cases
    case raise
    show ?thesis
      by (rule exI[of _ "[GetNad ?n]"]) (simp add: raise)
  next
    case found
    from Cons.IH[of ?c1 "GetNad ?n # seen"] obtain tr where
      ih: "k8s_calls (final (create_missing ds ?c1)) = k8s_calls ?c1 @ tr"
      "k8s_guarded (GetNad ?n # seen) tr"
      "\<forall>n. CreateNad n \<in> set tr \<longrightarrow> fst (client_get_nad n ?c1) = Inl (ApiError ''NotFound'')"
      "\<forall>obj. PatchStatefulSet obj \<notin> set tr"
      "\<forall>n. DeleteNad n \<notin> set tr"
      "statefulset (final (create_missing ds ?c1)) = statefulset ?c1"
      by blast
    show ?thesis
      by (rule exI[of _ "GetNad ?n # tr"]) (use ih in \<open>simp add: found get_nad_log\<close>)
  next
    case missing
    let ?c2 = "create_network_attachment_definition d ?c1"
    from Cons.IH[of ?c2 "CreateNad ?n # GetNad ?n # seen"] obtain tr where
      ih: "k8s_calls (final (create_missing ds ?c2)) = k8s_calls ?c2 @ tr"
      "k8s_guarded (CreateNad ?n # GetNad ?n # seen) tr"
      "\<forall>n. CreateNad n \<in> set tr \<longrightarrow> fst (client_get_nad n ?c2) = Inl (ApiError ''NotFound'')"
      "\<forall>obj. PatchStatefulSet obj \<notin> set tr"
      "\<forall>n. DeleteNad n \<notin> set tr"
      "statefulset (final (create_missing ds ?c2)) = statefulset ?c2"
      by blast
    have earlier: "fst (client_get_nad n ?c2) = Inl (ApiError ''NotFound'')
                \<Longrightarrow> fst (client_get_nad n c) = Inl (ApiError ''NotFound'')" for n
      by (auto simp: client_get_nad_def create_network_attachment_definition_def
            split: option.splits if_splits)
    show ?thesis
      by (rule exI[of _ "GetNad ?n # CreateNad ?n # tr"])
         (use ih missing earlier in \<open>auto simp: create_network_attachment_definition_def\<close>)
  qed
qed

lemma set_net_admin_log:
  "\<exists>j. k8s_calls (final (set_net_admin sts names c)) = k8s_calls c @ replicate j GetStatefulSet"
proof (induction names arbitrary: sts c)
  case Nil
  show ?case by (rule exI[of _ 0]) simp
next
  case (Cons n ns)
  let ?c1 = "c\<lparr>k8s_calls := k8s_calls c @ [GetStatefulSet]\<rparr>"
  show ?case
  proof (cases "first_index (sts_containers (statefulset c)) n")
    case None
    show ?thesis by (rule exI[of _ 1]) (simp add: get_index_eval None)
  next
    case (Some i)
    show ?thesis
    proof (cases "i < length (sts_containers sts)")
      case False
      show ?thesis by (rule exI[of _ 1]) (simp add: get_index_eval Some False)
    next
      case ib: True
      show ?thesis
      proof (cases "c_securityContext (sts_containers sts ! i)")
        case None
        show ?thesis by (rule exI[of _ 1]) (simp add: get_index_eval Some ib None)
      next
        case sc: (Some security_context)
        let ?sts1 = "sts\<lparr>sts_containers := (sts_containers sts)
                          [i := (sts_containers sts ! i)
                             \<lparr>c_securityContext :=
                                Some (security_context\<lparr>sc_capabilities := Some net_admin\<rparr>)\<rparr>]\<rparr>"
        from Cons[of ?sts1 ?c1] obtain j where
          "k8s_calls (final (set_net_admin ?sts1 ns ?c1)) = k8s_calls ?c1 @ replicate j GetStatefulSet"
          by blast
        then show ?thesis
          by (intro exI[of _ "Suc j"]) (simp add: get_index_eval Some ib sc replicate_app_Cons_same)
      qed
    qed
  qed
qed

lemma patch_statefulset_writes:
  "\<exists>j. k8s_calls (final (patch_statefulset annos names c))
         = k8s_calls c @ replicate j GetStatefulSet
             @ (if returns (patch_statefulset annos names c) \<and> annos \<noteq> []
                then [PatchStatefulSet (statefulset (final (patch_statefulset annos names c)))]
                else [])
       \<and> (returns (patch_statefulset annos names c) \<and> annos \<noteq> [] \<longrightarrow> 0 < j)"
proof (cases "annos = []")
  case True
  show ?thesis by (rule exI[of _ 0]) (simp add: patch_statefulset_def True)
next
  case ne: False
  show ?thesis
  proof (cases "patch_statefulset annos names c")
    case (Return u c')
    from patch_statefulset_result[OF ne Return[unfolded unit_eq[of u]]] obtain obj where
      "c' = c\<lparr>statefulset := obj,
                      k8s_calls := k8s_calls c @ replicate (Suc (length names)) GetStatefulSet
                                     @ [PatchStatefulSet obj]\<rparr>"
      by blast
    then show ?thesis
      by (intro exI[of _ "Suc (length names)"]) (simp add: Return ne)
  next
    case (Raise err c')
    let ?c1 = "c\<lparr>k8s_calls := k8s_calls c @ [GetStatefulSet]\<rparr>"
    let ?sts1 = "(statefulset c)\<lparr>sts_annotations :=
                 (sts_annotations (statefulset c))(multus_annotation_key \<mapsto> json_dumps annos)\<rparr>"
    from set_net_admin_log[of ?sts1 names ?c1] obtain j where
      j: "k8s_calls (final (set_net_admin ?sts1 names ?c1)) = k8s_calls ?c1 @ replicate j GetStatefulSet"
      by blast
    have "c' = final (set_net_admin ?sts1 names ?c1)"
      using Raise ne
      by (cases "set_net_admin ?sts1 names ?c1")
         (simp_all add: patch_statefulset_def client_get_statefulset_def)
    then show ?thesis
      using j by (intro exI[of _ "Suc j"]) (simp add: Raise replicate_app_Cons_same)
  qed
qed

lemma have_net_admin_False:
  "have_net_admin sts names c = Return False c' \<Longrightarrow>
   \<exists>n \<in> set names. \<exists>i. first_index (sts_containers (statefulset c)) n = Some i
      \<and> ''NET_ADMIN'' \<notin> set (added_capabilities (sts_containers sts ! i))"
proof (induction names arbitrary: c)
  case Nil
  then show ?case by simp
next
  case (Cons n ns)
  let ?c1 = "c\<lparr>k8s_calls := k8s_calls c @ [GetStatefulSet]\<rparr>"
  from Cons.prems obtain i where i: "first_index (sts_containers (statefulset c)) n = Some i"
    by (cases "first_index (sts_containers (statefulset c)) n") (simp_all add: get_index_eval)
  show ?case
  proof (cases "''NET_ADMIN'' \<in> set (added_capabilities (sts_containers sts ! i))")
    case False
    then show ?thesis using i by auto
  next
    case True
    then have "have_net_admin sts ns ?c1 = Return False c'"
      using Cons.prems i
      by (auto simp: get_index_eval added_capabilities_def split: option.splits if_splits)
    from Cons.IH[OF this] show ?thesis by auto
  qed
qed

lemma is_patched_False:
  "statefulset_is_patched annos names c = Return False c' \<Longrightarrow>
   sts_annotations (statefulset c) multus_annotation_key \<noteq> Some (Dumped annos)
   \<or> (\<exists>n \<in> set names. \<exists>i. first_index (sts_containers (statefulset c)) n = Some i
        \<and> ''NET_ADMIN'' \<notin> set (added_capabilities (sts_containers (statefulset c) ! i)))"
proof (cases "sts_annotations (statefulset c) multus_annotation_key = Some (Dumped annos)")
  case False
  then show ?thesis by simp
next
  case True
  assume "statefulset_is_patched annos names c = Return False c'"
  then have "have_net_admin (statefulset c) names (c\<lparr>k8s_calls := k8s_calls c @ [GetStatefulSet]\<rparr>)
               = Return False c'"
    using True by (simp add: statefulset_is_patched_def client_get_statefulset_def)
  from have_net_admin_False[OF this] show ?thesis by simp
qed

lemma patch_writes:
  "k8s_guarded [] (k8s_trace_of c (final (patch self c)))
   \<and> (\<forall>n. CreateNad n \<in> set (k8s_trace_of c (final (patch self c)))
        \<longrightarrow> fst (client_get_nad n c) = Inl (ApiError ''NotFound''))
   \<and> (\<forall>obj. PatchStatefulSet obj \<in> set (k8s_trace_of c (final (patch self c)))
        \<longrightarrow> obj \<noteq> statefulset c)
   \<and> (\<forall>n. DeleteNad n \<notin> set (k8s_trace_of c (final (patch self c))))"
proof -
  let ?ds = "network_attachment_definitions self"
  let ?annos = "network_annotations self"
  let ?names = "containers_requiring_net_admin_capability self"
  let ?P = "\<lambda>tr. k8s_guarded [] tr
     \<and> (\<forall>n. CreateNad n \<in> set tr \<longrightarrow> fst (client_get_nad n c) = Inl (ApiError ''NotFound''))
     \<and> (\<forall>obj. PatchStatefulSet obj \<in> set tr \<longrightarrow> obj \<noteq> statefulset c)
     \<and> (\<forall>n. DeleteNad n \<notin> set tr)"
  from create_missing_writes[of ?ds c "[]"] obtain trc where
    tc: "k8s_calls (final (create_missing ?ds c)) = k8s_calls c @ trc"
    and gc: "k8s_guarded [] trc"
    and cc: "\<forall>n. CreateNad n \<in> set trc \<longrightarrow> fst (client_get_nad n c) = Inl (ApiError ''NotFound'')"
    and pc: "\<forall>obj. PatchStatefulSet obj \<notin> set trc"
    and dc: "\<forall>n. DeleteNad n \<notin> set trc"
    and sc: "statefulset (final (create_missing ?ds c)) = statefulset c"
    by blast
  have reads: "?P (trc @ replicate k GetStatefulSet)" for k
    using gc cc pc dc by (auto simp: k8s_guarded_append k8s_guarded_gets)
  have "\<exists>tr. k8s_calls (final (patch self c)) = k8s_calls c @ tr \<and> ?P tr"
  proof (cases "create_missing ?ds c")
    case (Raise err ca)
    then have "k8s_calls (final (patch self c)) = k8s_calls c @ trc @ replicate 0 GetStatefulSet"
      using tc by (simp add: patch_def)
    then show ?thesis using reads[of 0] by blast
  next
    case (Return u ca)
    have ca: "k8s_calls ca = k8s_calls c @ trc" "statefulset ca = statefulset c"
      using tc sc Return by simp_all
    from is_patched_log[of ?annos ?names ca] obtain v k where
      lg: "\<forall>l. statefulset_is_patched ?annos ?names (ca\<lparr>k8s_calls := l\<rparr>)
                = outcome_of v (ca\<lparr>k8s_calls := l @ replicate k GetStatefulSet\<rparr>)"
      by blast
    let ?cb = "ca\<lparr>k8s_calls := k8s_calls ca @ replicate k GetStatefulSet\<rparr>"
    have ipa: "statefulset_is_patched ?annos ?names ca = outcome_of v ?cb"
      using lg[rule_format, of "k8s_calls ca"] by simp
    show ?thesis
    proof (cases "v = Inr False")
      case False
      then have "final (patch self c) = ?cb"
        by (cases v) (auto simp: patch_def Return ipa)
      then have "k8s_calls (final (patch self c)) = k8s_calls c @ trc @ replicate k GetStatefulSet"
        using ca by simp
      then show ?thesis using reads[of k] by blast
    next
      case True
      let ?r = "patch_statefulset ?annos ?names ?cb"
      have p: "patch self c = ?r"
        by (simp add: patch_def Return ipa True)
      have notp: "statefulset_is_patched ?annos ?names ca = Return False ?cb"
        using ipa True by simp
      from patch_statefulset_writes[of ?annos ?names ?cb] obtain j where
        j: "k8s_calls (final ?r) = k8s_calls ?cb @ replicate j GetStatefulSet
             @ (if returns ?r \<and> ?annos \<noteq> [] then [PatchStatefulSet (statefulset (final ?r))] else [])"
        and jp: "returns ?r \<and> ?annos \<noteq> [] \<longrightarrow> 0 < j"
        by blast
      let ?tail = "if returns ?r \<and> ?annos \<noteq> [] then [PatchStatefulSet (statefulset (final ?r))] else []"
      have calls: "k8s_calls (final (patch self c))
                     = k8s_calls c @ (trc @ replicate (k + j) GetStatefulSet) @ ?tail"
        using j ca by (simp add: p replicate_add)
      have differs: "statefulset (final ?r) \<noteq> statefulset c" if "returns ?r" "?annos \<noteq> []"
      proof
        assume same: "statefulset (final ?r) = statefulset c"
        from that(1) have ret: "?r = Return () (final ?r)" by (cases ?r) simp_all
        from patch_sets_annotation_and_capability_aux[OF that(2) ret] have
          a: "sts_annotations (statefulset (final ?r)) multus_annotation_key = Some (Dumped ?annos)"
          and g: "\<forall>n \<in> set ?names. \<exists>i. first_index (sts_containers (statefulset (final ?r))) n = Some i
            \<and> added_capabilities (sts_containers (statefulset (final ?r)) ! i) = [''NET_ADMIN'']"
          by auto
        from is_patched_False[OF notp] ca(2) consider
          "sts_annotations (statefulset c) multus_annotation_key \<noteq> Some (Dumped ?annos)"
          | n i where "n \<in> set ?names" "first_index (sts_containers (statefulset c)) n = Some i"
              "''NET_ADMIN'' \<notin> set (added_capabilities (sts_containers (statefulset c) ! i))"
          by auto
        then show False
        proof cases
          case 1
          then show ?thesis using a same by simp
        next
          case 2
          from g 2(1) obtain i' where "first_index (sts_containers (statefulset (final ?r))) n = Some i'"
            "added_capabilities (sts_containers (statefulset (final ?r)) ! i') = [''NET_ADMIN'']"
            by blast
          then show ?thesis using 2(2,3) same by simp
        qed
      qed
      have tail: "k8s_guarded (rev (trc @ replicate (k + j) GetStatefulSet)) ?tail"
        using jp by auto
      have "?P ((trc @ replicate (k + j) GetStatefulSet) @ ?tail)"
        using reads[of "k + j"] tail differs pc
        by (auto simp: k8s_guarded_append simp del: replicate_add split: if_splits)
      then show ?thesis using calls by blast
    qed
  qed
  then obtain tr where "k8s_calls (final (patch self c)) = k8s_calls c @ tr" and P: "?P tr" by blast
  then have "k8s_trace_of c (final (patch self c)) = tr" by (simp add: k8s_trace_ofI)
  then show ?thesis using P by simp
qed

lemma k8s_guarded_split:
  "k8s_guarded seen tr \<Longrightarrow> tr = pre @ w # post \<Longrightarrow> k8s_required_read w = Some r \<Longrightarrow>
   r \<in> set seen \<union> set pre"
  by (auto simp: k8s_guarded_append)

lemma k8s_write_has_read: "k8s_is_write w \<Longrightarrow> k8s_required_read w \<noteq> None"
  by (cases w) simp_all

lemma k8s_reads_first:
  assumes g: "k8s_guarded [] tr"
  shows "\<forall>pre w post. tr = pre @ w # post \<and> k8s_is_write w \<longrightarrow>
           (\<exists>r. k8s_required_read w = Some r \<and> r \<in> set pre)"
proof (intro allI impI)
  fix pre w post
  assume a: "tr = pre @ w # post \<and> k8s_is_write w"
  then obtain r where r: "k8s_required_read w = Some r"
    using k8s_write_has_read[of w] by blast
  from k8s_guarded_split[OF g _ r, of pre post] a have "r \<in> set pre" by simp
  then show "\<exists>r. k8s_required_read w = Some r \<and> r \<in> set pre" using r by blast
qed

lemma on_remove_writes:
  "k8s_guarded [] (k8s_trace_of c (final (on_remove self c)))"
  "\<forall>n. DeleteNad n \<in> set (k8s_trace_of c (final (on_remove self c)))
       \<longrightarrow> (\<exists>d. fst (client_get_nad n c) = Inr d)"
  "\<forall>n. CreateNad n \<notin> set (k8s_trace_of c (final (on_remove self c)))"
  "\<forall>obj. PatchStatefulSet obj \<notin> set (k8s_trace_of c (final (on_remove self c)))"
proof -
  from delete_existing_writes[of "network_attachment_definitions self" c "[]"] obtain tr where
    calls: "k8s_calls (final (delete_existing (network_attachment_definitions self) c))
              = k8s_calls c @ tr"
    and g: "k8s_guarded [] tr"
    and del: "\<forall>n. DeleteNad n \<in> set tr \<longrightarrow> nad_get_fault c n = None \<and> (\<exists>d. nads c n = Some d)"
    and cr: "\<forall>n. CreateNad n \<notin> set tr"
    and pa: "\<forall>obj. PatchStatefulSet obj \<notin> set tr"
    by blast
  have tr: "k8s_trace_of c (final (on_remove self c)) = tr"
    by (rule k8s_trace_ofI) (simp add: on_remove_def calls)
  show "k8s_guarded [] (k8s_trace_of c (final (on_remove self c)))"
    unfolding tr by (rule g)
  show "\<forall>n. DeleteNad n \<in> set (k8s_trace_of c (final (on_remove self c)))
       \<longrightarrow> (\<exists>d. fst (client_get_nad n c) = Inr d)"
    unfolding tr using del by (auto simp: client_get_nad_def)
  show "\<forall>n. CreateNad n \<notin> set (k8s_trace_of c (final (on_remove self c)))"
    unfolding tr by (rule cr)
  show "\<forall>obj. PatchStatefulSet obj \<notin> set (k8s_trace_of c (final (on_remove self c)))"
    unfolding tr by (rule pa)
qed

text \<open>
  Claim C2, as the code has it, for the four reconciliation routines: the Configuration
  Reconciler with the Bootstrap Runner it ends with, the Sidecar Configuration Reconciler,
  the Attachment Reconciler and its teardown. A write is any call that is not a read:
  a push, a command other than the firewall check, a layer add, a restart, the pod
  deletion, and on the cluster a create, a delete or a patch.

  In a pass of the Configuration Reconciler every write other than the two route
  replacements has its read earlier in the pass: the existence check of the file before a
  push, the plan before a layer add or a restart, the failed firewall check before the
  insert, the marker check before the bootstrap command, the pull of the stored document
  before the pod deletion. And each is made on a difference only: the document is pushed
  only when the stored one is absent or differs; the pod is deleted only when in addition
  the stored checksum value is absent or differs from the desired flag; the layer is added
  only when the plan's services differ; a service is restarted only when the document or
  the plan's services differ; the bootstrap command is run and the marker pushed only when
  the marker was absent. The route replacements are the exception: in every pass, whatever
  the observed state, the default route replacement is issued, and the calls before it are
  calls on the configuration document only, none of them a read of the routes; when it
  succeeds the replacement of the route to the gNB subnet follows.

  In the Sidecar Configuration Reconciler every write has the read of the plan before it
  and is made only when the plan's services differ. In the Attachment Reconciler every
  write has its read before it, a create is issued only for an attachment whose get
  reported NotFound, a patch sends an object that differs from the one the cluster held,
  and nothing is deleted. In the teardown every write has its read before it, a delete is
  issued only for an attachment whose get returned the object, and nothing is created or
  patched. The external Service that the install and remove handlers of charm.py apply
  and delete belongs to no reconciler of the specification and is not covered.
\<close>

theorem writes_follow_detected_differences:
  "(\<forall>pre w post. trace_of s (final (configure_bessd_workload e self s)) = pre @ w # post
        \<and> is_write w \<longrightarrow>
        (\<exists>ok. w = Exec (default_route_cmd self) ok \<or> w = Exec (ran_route_cmd self) ok)
        \<or> (\<exists>r. required_read w = Some r \<and> r \<in> set pre))
   \<and> (Push config_file_path \<in> set (trace_of s (final (configure_bessd_workload e self s)))
        \<longrightarrow> config_file s \<noteq> Some (desired_content self))
   \<and> (DeletePod \<in> set (trace_of s (final (configure_bessd_workload e self s)))
        \<longrightarrow> config_file s \<noteq> Some (desired_content self)
          \<and> (case config_file s of
               None \<Rightarrow> True
             | Some d \<Rightarrow> doc_hwcksum d \<noteq> enable_hw_checksum (charm_config self)))
   \<and> (\<forall>label. AddLayer label \<in> set (trace_of s (final (configure_bessd_workload e self s)))
        \<longrightarrow> plan_services s \<noteq> services (bessd_pebble_layer self))
   \<and> (\<forall>service_name.
         Restart service_name \<in> set (trace_of s (final (configure_bessd_workload e self s)))
        \<longrightarrow> config_file s \<noteq> Some (desired_content self)
          \<or> plan_services s \<noteq> services (bessd_pebble_layer self))
   \<and> (\<forall>ok. Exec BessctlRun ok \<in> set (trace_of s (final (configure_bessd_workload e self s)))
        \<longrightarrow> marker_file s = None)
   \<and> (Push marker_file_path \<in> set (trace_of s (final (configure_bessd_workload e self s)))
        \<longrightarrow> marker_file s = None)
   \<and> (\<exists>pre ok post. trace_of s (final (configure_bessd_workload e self s))
                       = pre @ Exec (default_route_cmd self) ok # post
        \<and> set pre \<subseteq> {Exists config_file_path, Pull config_file_path, Push config_file_path})
   \<and> (Exec (default_route_cmd self) True
          \<in> set (trace_of s (final (configure_bessd_workload e self s)))
        \<longrightarrow> (\<exists>ok. Exec (ran_route_cmd self) ok
                  \<in> set (trace_of s (final (configure_bessd_workload e self s)))))
   \<and> (\<forall>pre w post. trace_of p (configure_pfcp_agent_workload p) = pre @ w # post
        \<and> is_write w \<longrightarrow> (\<exists>r. required_read w = Some r \<and> r \<in> set pre))
   \<and> ((\<exists>w \<in> set (trace_of p (configure_pfcp_agent_workload p)). is_write w)
        \<longrightarrow> plan_services p \<noteq> services pfcp_agent_pebble_layer)
   \<and> (\<forall>pre w post. k8s_trace_of c (final (patch lib c)) = pre @ w # post
        \<and> k8s_is_write w \<longrightarrow> (\<exists>r. k8s_required_read w = Some r \<and> r \<in> set pre))
   \<and> (\<forall>n. CreateNad n \<in> set (k8s_trace_of c (final (patch lib c)))
        \<longrightarrow> fst (client_get_nad n c) = Inl (ApiError ''NotFound''))
   \<and> (\<forall>obj. PatchStatefulSet obj \<in> set (k8s_trace_of c (final (patch lib c)))
        \<longrightarrow> obj \<noteq> statefulset c)
   \<and> (\<forall>n. DeleteNad n \<notin> set (k8s_trace_of c (final (patch lib c))))
   \<and> (\<forall>pre w post. k8s_trace_of c (final (on_remove lib c)) = pre @ w # post
        \<and> k8s_is_write w \<longrightarrow> (\<exists>r. k8s_required_read w = Some r \<and> r \<in> set pre))
   \<and> (\<forall>n. DeleteNad n \<in> set (k8s_trace_of c (final (on_remove lib c)))
        \<longrightarrow> (\<exists>d. fst (client_get_nad n c) = Inr d))
   \<and> (\<forall>n. CreateNad n \<notin> set (k8s_trace_of c (final (on_remove lib c))))
   \<and> (\<forall>obj. PatchStatefulSet obj \<notin> set (k8s_trace_of c (final (on_remove lib c))))"
proof -
  note a = configure_writes[where e = e and self = self and s = s]
  note b = configure_pfcp_writes[of p]
  note k = patch_writes[of c lib]
  note r = on_remove_writes[of c lib]
  have a1: "\<forall>pre w post. trace_of s (final (configure_bessd_workload e self s)) = pre @ w # post
        \<and> is_write w \<longrightarrow>
        (\<exists>ok. w = Exec (default_route_cmd self) ok \<or> w = Exec (ran_route_cmd self) ok)
        \<or> (\<exists>r. required_read w = Some r \<and> r \<in> set pre)"
    using a(1) a(2) by (rule reads_first)
  have b1: "\<forall>pre w post. trace_of p (configure_pfcp_agent_workload p) = pre @ w # post
        \<and> is_write w \<longrightarrow> False \<or> (\<exists>r. required_read w = Some r \<and> r \<in> set pre)"
    using b(1) b(2) by (rule reads_first)
  have b1': "\<forall>pre w post. trace_of p (configure_pfcp_agent_workload p) = pre @ w # post
        \<and> is_write w \<longrightarrow> (\<exists>r. required_read w = Some r \<and> r \<in> set pre)"
    using b1 by simp
  have k1: "\<forall>pre w post. k8s_trace_of c (final (patch lib c)) = pre @ w # post
        \<and> k8s_is_write w \<longrightarrow> (\<exists>r. k8s_required_read w = Some r \<and> r \<in> set pre)"
    using k[THEN conjunct1] by (rule k8s_reads_first)
  have r1: "\<forall>pre w post. k8s_trace_of c (final (on_remove lib c)) = pre @ w # post
        \<and> k8s_is_write w \<longrightarrow> (\<exists>r. k8s_required_read w = Some r \<and> r \<in> set pre)"
    using r(1) by (rule k8s_reads_first)
  show ?thesis
    by (intro conjI)
       (rule a1, rule a(3), rule a(4), rule a(5), rule a(6), rule a(7), rule a(8), rule a(9),
        rule a(10), rule b1', rule b(3), rule k1,
        rule k[THEN conjunct2, THEN conjunct1],
        rule k[THEN conjunct2, THEN conjunct2, THEN conjunct1],
        rule k[THEN conjunct2, THEN conjunct2, THEN conjunct2],
        rule r1, rule r(2), rule r(3), rule r(4))
qed

theorem writes_follow_detected_differences_witness:
  "trace_of fresh_container (final (configure_bessd_workload env_ok charm_upf fresh_container))
      = [Exists config_file_path, Pull config_file_path, Push config_file_path,
         Exec (default_route_cmd charm_upf) True, Exec (ran_route_cmd charm_upf) True,
         Exec IptablesCheck False]
        @ Exec IptablesInsert True
        # [GetPlan, AddLayer ''bessd'', DeletePod,
           Exists marker_file_path, Exec BessctlRun True, Push marker_file_path]
   \<and> is_write (Exec IptablesInsert True)
   \<and> (\<exists>r. required_read (Exec IptablesInsert True) = Some r
         \<and> r \<in> set [Exists config_file_path, Pull config_file_path, Push config_file_path,
                     Exec (default_route_cmd charm_upf) True, Exec (ran_route_cmd charm_upf) True,
                     Exec IptablesCheck False])
   \<and> config_file fresh_container \<noteq> Some (desired_content charm_upf)
   \<and> plan_services fresh_container \<noteq> services (bessd_pebble_layer charm_upf)
   \<and> marker_file fresh_container = None
   \<and> trace_of fresh_container (configure_pfcp_agent_workload fresh_container)
      = [GetPlan, AddLayer ''pfcp'', Restart pfcp_agent_service_name]
   \<and> plan_services fresh_container \<noteq> services pfcp_agent_pebble_layer
   \<and> CreateNad ''access-net'' \<in> set (k8s_trace_of upf_cluster (final (patch upf_multus upf_cluster)))
   \<and> fst (client_get_nad ''access-net'' upf_cluster) = Inl (ApiError ''NotFound'')
   \<and> DeleteNad ''access-net''
        \<in> set (k8s_trace_of mixed_cluster (final (on_remove upf_multus mixed_cluster)))
   \<and> (\<exists>d. fst (client_get_nad ''access-net'' mixed_cluster) = Inr d)"
proof -
  let ?T = "trace_of fresh_container (final (configure_bessd_workload env_ok charm_upf fresh_container))"
  let ?pre = "[Exists config_file_path, Pull config_file_path, Push config_file_path,
         Exec (default_route_cmd charm_upf) True, Exec (ran_route_cmd charm_upf) True,
         Exec IptablesCheck False]"
  let ?post = "[GetPlan, AddLayer ''bessd'', DeletePod,
           Exists marker_file_path, Exec BessctlRun True, Push marker_file_path]"
  have ok: "\<forall>n c. exec_ok env_ok n c"
    by (simp add: env_ok_def)
  have fresh: "config_file fresh_container = None" "marker_file fresh_container = None"
    "iptables_output fresh_container = []" "plan_services fresh_container = Map.empty"
    by (simp_all add: fresh_container_def)
  note p1 = first_pass[OF ok fresh, of charm_upf]
  have t1: "?T = ?pre @ Exec IptablesInsert True # ?post"
    by (rule trace_ofI) (simp add: p1)
  have wr: "is_write (Exec IptablesInsert True)"
    by simp
  note w = writes_follow_detected_differences
             [of fresh_container env_ok charm_upf fresh_container upf_cluster upf_multus]
  note m = writes_follow_detected_differences
             [of fresh_container env_ok charm_upf fresh_container mixed_cluster upf_multus]
  have rd: "\<exists>r. required_read (Exec IptablesInsert True) = Some r \<and> r \<in> set ?pre"
    using w[THEN conjunct1, rule_format, of ?pre "Exec IptablesInsert True" ?post] t1 wr
    by (simp add: default_route_cmd_def ran_route_cmd_def)
  have pushed: "Push config_file_path \<in> set ?T" "AddLayer ''bessd'' \<in> set ?T"
    "Push marker_file_path \<in> set ?T"
    by (simp_all add: t1)
  have d1: "config_file fresh_container \<noteq> Some (desired_content charm_upf)"
    using w[THEN conjunct2, THEN conjunct1] pushed(1) by (rule mp)
  have d2: "plan_services fresh_container \<noteq> services (bessd_pebble_layer charm_upf)"
    using w[THEN conjunct2, THEN conjunct2, THEN conjunct2, THEN conjunct1, rule_format, OF pushed(2)] .
  have d3: "marker_file fresh_container = None"
    using w[THEN conjunct2, THEN conjunct2, THEN conjunct2, THEN conjunct2, THEN conjunct2,
            THEN conjunct2, THEN conjunct1] pushed(3)
    by (rule mp)
  have ne: "plan_services fresh_container \<noteq> services pfcp_agent_pebble_layer"
    using pfcp_layer_nonempty by (simp add: fresh_container_def)
  have tp: "trace_of fresh_container (configure_pfcp_agent_workload fresh_container)
      = [GetPlan, AddLayer ''pfcp'', Restart pfcp_agent_service_name]"
    using ne by (simp add: configure_pfcp_trace)
  have created: "CreateNad ''access-net''
      \<in> set (k8s_trace_of upf_cluster (final (patch upf_multus upf_cluster)))"
  proof -
    have "CreateNad ''access-net''
      \<in> set (filter k8s_is_write (k8s_trace_of upf_cluster (final (patch upf_multus upf_cluster))))"
      using upf_first_patch by simp
    then show ?thesis by simp
  qed
  have d4: "fst (client_get_nad ''access-net'' upf_cluster) = Inl (ApiError ''NotFound'')"
    using w[THEN conjunct2, THEN conjunct2, THEN conjunct2, THEN conjunct2, THEN conjunct2,
            THEN conjunct2, THEN conjunct2, THEN conjunct2, THEN conjunct2, THEN conjunct2,
            THEN conjunct2, THEN conjunct2, THEN conjunct1, rule_format, OF created] .
  have tr: "k8s_trace_of mixed_cluster (final (on_remove upf_multus mixed_cluster))
        = [GetNad ''access-net'', DeleteNad ''access-net'', GetNad ''core-net'']"
    by (rule k8s_trace_ofI)
       (simp add: on_remove_def upf_multus_def is_created_eval mixed_cluster_def upf_cluster_def
          delete_network_attachment_definition_def)
  have deleted: "DeleteNad ''access-net''
        \<in> set (k8s_trace_of mixed_cluster (final (on_remove upf_multus mixed_cluster)))"
    by (simp add: tr)
  have d5: "\<exists>d. fst (client_get_nad ''access-net'' mixed_cluster) = Inr d"
    using m[THEN conjunct2, THEN conjunct2, THEN conjunct2, THEN conjunct2, THEN conjunct2,
            THEN conjunct2, THEN conjunct2, THEN conjunct2, THEN conjunct2, THEN conjunct2,
            THEN conjunct2, THEN conjunct2, THEN conjunct2, THEN conjunct2, THEN conjunct2,
            THEN conjunct2, THEN conjunct1, rule_format, OF deleted] .
  show ?thesis using t1 wr rd d1 d2 d3 tp ne created d4 deleted d5 by (intro conjI)
qed

text \<open>
  The claim as the specification words it fails for the route command. In a container
  that holds the desired document, both desired routes, the firewall rule, the desired
  plan and the marker, nothing differs from the desired state; a pass still issues the
  default route replacement, a write, after the two reads of the configuration document
  and no read of the routes, and the routes after the pass are the routes before it.
\<close>

theorem route_replaced_without_difference_counterexample:
  "routes converged_container (''default'', Some ''110'')
      = Some (str_opt (get_network_gateway_ip_config charm_upf CORE_INTERFACE_NAME))
   \<and> trace_of converged_container
        (final (configure_bessd_workload env_ok charm_upf converged_container))
       = [Exists config_file_path, Pull config_file_path,
          Exec (default_route_cmd charm_upf) True, Exec (ran_route_cmd charm_upf) True,
          Exec IptablesCheck True, GetPlan, Exists marker_file_path]
   \<and> is_write (Exec (default_route_cmd charm_upf) True)
   \<and> routes (final (configure_bessd_workload env_ok charm_upf converged_container))
       = routes converged_container"
proof -
  have ok': "\<forall>n c. c \<noteq> BessctlRun \<longrightarrow> exec_ok env_ok n c"
    by (simp add: env_ok_def)
  have f: "config_file converged_container = Some (desired_content charm_upf)"
    "marker_file converged_container \<noteq> None"
    "icmp_rule \<in> set (iptables_output converged_container)"
    "plan_services converged_container = services (bessd_pebble_layer charm_upf)"
    by (simp_all add: converged_container_def)
  have r: "routes converged_container (''default'', Some ''110'')
      = Some (str_opt (get_network_gateway_ip_config charm_upf CORE_INTERFACE_NAME))"
    "routes converged_container (gnb_subnet (charm_config charm_upf), None)
      = Some (str_opt (get_network_gateway_ip_config charm_upf ACCESS_INTERFACE_NAME))"
    by (simp_all add: converged_container_def charm_upf_def cfg_normal_def str_opt_def
          get_network_gateway_ip_config_def ACCESS_INTERFACE_NAME_def CORE_INTERFACE_NAME_def)
  note p = converged_pass[OF ok' f]
  have t: "trace_of converged_container
        (final (configure_bessd_workload env_ok charm_upf converged_container))
       = [Exists config_file_path, Pull config_file_path,
          Exec (default_route_cmd charm_upf) True, Exec (ran_route_cmd charm_upf) True,
          Exec IptablesCheck True, GetPlan, Exists marker_file_path]"
    by (rule trace_ofI) (simp add: p)
  have w: "is_write (Exec (default_route_cmd charm_upf) True)"
    by (simp add: default_route_cmd_def)
  have rt: "routes (final (configure_bessd_workload env_ok charm_upf converged_container))
       = routes converged_container"
  proof
    fix k
    show "routes (final (configure_bessd_workload env_ok charm_upf converged_container)) k
            = routes converged_container k"
      using r by (simp add: p)
  qed
  show ?thesis using r(1) t w rt by (intro conjI)
qed

end
